theory Spec2Isabelle
  imports Complex_Main
begin

section \<open>pathsteerd: the edge control plane\<close>

text \<open>
  A shallow embedding of \<^verbatim>\<open>src/pathsteerd/pathsteerd.c\<close>. The global variables
  \<^verbatim>\<open>g_uplinks\<close>, \<^verbatim>\<open>g_status\<close> and the last-command triple become the fields of a record
  \<open>world\<close> that every operation takes and returns. What the daemon learns from outside
  (the clock, the result of a probe, the exit status of a shell command, the contents of a
  file) is an argument of the operation that reads it.

  Conventions.
  \<^item> \<^verbatim>\<open>int\<close> and \<^verbatim>\<open>int64_t\<close> values are \<open>int\<close>. Timestamps are readings of
    \<^verbatim>\<open>gettimeofday\<close> in microseconds or the initial 0, so the differences the code forms
    stay far inside 64 bits; integer division is C's, truncating towards zero (\<open>c_div\<close>).
  \<^item> \<^verbatim>\<open>double\<close> values are the datatype \<open>double\<close>: IEEE 754 binary64 with its
    infinities and NaN. Every sum, difference, product and quotient is rounded to the
    nearest double, ties to even, each operation on its own; a comparison with NaN is
    false.
  \<^item> \<^verbatim>\<open>uplink_id_t\<close> is a datatype with the six enumerators; every call site of the
    source passes one of them. The array \<^verbatim>\<open>g_uplinks[MAX_UPLINKS]\<close> is a function on it,
    and a \<^verbatim>\<open>for (i = 0; i < UPLINK_COUNT; i++)\<close> loop is a fold over \<open>uplink_ids\<close>.
  \<^item> The ring \<^verbatim>\<open>history[HISTORY_SIZE]\<close> is a function on \<open>nat\<close>; every index the code
    forms is reduced modulo \<^verbatim>\<open>HISTORY_SIZE\<close>.
  \<^item> \<^verbatim>\<open>log_event\<close> appends the event type to \<open>g_log\<close>; the payload is not kept, and
    neither is the detail text of the last-command triple.
  \<^item> The nftables table \<^verbatim>\<open>dup_table\<close> of namespace \<^verbatim>\<open>ns_vip\<close> is the field
    \<open>nft_dup\<close>: the rule (oif, gateway, device) that the last command sequence installed,
    or \<open>None\<close> after the table was deleted.
\<close>

subsection \<open>Constants\<close>

definition HISTORY_SIZE :: int where "HISTORY_SIZE = 100"
definition DEFAULT_RTT_STEP_MS :: int where "DEFAULT_RTT_STEP_MS = 80"
definition DEFAULT_RTT_WINDOW_MS :: int where "DEFAULT_RTT_WINDOW_MS = 200"
definition DEFAULT_PROBE_MISS_COUNT :: int where "DEFAULT_PROBE_MISS_COUNT = 2"
definition DEFAULT_PROBE_MISS_WINDOW :: int where "DEFAULT_PROBE_MISS_WINDOW = 300"
definition DEFAULT_RSRP_DROP_DB :: int where "DEFAULT_RSRP_DROP_DB = 8"
definition DEFAULT_SINR_DROP_DB :: int where "DEFAULT_SINR_DROP_DB = 6"
definition DEFAULT_PREROLL_MS :: int where "DEFAULT_PREROLL_MS = 500"
definition DEFAULT_MIN_HOLD_SEC :: int where "DEFAULT_MIN_HOLD_SEC = 3"
definition DEFAULT_CLEAN_EXIT_SEC :: int where "DEFAULT_CLEAN_EXIT_SEC = 2"
definition DUP_SETTLE_MS :: int where "DUP_SETTLE_MS = 50"

text \<open>C's \<^verbatim>\<open>/\<close> and \<^verbatim>\<open>%\<close> on signed integers: the quotient is truncated towards zero.\<close>

definition c_div :: "int \<Rightarrow> int \<Rightarrow> int" where
  "c_div a b = sgn a * sgn b * (\<bar>a\<bar> div \<bar>b\<bar>)"

definition c_mod :: "int \<Rightarrow> int \<Rightarrow> int" where
  "c_mod a b = sgn a * (\<bar>a\<bar> mod \<bar>b\<bar>)"

subsection \<open>Double precision\<close>

text \<open>
  A \<^verbatim>\<open>double\<close> is a finite value, an infinity or NaN. The finite values the program
  holds are the reals \<open>n * 2 ^ e\<close> with \<open>\<bar>n\<bar> < 2 ^ 53\<close> and \<open>- 1074 \<le> e \<le> 971\<close>; the sign
  of a zero is not kept, since no operation of the program divides by a double that can be
  zero, so that the sign shows in no comparison and in no other value.
\<close>

datatype double = D_fin real | D_pinf | D_ninf | D_nan

text \<open>
  Rounding to nearest, ties to even. \<open>scale_down\<close> and \<open>scale_up\<close> bring the magnitude
  \<open>m * 2 ^ e\<close> to a significand \<open>2 ^ 52 \<le> m < 2 ^ 53\<close>, or to the least exponent \<open>- 1074\<close>
  when the value is subnormal; the significand is rounded to an integer, and a result of
  \<open>2 ^ 1024\<close> or more overflows to an infinity.
\<close>

function scale_down :: "real \<Rightarrow> int \<Rightarrow> real \<times> int" where
  "scale_down m e = (if 2 ^ 53 \<le> m then scale_down (m / 2) (e + 1) else (m, e))"
  by pat_completeness auto
termination
proof (relation "measure (\<lambda>(m, e). nat \<lceil>m\<rceil>)")
  show "wf (measure (\<lambda>(m, e). nat \<lceil>m\<rceil>))"
    by simp
next
  fix m :: real and e :: int
  assume "2 ^ 53 \<le> m"
  then have "\<lceil>m / 2\<rceil> < \<lceil>m\<rceil>"
    by (simp add: ceiling_less_iff less_ceiling_iff) linarith
  moreover have "0 < \<lceil>m\<rceil>"
    using \<open>2 ^ 53 \<le> m\<close> by (simp add: less_ceiling_iff)
  ultimately show "((m / 2, e + 1), (m, e)) \<in> measure (\<lambda>(m, e). nat \<lceil>m\<rceil>)"
    by simp
qed

function scale_up :: "real \<Rightarrow> int \<Rightarrow> real \<times> int" where
  "scale_up m e = (if m < 2 ^ 52 \<and> - 1074 < e then scale_up (m * 2) (e - 1) else (m, e))"
  by pat_completeness auto
termination
  by (relation "measure (\<lambda>(m, e). nat (e + 1074))") simp_all

definition round_half_even :: "real \<Rightarrow> int" where
  "round_half_even x =
     (let f = \<lfloor>x\<rfloor>
      in if x - of_int f < 1 / 2 then f
         else if 1 / 2 < x - of_int f then f + 1
         else if even f then f else f + 1)"

definition round_double :: "real \<Rightarrow> double" where
  "round_double x =
     (if x = 0 then D_fin 0
      else
        (let me = scale_up (fst (scale_down \<bar>x\<bar> 0)) (snd (scale_down \<bar>x\<bar> 0));
             n = round_half_even (fst me);
             y = (if 0 \<le> snd me then of_int n * 2 ^ nat (snd me)
                  else of_int n / 2 ^ nat (- snd me))
         in if 2 ^ 1024 \<le> y then (if 0 < x then D_pinf else D_ninf)
            else D_fin (if 0 < x then y else - y)))"

text \<open>
  A decimal constant of the source that is no double (\<^verbatim>\<open>0.95\<close>, \<^verbatim>\<open>0.3\<close>) denotes the
  nearest one; a constant that is a double (\<^verbatim>\<open>100.0\<close>, \<^verbatim>\<open>0.5\<close>) is written \<open>D_fin\<close>. The
  conversion of an integer rounds in the same way.
\<close>

definition double_lit :: "real \<Rightarrow> double" where
  "double_lit x = round_double x"

definition double_of_int :: "int \<Rightarrow> double" where
  "double_of_int n = round_double (of_int n)"

text \<open>The arithmetic operations.\<close>

fun fneg :: "double \<Rightarrow> double" where
  "fneg (D_fin a) = D_fin (- a)"
| "fneg D_pinf = D_ninf"
| "fneg D_ninf = D_pinf"
| "fneg D_nan = D_nan"

fun fadd :: "double \<Rightarrow> double \<Rightarrow> double" where
  "fadd (D_fin a) (D_fin b) = round_double (a + b)"
| "fadd D_nan y = D_nan"
| "fadd x D_nan = D_nan"
| "fadd D_pinf D_ninf = D_nan"
| "fadd D_ninf D_pinf = D_nan"
| "fadd D_pinf y = D_pinf"
| "fadd D_ninf y = D_ninf"
| "fadd (D_fin a) y = y"

definition fsub :: "double \<Rightarrow> double \<Rightarrow> double" where
  "fsub x y = fadd x (fneg y)"

fun fmul :: "double \<Rightarrow> double \<Rightarrow> double" where
  "fmul (D_fin a) (D_fin b) = round_double (a * b)"
| "fmul D_nan y = D_nan"
| "fmul x D_nan = D_nan"
| "fmul (D_fin a) y = (if a = 0 then D_nan else if 0 < a then y else fneg y)"
| "fmul x (D_fin b) = (if b = 0 then D_nan else if 0 < b then x else fneg x)"
| "fmul x y = (if x = y then D_pinf else D_ninf)"

fun fdiv :: "double \<Rightarrow> double \<Rightarrow> double" where
  "fdiv (D_fin a) (D_fin b) =
     (if b = 0 then (if a = 0 then D_nan else if 0 < a then D_pinf else D_ninf)
      else round_double (a / b))"
| "fdiv D_nan y = D_nan"
| "fdiv x D_nan = D_nan"
| "fdiv (D_fin a) y = D_fin 0"
| "fdiv x (D_fin b) = (if 0 \<le> b then x else fneg x)"
| "fdiv x y = D_nan"

text \<open>The comparisons \<^verbatim>\<open><\<close>, \<^verbatim>\<open>>\<close>, \<^verbatim>\<open>>=\<close> and \<^verbatim>\<open>==\<close>.\<close>

fun flt :: "double \<Rightarrow> double \<Rightarrow> bool" where
  "flt (D_fin a) (D_fin b) = (a < b)"
| "flt (D_fin a) D_pinf = True"
| "flt D_ninf (D_fin b) = True"
| "flt D_ninf D_pinf = True"
| "flt x y = False"

definition fgt :: "double \<Rightarrow> double \<Rightarrow> bool" where
  "fgt x y = flt y x"

definition feq :: "double \<Rightarrow> double \<Rightarrow> bool" where
  "feq x y = (x = y \<and> x \<noteq> D_nan)"

definition fge :: "double \<Rightarrow> double \<Rightarrow> bool" where
  "fge x y = (flt y x \<or> feq x y)"

subsection \<open>Types\<close>

datatype op_mode_t = MODE_TRAINING | MODE_TRIPWIRE | MODE_MIRROR

datatype sys_state_t =
  STATE_NORMAL | STATE_PREPARE | STATE_PROTECT | STATE_SWITCHING | STATE_HOLDING

datatype uplink_type_t = UPLINK_TYPE_LTE | UPLINK_TYPE_STARLINK | UPLINK_TYPE_FIBER

datatype uplink_id_t =
  UPLINK_CELL_A | UPLINK_CELL_B | UPLINK_SL_A | UPLINK_SL_B | UPLINK_FIBER1 | UPLINK_FIBER2

datatype trigger_t =
  TRIGGER_NONE | TRIGGER_RTT_STEP | TRIGGER_PROBE_MISS | TRIGGER_LINK_DOWN
  | TRIGGER_RSRP_DROP | TRIGGER_SINR_DROP | TRIGGER_STARLINK_OBSTR
  | TRIGGER_PREDICTED | TRIGGER_MANUAL

record probe_t =
  pr_rtt_ms :: double
  pr_success :: bool
  pr_timestamp_us :: int

record cellular_t =
  rsrp :: double
  sinr :: double
  carrier :: string
  cell_timestamp_us :: int

record starlink_t =
  sl_connected :: bool
  online :: bool
  sl_state :: string
  latency_ms :: double
  downlink_mbps :: double
  uplink_mbps :: double
  obstructed :: bool
  obstruction_pct :: double
  obstruction_eta :: int
  sl_timestamp_us :: int

record uplink_t =
  name :: string
  interface :: string
  netns :: string
  veth :: string
  uplink_id :: uplink_id_t
  uplink_type :: uplink_type_t
  enabled :: bool
  available :: bool
  force_failed :: bool
  chaos_rtt :: double
  chaos_jitter :: double
  chaos_loss :: double
  is_active :: bool
  rtt_ms :: double
  rtt_baseline :: double
  loss_pct :: double
  jitter_ms :: double
  consec_fail :: int
  cellular :: cellular_t
  starlink :: starlink_t
  history :: "nat \<Rightarrow> probe_t"
  history_idx :: int
  risk_now :: double
  risk_ahead :: double
  confidence :: double

record status_t =
  mode :: op_mode_t
  state :: sys_state_t
  last_trigger :: trigger_t
  trigger_detail :: string
  active_uplink :: uplink_id_t
  force_locked :: bool
  active_controller :: int
  dup_enabled :: bool
  dup_enabled_at_us :: int
  dup_engaged_at_us :: int
  protect_start_us :: int
  switch_start_us :: int
  last_clean_us :: int
  switches_this_window :: int
  hold_remaining_sec :: int
  clean_remaining_sec :: int
  flap_suppressed :: bool
  global_risk :: double
  recommendation :: string

record config_t =
  rtt_step_ms :: int
  rtt_window_ms :: int
  probe_miss_count :: int
  probe_miss_window_ms :: int
  rsrp_drop_db :: double
  sinr_drop_db :: double
  preroll_ms :: int
  min_hold_sec :: int
  clean_exit_sec :: int
  gps_enabled :: bool
  pcap_enabled :: bool
  sample_rate_hz :: int

record world =
  g_uplinks :: "uplink_id_t \<Rightarrow> uplink_t"
  g_status :: status_t
  g_last_cmd_id :: string
  g_last_cmd_result :: string
  nft_dup :: "(string \<times> string \<times> string) option"
  g_log :: "string list"

subsection \<open>Tables indexed by uplink id\<close>

definition uplink_ids :: "uplink_id_t list" where
  "uplink_ids =
     [UPLINK_CELL_A, UPLINK_CELL_B, UPLINK_SL_A, UPLINK_SL_B, UPLINK_FIBER1, UPLINK_FIBER2]"

fun UPLINK_NAMES :: "uplink_id_t \<Rightarrow> string" where
  "UPLINK_NAMES UPLINK_CELL_A = ''cell_a''"
| "UPLINK_NAMES UPLINK_CELL_B = ''cell_b''"
| "UPLINK_NAMES UPLINK_SL_A = ''sl_a''"
| "UPLINK_NAMES UPLINK_SL_B = ''sl_b''"
| "UPLINK_NAMES UPLINK_FIBER1 = ''fa''"
| "UPLINK_NAMES UPLINK_FIBER2 = ''fb''"

fun VIP_DEVS :: "uplink_id_t \<Rightarrow> string" where
  "VIP_DEVS UPLINK_CELL_A = ''vip_cell_a''"
| "VIP_DEVS UPLINK_CELL_B = ''vip_cell_b''"
| "VIP_DEVS UPLINK_SL_A = ''vip_sl_a''"
| "VIP_DEVS UPLINK_SL_B = ''vip_sl_b''"
| "VIP_DEVS UPLINK_FIBER1 = ''vip_fa''"
| "VIP_DEVS UPLINK_FIBER2 = ''vip_fb''"

fun VIP_GWS :: "uplink_id_t \<Rightarrow> string" where
  "VIP_GWS UPLINK_CELL_A = ''10.201.10.18''"
| "VIP_GWS UPLINK_CELL_B = ''10.201.10.22''"
| "VIP_GWS UPLINK_SL_A = ''10.201.10.10''"
| "VIP_GWS UPLINK_SL_B = ''10.201.10.14''"
| "VIP_GWS UPLINK_FIBER1 = ''10.201.10.2''"
| "VIP_GWS UPLINK_FIBER2 = ''10.201.10.6''"

text \<open>\<^verbatim>\<open>(id + 1) % UPLINK_COUNT\<close>.\<close>

fun next_id :: "uplink_id_t \<Rightarrow> uplink_id_t" where
  "next_id UPLINK_CELL_A = UPLINK_CELL_B"
| "next_id UPLINK_CELL_B = UPLINK_SL_A"
| "next_id UPLINK_SL_A = UPLINK_SL_B"
| "next_id UPLINK_SL_B = UPLINK_FIBER1"
| "next_id UPLINK_FIBER1 = UPLINK_FIBER2"
| "next_id UPLINK_FIBER2 = UPLINK_CELL_A"

subsection \<open>Logging\<close>

definition log_event :: "string \<Rightarrow> world \<Rightarrow> world" where
  "log_event ev s = s\<lparr>g_log := g_log s @ [ev]\<rparr>"

subsection \<open>Duplication control\<close>

text \<open>
  The loop of \<^verbatim>\<open>dup_enable\<close> over \<^verbatim>\<open>VIP_DEVS\<close>: the gateway of the first entry equal to
  \<^verbatim>\<open>dst_veth\<close>, or \<^verbatim>\<open>NULL\<close>.
\<close>

definition find_backup_gw :: "string \<Rightarrow> string option" where
  "find_backup_gw dst_veth =
     map_option VIP_GWS (find (\<lambda>i. VIP_DEVS i = dst_veth) uplink_ids)"

text \<open>
  \<^verbatim>\<open>dup_enable\<close>; \<open>now\<close> is the reading of the clock stored in \<^verbatim>\<open>dup_enabled_at_us\<close>.
  The result pairs the C return value with the new world.
\<close>

definition dup_enable :: "string \<Rightarrow> string \<Rightarrow> int \<Rightarrow> world \<Rightarrow> int \<times> world" where
  "dup_enable src_veth dst_veth now s =
     (case find_backup_gw dst_veth of
        None \<Rightarrow> (- 1, log_event ''dup_enable_fail'' s)
      | Some backup_gw \<Rightarrow>
          (0, log_event ''dup_enable''
                (s\<lparr>nft_dup := Some (src_veth, backup_gw, dst_veth),
                   g_status := (g_status s)\<lparr>dup_enabled := True,
                                            dup_enabled_at_us := now,
                                            dup_engaged_at_us := 0\<rparr>\<rparr>)))"

definition dup_disable :: "world \<Rightarrow> int \<times> world" where
  "dup_disable s =
     (0, log_event ''dup_disable''
           (s\<lparr>nft_dup := None, g_status := (g_status s)\<lparr>dup_enabled := False\<rparr>\<rparr>))"

text \<open>\<^verbatim>\<open>dup_init\<close>: delete a stale table, log.\<close>

definition dup_init :: "world \<Rightarrow> int \<times> world" where
  "dup_init s = (0, log_event ''dup_init'' ((log_event ''info'' s)\<lparr>nft_dup := None\<rparr>))"

subsection \<open>Tripwire (fast path)\<close>

text \<open>
  The loop of \<^verbatim>\<open>tripwire_check\<close> over \<^verbatim>\<open>i = 0, 1, 2\<close>: the sum and the number of the
  successful ones among the three newest samples.
\<close>

definition recent_step :: "uplink_t \<Rightarrow> double \<times> int \<Rightarrow> int \<Rightarrow> double \<times> int" where
  "recent_step active acc i =
     (let idx = nat (c_mod (history_idx active - 1 - i) HISTORY_SIZE)
      in if pr_success (history active idx)
         then (fadd (fst acc) (pr_rtt_ms (history active idx)), snd acc + 1)
         else acc)"

definition recent_samples :: "uplink_t \<Rightarrow> double \<times> int" where
  "recent_samples active = foldl (recent_step active) (D_fin 0, 0) [0, 1, 2]"

text \<open>\<^verbatim>\<open>tripwire_check\<close>; a null pointer is \<open>None\<close>.\<close>

definition tripwire_check :: "config_t \<Rightarrow> uplink_t option \<Rightarrow> trigger_t" where
  "tripwire_check cfg active_ptr =
     (case active_ptr of
        None \<Rightarrow> TRIGGER_LINK_DOWN
      | Some active \<Rightarrow>
          if \<not> enabled active \<or> \<not> available active then TRIGGER_LINK_DOWN
          else if history_idx active \<ge> 5
                  \<and> snd (recent_samples active) > 0
                  \<and> fge (fsub (fdiv (fst (recent_samples active))
                                    (double_of_int (snd (recent_samples active))))
                              (rtt_baseline active))
                        (double_of_int (rtt_step_ms cfg))
          then TRIGGER_RTT_STEP
          else if consec_fail active \<ge> probe_miss_count cfg then TRIGGER_PROBE_MISS
          else if uplink_type active = UPLINK_TYPE_LTE \<and> flt (rsrp (cellular active)) (D_fin (- 120))
          then TRIGGER_RSRP_DROP
          else if uplink_type active = UPLINK_TYPE_STARLINK
          then (if obstructed (starlink active) then TRIGGER_STARLINK_OBSTR
                else if obstruction_eta (starlink active) > 0
                        \<and> obstruction_eta (starlink active) < 5
                then TRIGGER_STARLINK_OBSTR
                else TRIGGER_NONE)
          else TRIGGER_NONE)"

text \<open>The enumerator's value, and how many steps of \<open>next_id\<close> lead from one id to another.\<close>

fun id_index :: "uplink_id_t \<Rightarrow> nat" where
  "id_index UPLINK_CELL_A = 0"
| "id_index UPLINK_CELL_B = 1"
| "id_index UPLINK_SL_A = 2"
| "id_index UPLINK_SL_B = 3"
| "id_index UPLINK_FIBER1 = 4"
| "id_index UPLINK_FIBER2 = 5"

definition steps_to :: "uplink_id_t \<Rightarrow> uplink_id_t \<Rightarrow> nat" where
  "steps_to a b = (id_index b + 6 - id_index a) mod 6"

text \<open>
  The wrapping scan of \<^verbatim>\<open>tripwire_fire\<close>:
  \<^verbatim>\<open>while (secondary != active) { if (enabled && available) break; secondary = (secondary + 1) % UPLINK_COUNT; }\<close>
\<close>

function find_secondary :: "(uplink_id_t \<Rightarrow> uplink_t) \<Rightarrow> uplink_id_t \<Rightarrow> uplink_id_t \<Rightarrow> uplink_id_t" where
  "find_secondary ups act secondary =
     (if secondary \<noteq> act
      then (if enabled (ups secondary) \<and> available (ups secondary) then secondary
            else find_secondary ups act (next_id secondary))
      else secondary)"
  by pat_completeness auto
termination
proof (relation "measure (\<lambda>(ups, act, secondary). steps_to secondary act)")
  show "wf (measure (\<lambda>(ups, act, secondary). steps_to secondary act))"
    by simp
next
  fix ups :: "uplink_id_t \<Rightarrow> uplink_t" and act secondary :: uplink_id_t
  assume "secondary \<noteq> act"
  then have "steps_to (next_id secondary) act < steps_to secondary act"
    by (cases secondary; cases act; simp add: steps_to_def)
  then show "((ups, act, next_id secondary), (ups, act, secondary))
               \<in> measure (\<lambda>(ups, act, secondary). steps_to secondary act)"
    by simp
qed

text \<open>
  \<^verbatim>\<open>tripwire_fire\<close>; \<open>now_dup\<close> is the clock reading inside \<^verbatim>\<open>dup_enable\<close>, \<open>now\<close> the
  one stored in \<^verbatim>\<open>protect_start_us\<close>. A null \<^verbatim>\<open>detail\<close> is \<open>None\<close>.
\<close>

definition tripwire_fire :: "trigger_t \<Rightarrow> string option \<Rightarrow> int \<Rightarrow> int \<Rightarrow> world \<Rightarrow> world" where
  "tripwire_fire reason detail now_dup now s =
     (let act = active_uplink (g_status s);
          secondary = find_secondary (g_uplinks s) act (next_id act);
          s1 = (if secondary \<noteq> act
                then snd (dup_enable (VIP_DEVS act) (VIP_DEVS secondary) now_dup s)
                else s)
      in log_event ''tripwire_fire''
           (s1\<lparr>g_status := (g_status s1)
                  \<lparr>state := STATE_PROTECT,
                   last_trigger := reason,
                   trigger_detail := (case detail of None \<Rightarrow> [] | Some d \<Rightarrow> d),
                   protect_start_us := now,
                   switches_this_window := 0,
                   last_clean_us := 0,
                   flap_suppressed := False\<rparr>\<rparr>))"

subsection \<open>Switching (slow path)\<close>

text \<open>
  The score of one uplink, as the loop body of \<^verbatim>\<open>select_best_uplink\<close> builds it up in
  the variable \<^verbatim>\<open>score\<close>.
\<close>

definition uplink_score :: "uplink_t \<Rightarrow> double" where
  "uplink_score u =
     (let score0 = fsub (D_fin 100) (rtt_ms u);
          score1 = fsub score0 (fmul (risk_now u) (D_fin 50));
          score2 = fsub score1 (fmul (loss_pct u) (D_fin 10));
          score3 = (if uplink_type u = UPLINK_TYPE_STARLINK \<and> online (starlink u)
                       \<and> \<not> obstructed (starlink u)
                    then fadd score2 (D_fin 20) else score2)
      in if uplink_type u = UPLINK_TYPE_LTE \<and> fgt (rsrp (cellular u)) (D_fin (- 90))
         then fadd score3 (D_fin 15) else score3)"

text \<open>One iteration of the scoring loop; the accumulator is \<^verbatim>\<open>(best, best_score)\<close>.\<close>

definition select_step ::
  "(uplink_id_t \<Rightarrow> uplink_t) \<Rightarrow> uplink_id_t \<times> double \<Rightarrow> uplink_id_t \<Rightarrow> uplink_id_t \<times> double" where
  "select_step ups acc i =
     (if \<not> enabled (ups i) \<or> \<not> available (ups i) then acc
      else if fgt (uplink_score (ups i)) (snd acc) then (i, uplink_score (ups i))
      else acc)"

definition select_best_uplink :: "world \<Rightarrow> uplink_id_t" where
  "select_best_uplink s =
     (if force_locked (g_status s) then active_uplink (g_status s)
      else fst (foldl (select_step (g_uplinks s))
                  (active_uplink (g_status s), D_fin (- 9999)) uplink_ids))"

text \<open>
  \<^verbatim>\<open>execute_switch\<close>; \<open>verify\<close> is the exit status of the route check, \<open>now\<close> the clock
  reading stored in \<^verbatim>\<open>switch_start_us\<close>. The status of the route replacement itself only
  goes into a log payload.
\<close>

definition execute_switch :: "uplink_id_t \<Rightarrow> int \<Rightarrow> int \<Rightarrow> world \<Rightarrow> world" where
  "execute_switch target verify now s =
     (let old = active_uplink (g_status s);
          s1 = log_event ''switch'' s
      in if verify \<noteq> 0 then log_event ''switch_fail'' s1
         else
           (let ups1 = (g_uplinks s1)(old := (g_uplinks s1 old)\<lparr>is_active := False\<rparr>);
                ups2 = ups1(target := (ups1 target)\<lparr>is_active := True\<rparr>)
            in log_event ''switch_ok''
                 (s1\<lparr>g_uplinks := ups2,
                     g_status := (g_status s1)
                       \<lparr>active_uplink := target,
                        switches_this_window := switches_this_window (g_status s1) + 1,
                        switch_start_us := now\<rparr>\<rparr>)))"

text \<open>
  \<^verbatim>\<open>slowpath_arbitrate\<close>; \<open>now\<close> is its own clock reading, \<open>verify\<close> and \<open>now_sw\<close> are
  handed to \<open>execute_switch\<close>.
\<close>

definition slowpath_arbitrate :: "config_t \<Rightarrow> int \<Rightarrow> int \<Rightarrow> int \<Rightarrow> world \<Rightarrow> world" where
  "slowpath_arbitrate cfg now verify now_sw s =
     (let elapsed_ms = c_div (now - protect_start_us (g_status s)) 1000;
          settling = (dup_enabled (g_status s) \<and> dup_engaged_at_us (g_status s) = 0);
          dup_age_ms = c_div (now - dup_enabled_at_us (g_status s)) 1000
      in if settling \<and> \<not> dup_age_ms \<ge> DUP_SETTLE_MS
         then s\<lparr>g_status := (g_status s)\<lparr>state := STATE_SWITCHING\<rparr>\<rparr>
         else
           (let s1 = (if settling
                      then log_event ''dup_engaged''
                             (s\<lparr>g_status := (g_status s)\<lparr>dup_engaged_at_us := now\<rparr>\<rparr>)
                      else s)
            in if elapsed_ms < preroll_ms cfg
               then s1\<lparr>g_status := (g_status s1)\<lparr>state := STATE_SWITCHING\<rparr>\<rparr>
               else if switches_this_window (g_status s1) \<ge> 3
               then s1\<lparr>g_status := (g_status s1)\<lparr>flap_suppressed := True\<rparr>\<rparr>
               else
                 (let best = select_best_uplink s1;
                      s2 = (if best \<noteq> active_uplink (g_status s1)
                            then execute_switch best verify now_sw s1
                            else s1)
                  in s2\<lparr>g_status := (g_status s2)\<lparr>state := STATE_HOLDING\<rparr>\<rparr>)))"

subsection \<open>Protection mode tick\<close>

definition protection_tick :: "config_t \<Rightarrow> int \<Rightarrow> world \<Rightarrow> world" where
  "protection_tick cfg now s =
     (let protect_elapsed_sec = c_div (now - protect_start_us (g_status s)) 1000000;
          hold = min_hold_sec cfg - protect_elapsed_sec;
          s1 = s\<lparr>g_status := (g_status s)
                 \<lparr>hold_remaining_sec := (if hold < 0 then 0 else hold)\<rparr>\<rparr>;
          active = g_uplinks s1 (active_uplink (g_status s1));
          is_clean = (consec_fail active = 0
                      \<and> flt (rtt_ms active) (fadd (rtt_baseline active) (D_fin 30))
                      \<and> flt (loss_pct active) (D_fin 2))
      in if is_clean
         then
           (let s2 = (if last_clean_us (g_status s1) = 0
                      then s1\<lparr>g_status := (g_status s1)\<lparr>last_clean_us := now\<rparr>\<rparr>
                      else s1);
                clean_sec = c_div (now - last_clean_us (g_status s2)) 1000000;
                clean = clean_exit_sec cfg - clean_sec;
                s3 = s2\<lparr>g_status := (g_status s2)
                        \<lparr>clean_remaining_sec := (if clean < 0 then 0 else clean)\<rparr>\<rparr>
            in if protect_elapsed_sec \<ge> min_hold_sec cfg \<and> clean_sec \<ge> clean_exit_sec cfg
               then
                 (let s4 = (if mode (g_status s3) \<noteq> MODE_MIRROR
                            then snd (dup_disable s3) else s3)
                  in log_event ''protection_exit''
                       (s4\<lparr>g_status := (g_status s4)
                              \<lparr>state := STATE_NORMAL, last_trigger := TRIGGER_NONE\<rparr>\<rparr>))
               else s3)
         else s1\<lparr>g_status := (g_status s1)
                  \<lparr>last_clean_us := 0, clean_remaining_sec := clean_exit_sec cfg\<rparr>\<rparr>)"

subsection \<open>Uplink polling\<close>

text \<open>
  What one call of \<^verbatim>\<open>uplink_poll\<close> reads from outside: the clock at entry, the result
  of the probe (\<^verbatim>\<open>-1.0\<close> when it got no reply), the two values of
  \<^verbatim>\<open>(double)rand()/RAND_MAX\<close>, and what the kind-specific helper delivered.
  For the cellular helper: skipped (rate limit, or \<^verbatim>\<open>popen\<close> failed), or the last SINR and
  RSRP values parsed from its output (if any) and the clock after it.
  For the satellite helper: \<^verbatim>\<open>popen\<close> failed or the output was empty or held
  \<^verbatim>\<open>error\<close>, or the values of the keys that were present and the clock after it.
\<close>

datatype cell_result =
  Cell_skipped
| Cell_read (cr_sinr: "double option") (cr_rsrp: "double option") (cr_now: int)

datatype sl_result =
  Sl_failed
| Sl_read (sr_latency_ms: "double option") (sr_obstruction: "double option")
    (sr_snr_ok: "bool option") (sr_downlink_bps: "double option")
    (sr_uplink_bps: "double option") (sr_now: int)

datatype poll_env =
  Poll_env (pe_start: int) (pe_rtt: double) (pe_rand1: double) (pe_rand2: double)
    (pe_cell: cell_result) (pe_sl: sl_result)

definition cellular_poll :: "cell_result \<Rightarrow> uplink_t \<Rightarrow> uplink_t" where
  "cellular_poll r u =
     (case r of
        Cell_skipped \<Rightarrow> u
      | Cell_read new_sinr new_rsrp now \<Rightarrow>
          u\<lparr>cellular := (cellular u)
               \<lparr>sinr := (case new_sinr of None \<Rightarrow> sinr (cellular u) | Some v \<Rightarrow> v),
                rsrp := (case new_rsrp of None \<Rightarrow> rsrp (cellular u) | Some v \<Rightarrow> v),
                cell_timestamp_us := now\<rparr>\<rparr>)"

definition starlink_poll :: "sl_result \<Rightarrow> uplink_t \<Rightarrow> uplink_t" where
  "starlink_poll r u =
     (case r of
        Sl_failed \<Rightarrow> u\<lparr>starlink := (starlink u)\<lparr>sl_connected := False\<rparr>\<rparr>
      | Sl_read lat obstr snr down up now \<Rightarrow>
          (let st = starlink u;
               st1 = st\<lparr>sl_connected := True\<rparr>;
               st2 = (case lat of None \<Rightarrow> st1 | Some v \<Rightarrow> st1\<lparr>latency_ms := v\<rparr>);
               st3 = (case obstr of None \<Rightarrow> st2
                      | Some fr \<Rightarrow> st2\<lparr>obstructed := fgt fr (double_lit 0.10),
                                        obstruction_pct := fmul fr (D_fin 100)\<rparr>);
               st4 = (case snr of None \<Rightarrow> st3 | Some b \<Rightarrow> st3\<lparr>online := b\<rparr>);
               st5 = (case down of None \<Rightarrow> st4
                      | Some v \<Rightarrow> st4\<lparr>downlink_mbps := fdiv v (D_fin 1000000)\<rparr>);
               st6 = (case up of None \<Rightarrow> st5
                      | Some v \<Rightarrow> st5\<lparr>uplink_mbps := fdiv v (D_fin 1000000)\<rparr>)
           in u\<lparr>starlink := st6\<lparr>sl_state := (if online st6 then ''CONNECTED''
                                                  else ''SEARCHING''),
                                   sl_timestamp_us := now\<rparr>\<rparr>))"

text \<open>
  The loss loop \<^verbatim>\<open>for (i = 0; i < 20 && i < u->history_idx; i++)\<close>: the first argument
  counts the iterations left before \<^verbatim>\<open>i\<close> reaches 20, the accumulator is
  \<^verbatim>\<open>(success, total)\<close>.
\<close>

fun loss_loop :: "nat \<Rightarrow> uplink_t \<Rightarrow> int \<Rightarrow> int \<times> int \<Rightarrow> int \<times> int" where
  "loss_loop 0 u i acc = acc"
| "loss_loop (Suc n) u i acc =
     (if i < history_idx u
      then loss_loop n u (i + 1)
             (if pr_success (history u (nat (c_mod (history_idx u - 1 - i) HISTORY_SIZE)))
              then fst acc + 1 else fst acc,
              snd acc + 1)
      else acc)"

text \<open>
  The jitter term \<^verbatim>\<open>(u->chaos_jitter * ((double)rand()/RAND_MAX - 0.5) * 2)\<close>; \<open>r\<close> is the
  quotient \<^verbatim>\<open>(double)rand()/RAND_MAX\<close>.
\<close>

definition chaos_jitter_term :: "uplink_t \<Rightarrow> double \<Rightarrow> double" where
  "chaos_jitter_term u r = fmul (fmul (chaos_jitter u) (fsub r (D_fin (1 / 2)))) (D_fin 2)"

text \<open>
  \<^verbatim>\<open>uplink_poll\<close>, in the four stages its comments name: record the probe in the
  history, update the metrics, compute the loss from the history, poll the kind-specific
  data. The history gets \<^verbatim>\<open>rtt + u->chaos_rtt + (jitter term)\<close>, summed from the left;
  \<^verbatim>\<open>rtt_ms\<close> gets \<^verbatim>\<open>rtt\<close> and then \<^verbatim>\<open>+= u->chaos_rtt + (jitter term)\<close>.
\<close>

definition poll_record :: "poll_env \<Rightarrow> uplink_t \<Rightarrow> uplink_t" where
  "poll_record env u =
     (let rtt = pe_rtt env;
          idx = nat (c_mod (history_idx u) HISTORY_SIZE)
      in u\<lparr>history := (history u)
               (idx := \<lparr>pr_rtt_ms = fadd (fadd rtt (chaos_rtt u))
                                     (chaos_jitter_term u (pe_rand1 env)),
                        pr_success = fgt rtt (D_fin 0),
                        pr_timestamp_us = pe_start env\<rparr>),
            history_idx := history_idx u + 1\<rparr>)"

definition poll_metrics :: "poll_env \<Rightarrow> uplink_t \<Rightarrow> uplink_t" where
  "poll_metrics env u =
     (let rtt = pe_rtt env
      in if fgt rtt (D_fin 0)
         then u\<lparr>rtt_ms := fadd rtt (fadd (chaos_rtt u) (chaos_jitter_term u (pe_rand2 env))),
                available := (if \<not> force_failed u then True else available u),
                consec_fail := 0,
                rtt_baseline := (if feq (rtt_baseline u) (D_fin 0) then rtt
                                 else fadd (fmul (rtt_baseline u) (double_lit 0.95))
                                        (fmul rtt (double_lit 0.05)))\<rparr>
         else u\<lparr>consec_fail := consec_fail u + 1,
                available := (if consec_fail u + 1 > 5 then False else available u)\<rparr>)"

definition poll_loss :: "uplink_t \<Rightarrow> uplink_t" where
  "poll_loss u =
     (let counts = loss_loop 20 u 0 (0, 0);
          success = fst counts;
          total = snd counts
      in if total > 0
         then (let l = fadd (fdiv (fmul (D_fin 100) (double_of_int (total - success)))
                                (double_of_int total))
                          (chaos_loss u)
               in u\<lparr>loss_pct := (if fgt l (D_fin 100) then D_fin 100 else l)\<rparr>)
         else u)"

definition poll_kind :: "poll_env \<Rightarrow> uplink_t \<Rightarrow> uplink_t" where
  "poll_kind env u =
     (if uplink_type u = UPLINK_TYPE_LTE then cellular_poll (pe_cell env) u
      else if uplink_type u = UPLINK_TYPE_STARLINK then starlink_poll (pe_sl env) u
      else u)"

definition uplink_poll :: "poll_env \<Rightarrow> uplink_t \<Rightarrow> uplink_t" where
  "uplink_poll env u =
     (if \<not> enabled u then u
      else poll_kind env (poll_loss (poll_metrics env (poll_record env u))))"

text \<open>
  \<^verbatim>\<open>chaos_read\<close>. The file is \<open>None\<close> when it cannot be opened; otherwise it gives, for
  each uplink whose quoted name occurs in the buffer, the values \<^verbatim>\<open>atof\<close> returned after
  the keys \<^verbatim>\<open>"rtt":\<close>, \<^verbatim>\<open>"jitter":\<close> and \<^verbatim>\<open>"loss":\<close> that were found.
\<close>

type_synonym chaos_file =
  "uplink_id_t \<Rightarrow> (double option \<times> double option \<times> double option) option"

definition chaos_apply :: "chaos_file \<Rightarrow> uplink_id_t \<Rightarrow> uplink_t \<Rightarrow> uplink_t" where
  "chaos_apply f i u =
     (let u0 = u\<lparr>chaos_rtt := D_fin 0, chaos_jitter := D_fin 0, chaos_loss := D_fin 0\<rparr>
      in case f i of
           None \<Rightarrow> u0
         | Some (r, j, l) \<Rightarrow>
             u0\<lparr>chaos_rtt := (case r of None \<Rightarrow> D_fin 0 | Some v \<Rightarrow> v),
                chaos_jitter := (case j of None \<Rightarrow> D_fin 0 | Some v \<Rightarrow> v),
                chaos_loss := (case l of None \<Rightarrow> D_fin 0 | Some v \<Rightarrow> v)\<rparr>)"

definition chaos_read :: "chaos_file option \<Rightarrow> world \<Rightarrow> world" where
  "chaos_read file s =
     (case file of
        None \<Rightarrow> s
      | Some f \<Rightarrow> s\<lparr>g_uplinks := (\<lambda>i. chaos_apply f i (g_uplinks s i))\<rparr>)"

subsection \<open>Prediction engine\<close>

text \<open>The value \<^verbatim>\<open>prediction_tick\<close> computes into \<^verbatim>\<open>u->risk_now\<close>, starting from 0.\<close>

definition uplink_risk :: "uplink_t \<Rightarrow> double" where
  "uplink_risk u =
     (let r0 = D_fin 0;
          r1 = (if fgt (rtt_ms u) (fmul (rtt_baseline u) (D_fin (3 / 2)))
                then fadd r0 (double_lit 0.3) else r0);
          r2 = (if fgt (loss_pct u) (D_fin 50) then fadd r1 (D_fin (1 / 2))
                else if fgt (loss_pct u) (D_fin 20) then fadd r1 (double_lit 0.4)
                else if fgt (loss_pct u) (D_fin 5) then fadd r1 (double_lit 0.3)
                else r1);
          r3 = (if consec_fail u > 0
                then fadd r2 (fmul (double_lit 0.2)
                                (double_of_int (if consec_fail u > 5 then 5 else consec_fail u)))
                else r2);
          r4 = (if uplink_type u = UPLINK_TYPE_STARLINK
                then fadd r3 (fmul (obstruction_pct (starlink u)) (double_lit 0.01)) else r3);
          r5 = (if uplink_type u = UPLINK_TYPE_LTE \<and> flt (rsrp (cellular u)) (D_fin (- 110))
                then fadd r4 (double_lit 0.4) else r4)
      in if fgt r5 (D_fin 1) then D_fin 1 else r5)"

definition predict_step :: "world \<times> double \<Rightarrow> uplink_id_t \<Rightarrow> world \<times> double" where
  "predict_step acc i =
     (let s = fst acc; max_risk = snd acc; u = g_uplinks s i
      in if \<not> enabled u then acc
         else
           (let u' = u\<lparr>risk_now := uplink_risk u\<rparr>
            in (s\<lparr>g_uplinks := (g_uplinks s)(i := u')\<rparr>,
                if is_active u' \<and> fgt (risk_now u') max_risk then risk_now u' else max_risk)))"

definition prediction_tick :: "world \<Rightarrow> world" where
  "prediction_tick s =
     (let r = foldl predict_step (s, D_fin 0) uplink_ids;
          s1 = fst r;
          max_risk = snd r
      in s1\<lparr>g_status := (g_status s1)
               \<lparr>global_risk := max_risk,
                recommendation := (if fge max_risk (double_lit 0.7) then ''PROTECT''
                                   else if fge max_risk (double_lit 0.4) then ''PREPARE''
                                   else ''NORMAL'')\<rparr>\<rparr>)"

subsection \<open>Command processing\<close>

text \<open>
  \<^verbatim>\<open>atoi\<close> as the C library of the target computes it,
  \<^verbatim>\<open>(int) strtol(str, NULL, 10)\<close>: white space, an optional sign, the digits; a value
  outside \<^verbatim>\<open>long\<close> is replaced by the nearest bound, and the conversion to \<^verbatim>\<open>int\<close> keeps
  the low 32 bits.
\<close>

definition is_space :: "char \<Rightarrow> bool" where
  "is_space c = (c \<in> set [CHR '' '', CHR 0x09, CHR 0x0A, CHR 0x0B, CHR 0x0C, CHR 0x0D])"

definition is_digit :: "char \<Rightarrow> bool" where
  "is_digit c = (48 \<le> (of_char c :: nat) \<and> (of_char c :: nat) \<le> 57)"

fun atoi_digits :: "string \<Rightarrow> int \<Rightarrow> int" where
  "atoi_digits [] acc = acc"
| "atoi_digits (c # cs) acc =
     (if is_digit c then atoi_digits cs (acc * 10 + (of_char c - 48)) else acc)"

definition strtol :: "string \<Rightarrow> int" where
  "strtol str =
     (let v = (case dropWhile is_space str of
                 [] \<Rightarrow> 0
               | c # cs \<Rightarrow> if c = CHR ''-'' then - atoi_digits cs 0
                           else if c = CHR ''+'' then atoi_digits cs 0
                           else atoi_digits (c # cs) 0)
      in if v > 2 ^ 63 - 1 then 2 ^ 63 - 1 else if v < - (2 ^ 63) then - (2 ^ 63) else v)"

definition atoi :: "string \<Rightarrow> int" where
  "atoi str = (strtol str + 2 ^ 31) mod 2 ^ 32 - 2 ^ 31"

text \<open>
  What one command reads from outside: the clock readings of \<^verbatim>\<open>dup_enable\<close>,
  \<^verbatim>\<open>tripwire_fire\<close> and \<^verbatim>\<open>execute_switch\<close>, the exit status of the route check and
  that of the controller-switch helper.
\<close>

datatype cmd_env =
  Cmd_env (ce_now_dup: int) (ce_now: int) (ce_verify: int) (ce_now_sw: int) (ce_c8000_ret: int)

definition c8000_switch :: "int \<Rightarrow> int \<Rightarrow> world \<Rightarrow> int \<times> world" where
  "c8000_switch controller ret s =
     (let s1 = log_event ''c8000_switch'' s
      in (ret, if ret = 0
               then s1\<lparr>g_status := (g_status s1)\<lparr>active_controller := controller\<rparr>\<rparr>
               else s1))"

text \<open>The loop \<^verbatim>\<open>for (i ...) if (strcmp(UPLINK_NAMES[i], uplink) == 0) { ...; break; }\<close>.\<close>

definition uplink_by_name :: "string \<Rightarrow> uplink_id_t option" where
  "uplink_by_name uplink = find (\<lambda>i. UPLINK_NAMES i = uplink) uplink_ids"

definition set_result :: "string \<Rightarrow> world \<Rightarrow> world" where
  "set_result r s = s\<lparr>g_last_cmd_result := r\<rparr>"

definition update_uplink :: "uplink_id_t \<Rightarrow> (uplink_t \<Rightarrow> uplink_t) \<Rightarrow> world \<Rightarrow> world" where
  "update_uplink i f s = s\<lparr>g_uplinks := (g_uplinks s)(i := f (g_uplinks s i))\<rparr>"

definition cmd_mode :: "string \<Rightarrow> cmd_env \<Rightarrow> world \<Rightarrow> world" where
  "cmd_mode m env s =
     (let s1 = (if m = ''training''
                then snd (dup_disable (s\<lparr>g_status := (g_status s)\<lparr>mode := MODE_TRAINING\<rparr>\<rparr>))
                else if m = ''tripwire''
                then s\<lparr>g_status := (g_status s)\<lparr>mode := MODE_TRIPWIRE\<rparr>\<rparr>
                else if m = ''mirror''
                then snd (dup_enable ''br-lan'' (veth (g_uplinks s UPLINK_CELL_B))
                            (ce_now_dup env)
                            (s\<lparr>g_status := (g_status s)\<lparr>mode := MODE_MIRROR\<rparr>\<rparr>))
                else s)
      in set_result ''exec'' (log_event ''mode_change'' s1))"

definition cmd_force :: "string \<Rightarrow> cmd_env \<Rightarrow> world \<Rightarrow> world" where
  "cmd_force uplink env s =
     (if uplink = ''auto''
      then
        (let s1 = s\<lparr>g_status := (g_status s)
                      \<lparr>force_locked := False,
                       switches_this_window := 0,
                       state := STATE_NORMAL\<rparr>\<rparr>;
             best = select_best_uplink s1;
             s2 = (if best \<noteq> active_uplink (g_status s1)
                   then execute_switch best (ce_verify env) (ce_now_sw env) s1
                   else s1)
         in set_result ''exec'' s2)
      else
        (case uplink_by_name uplink of
           None \<Rightarrow> set_result ''fail'' s
         | Some i \<Rightarrow>
             (let s1 = update_uplink i (\<lambda>u. u\<lparr>force_failed := False, available := True\<rparr>) s;
                  s2 = execute_switch i (ce_verify env) (ce_now_sw env) s1
              in set_result ''exec''
                   (s2\<lparr>g_status := (g_status s2)\<lparr>force_locked := True\<rparr>\<rparr>))))"

text \<open>
  The commands \<^verbatim>\<open>enable:\<close>, \<^verbatim>\<open>disable:\<close>, \<^verbatim>\<open>fail:\<close> and \<^verbatim>\<open>unfail:\<close> share one shape:
  find the uplink by name, change it, log.
\<close>

definition cmd_uplink :: "string \<Rightarrow> string \<Rightarrow> (uplink_t \<Rightarrow> uplink_t) \<Rightarrow> world \<Rightarrow> world" where
  "cmd_uplink uplink ev f s =
     (case uplink_by_name uplink of
        None \<Rightarrow> set_result ''fail'' s
      | Some i \<Rightarrow> set_result ''exec'' (log_event ev (update_uplink i f s)))"

definition process_one_command :: "string \<Rightarrow> string \<Rightarrow> cmd_env \<Rightarrow> world \<Rightarrow> world" where
  "process_one_command cmd cmd_id env s =
     (let s0 = s\<lparr>g_last_cmd_id := take 63 cmd_id\<rparr>;
          s1 =
            (if take 5 cmd = ''mode:'' then cmd_mode (drop 5 cmd) env s0
             else if take 6 cmd = ''force:'' then cmd_force (drop 6 cmd) env s0
             else if cmd = ''trigger''
             then set_result ''exec''
                    (tripwire_fire TRIGGER_MANUAL (Some ''operator'')
                       (ce_now_dup env) (ce_now env) s0)
             else if take 6 cmd = ''c8000:''
             then set_result ''exec''
                    (snd (c8000_switch (atoi (drop 6 cmd)) (ce_c8000_ret env) s0))
             else if take 7 cmd = ''enable:''
             then cmd_uplink (drop 7 cmd) ''uplink_enabled'' (\<lambda>u. u\<lparr>enabled := True\<rparr>) s0
             else if take 8 cmd = ''disable:''
             then cmd_uplink (drop 8 cmd) ''uplink_disabled'' (\<lambda>u. u\<lparr>enabled := False\<rparr>) s0
             else if take 5 cmd = ''fail:''
             then cmd_uplink (drop 5 cmd) ''uplink_force_fail''
                    (\<lambda>u. u\<lparr>available := False, force_failed := True, consec_fail := 10\<rparr>) s0
             else if take 7 cmd = ''unfail:''
             then cmd_uplink (drop 7 cmd) ''uplink_unfail''
                    (\<lambda>u. u\<lparr>force_failed := False, available := True, consec_fail := 0\<rparr>) s0
             else set_result ''fail'' s0)
      in log_event ''cmd_result'' s1)"

subsection \<open>Initialisation and the main function\<close>

definition probe0 :: probe_t where
  "probe0 = \<lparr>pr_rtt_ms = D_fin 0, pr_success = False, pr_timestamp_us = 0\<rparr>"

text \<open>An uplink after \<^verbatim>\<open>memset(g_uplinks, 0, sizeof(g_uplinks))\<close>.\<close>

definition uplink0 :: uplink_t where
  "uplink0 =
     \<lparr>name = [], interface = [], netns = [], veth = [],
      uplink_id = UPLINK_CELL_A, uplink_type = UPLINK_TYPE_LTE,
      enabled = False, available = False, force_failed = False,
      chaos_rtt = D_fin 0, chaos_jitter = D_fin 0, chaos_loss = D_fin 0, is_active = False,
      rtt_ms = D_fin 0, rtt_baseline = D_fin 0, loss_pct = D_fin 0, jitter_ms = D_fin 0,
      consec_fail = 0,
      cellular = \<lparr>rsrp = D_fin 0, sinr = D_fin 0, carrier = [], cell_timestamp_us = 0\<rparr>,
      starlink = \<lparr>sl_connected = False, online = False, sl_state = [],
                  latency_ms = D_fin 0, downlink_mbps = D_fin 0, uplink_mbps = D_fin 0,
                  obstructed = False, obstruction_pct = D_fin 0, obstruction_eta = 0,
                  sl_timestamp_us = 0\<rparr>,
      history = (\<lambda>_. probe0), history_idx = 0,
      risk_now = D_fin 0, risk_ahead = D_fin 0, confidence = D_fin 0\<rparr>"

fun uplinks_table :: "uplink_id_t \<Rightarrow> uplink_t" where
  "uplinks_table UPLINK_CELL_A =
     uplink0\<lparr>uplink_id := UPLINK_CELL_A, uplink_type := UPLINK_TYPE_LTE,
             name := ''cell_a'', interface := ''wwan0'', netns := ''ns_cell_a'',
             veth := ''veth_cell_a'',
             cellular := (cellular uplink0)\<lparr>carrier := ''T-Mobile''\<rparr>,
             enabled := True, is_active := True\<rparr>"
| "uplinks_table UPLINK_CELL_B =
     uplink0\<lparr>uplink_id := UPLINK_CELL_B, uplink_type := UPLINK_TYPE_LTE,
             name := ''cell_b'', interface := ''wwan1'', netns := ''ns_cell_b'',
             veth := ''veth_cell_b'',
             cellular := (cellular uplink0)\<lparr>carrier := ''AT&T''\<rparr>,
             enabled := True\<rparr>"
| "uplinks_table UPLINK_SL_A =
     uplink0\<lparr>uplink_id := UPLINK_SL_A, uplink_type := UPLINK_TYPE_STARLINK,
             name := ''sl_a'', interface := ''enp3s0'', netns := ''ns_sl_a'',
             veth := ''veth_sl_a'', enabled := True\<rparr>"
| "uplinks_table UPLINK_SL_B =
     uplink0\<lparr>uplink_id := UPLINK_SL_B, uplink_type := UPLINK_TYPE_STARLINK,
             name := ''sl_b'', interface := ''enp4s0'', netns := ''ns_sl_b'',
             veth := ''veth_sl_b'', enabled := True\<rparr>"
| "uplinks_table UPLINK_FIBER1 =
     uplink0\<lparr>uplink_id := UPLINK_FIBER1, uplink_type := UPLINK_TYPE_FIBER,
             name := ''fa'', interface := ''enp1s0'', netns := ''ns_fa'',
             veth := ''veth_fa'', enabled := True\<rparr>"
| "uplinks_table UPLINK_FIBER2 =
     uplink0\<lparr>uplink_id := UPLINK_FIBER2, uplink_type := UPLINK_TYPE_FIBER,
             name := ''fb'', interface := ''enp2s0'', netns := ''ns_fb'',
             veth := ''veth_fb'', enabled := True\<rparr>"

definition uplinks_init :: "world \<Rightarrow> world" where
  "uplinks_init s =
     s\<lparr>g_uplinks := uplinks_table,
       g_status := (g_status s)\<lparr>active_uplink := UPLINK_CELL_A\<rparr>\<rparr>"

text \<open>The globals at process start: static storage is zero.\<close>

definition status0 :: status_t where
  "status0 =
     \<lparr>mode = MODE_TRAINING, state = STATE_NORMAL, last_trigger = TRIGGER_NONE,
      trigger_detail = [], active_uplink = UPLINK_CELL_A, force_locked = False,
      active_controller = 0, dup_enabled = False, dup_enabled_at_us = 0,
      dup_engaged_at_us = 0, protect_start_us = 0, switch_start_us = 0,
      last_clean_us = 0, switches_this_window = 0, hold_remaining_sec = 0,
      clean_remaining_sec = 0, flap_suppressed = False, global_risk = D_fin 0,
      recommendation = []\<rparr>"

definition world0 :: world where
  "world0 =
     \<lparr>g_uplinks = (\<lambda>_. uplink0), g_status = status0, g_last_cmd_id = [],
      g_last_cmd_result = [], nft_dup = None, g_log = []\<rparr>"

definition config0 :: config_t where
  "config0 =
     \<lparr>rtt_step_ms = 0, rtt_window_ms = 0, probe_miss_count = 0, probe_miss_window_ms = 0,
      rsrp_drop_db = D_fin 0, sinr_drop_db = D_fin 0, preroll_ms = 0, min_hold_sec = 0,
      clean_exit_sec = 0, gps_enabled = False, pcap_enabled = False, sample_rate_hz = 0\<rparr>"

text \<open>
  The configuration file as \<^verbatim>\<open>main\<close> sees it: \<open>None\<close> when \<^verbatim>\<open>fopen\<close> fails, otherwise the
  values the \<^verbatim>\<open>json_get_*\<close> readers return (a missing key gives its default) and the
  uplinks whose entry says \<^verbatim>\<open>"enabled": false\<close>.
\<close>

type_synonym config_file = "(config_t \<times> (uplink_id_t \<Rightarrow> bool)) option"

definition config_load :: "config_file \<Rightarrow> config_t \<Rightarrow> int \<times> config_t" where
  "config_load file g =
     (case file of
        None \<Rightarrow> (- 1, g)
      | Some (parsed, disabled) \<Rightarrow> (0, parsed))"

text \<open>
  The start of \<^verbatim>\<open>main\<close> up to the main loop. The value \<^verbatim>\<open>config_load\<close> returns is not
  looked at.
\<close>

definition main_config :: "config_file \<Rightarrow> config_t" where
  "main_config file = snd (config_load file config0)"

definition main_startup :: "config_file \<Rightarrow> world" where
  "main_startup file =
     (let s1 = uplinks_init world0;
          s2 = (case file of
                  None \<Rightarrow> s1
                | Some (parsed, disabled) \<Rightarrow>
                    s1\<lparr>g_uplinks := (\<lambda>i. if disabled i
                                          then (g_uplinks s1 i)\<lparr>enabled := False\<rparr>
                                          else g_uplinks s1 i)\<rparr>);
          s3 = snd (dup_init s2);
          s4 = s3\<lparr>g_status := (g_status s3)
                   \<lparr>mode := MODE_TRIPWIRE, state := STATE_NORMAL,
                    recommendation := ''NORMAL''\<rparr>\<rparr>
      in log_event ''startup'' (log_event ''init_route'' s4))"

text \<open>
  How \<^verbatim>\<open>main\<close> ends. After the start it computes \<^verbatim>\<open>1000000 / g_config.sample_rate_hz\<close>,
  an integer division that is undefined for a zero rate; then it loops until a signal
  clears \<^verbatim>\<open>g_running\<close> and returns 0. \<open>stops\<close> says whether that signal ever comes.
\<close>

datatype outcome = Exit int | Undefined_division_by_zero | Runs_forever

definition main_outcome :: "config_file \<Rightarrow> bool \<Rightarrow> outcome" where
  "main_outcome file stops =
     (if sample_rate_hz (main_config file) = 0 then Undefined_division_by_zero
      else if stops then Exit 0
      else Runs_forever)"

subsection \<open>The main loop\<close>

fun TRIGGER_NAMES :: "trigger_t \<Rightarrow> string" where
  "TRIGGER_NAMES TRIGGER_NONE = ''none''"
| "TRIGGER_NAMES TRIGGER_RTT_STEP = ''rtt_step''"
| "TRIGGER_NAMES TRIGGER_PROBE_MISS = ''probe_miss''"
| "TRIGGER_NAMES TRIGGER_LINK_DOWN = ''link_down''"
| "TRIGGER_NAMES TRIGGER_RSRP_DROP = ''rsrp_drop''"
| "TRIGGER_NAMES TRIGGER_SINR_DROP = ''sinr_drop''"
| "TRIGGER_NAMES TRIGGER_STARLINK_OBSTR = ''starlink_obstruction''"
| "TRIGGER_NAMES TRIGGER_PREDICTED = ''predicted''"
| "TRIGGER_NAMES TRIGGER_MANUAL = ''manual''"

text \<open>
  What one iteration of the loop reads from outside: the clock at its top, the chaos file
  and the six probes (used when a probe round is due), the clock readings and the exit
  status handed to the state machine, and the commands found in the queue directory in
  the order of their file names, followed by the legacy command if there is one.
\<close>

datatype tick_env =
  Tick_env (te_now: int) (te_chaos: "chaos_file option") (te_polls: "uplink_id_t \<Rightarrow> poll_env")
    (te_now_dup: int) (te_now_fire: int) (te_now_arbitrate: int) (te_verify: int)
    (te_now_sw: int) (te_now_protect: int) (te_commands: "(string \<times> string \<times> cmd_env) list")

text \<open>The loop's local timers \<^verbatim>\<open>last_probe\<close> and \<^verbatim>\<open>last_predict\<close>.\<close>

datatype timers = Timers (last_probe: int) (last_predict: int)

definition RISK_INTERVAL_MS :: int where "RISK_INTERVAL_MS = 250"

definition probe_round :: "tick_env \<Rightarrow> world \<Rightarrow> world" where
  "probe_round env s =
     foldl (\<lambda>w i. update_uplink i (uplink_poll (te_polls env i)) w)
       (chaos_read (te_chaos env) s) uplink_ids"

text \<open>
  The \<^verbatim>\<open>switch\<close> on the state: in NORMAL and PREPARE the tripwire is checked, in PROTECT
  arbitration runs and falls through to the protection tick, in SWITCHING and HOLDING
  only the protection tick runs.
\<close>

definition state_machine :: "config_t \<Rightarrow> tick_env \<Rightarrow> world \<Rightarrow> world" where
  "state_machine cfg env s =
     (if mode (g_status s) = MODE_TRAINING then s
      else
        (case state (g_status s) of
           STATE_NORMAL \<Rightarrow>
             (let t = tripwire_check cfg (Some (g_uplinks s (active_uplink (g_status s))))
              in if t \<noteq> TRIGGER_NONE
                 then tripwire_fire t (Some (TRIGGER_NAMES t)) (te_now_dup env) (te_now_fire env) s
                 else s)
         | STATE_PREPARE \<Rightarrow>
             (let t = tripwire_check cfg (Some (g_uplinks s (active_uplink (g_status s))))
              in if t \<noteq> TRIGGER_NONE
                 then tripwire_fire t (Some (TRIGGER_NAMES t)) (te_now_dup env) (te_now_fire env) s
                 else s)
         | STATE_PROTECT \<Rightarrow>
             protection_tick cfg (te_now_protect env)
               (slowpath_arbitrate cfg (te_now_arbitrate env) (te_verify env) (te_now_sw env) s)
         | STATE_SWITCHING \<Rightarrow> protection_tick cfg (te_now_protect env) s
         | STATE_HOLDING \<Rightarrow> protection_tick cfg (te_now_protect env) s))"

definition commands_process :: "(string \<times> string \<times> cmd_env) list \<Rightarrow> world \<Rightarrow> world" where
  "commands_process cmds s =
     foldl (\<lambda>w c. process_one_command (fst c) (fst (snd c)) (snd (snd c)) w) s cmds"

text \<open>
  One iteration of \<^verbatim>\<open>while (g_running)\<close>. The GPS poll and the status file do not touch the
  modelled state. \<open>probe_interval\<close> is \<^verbatim>\<open>1000000 / g_config.sample_rate_hz\<close>, computed
  once before the loop.
\<close>

definition main_iteration :: "config_t \<Rightarrow> tick_env \<Rightarrow> world \<times> timers \<Rightarrow> world \<times> timers" where
  "main_iteration cfg env st =
     (let s = fst st; tm = snd st; now_t = te_now env;
          probe_interval = c_div 1000000 (sample_rate_hz cfg);
          probing = (now_t - last_probe tm \<ge> probe_interval);
          s1 = (if probing then probe_round env s else s);
          predicting = (now_t - last_predict tm \<ge> RISK_INTERVAL_MS * 1000);
          s2 = (if predicting then prediction_tick s1 else s1);
          s3 = state_machine cfg env s2;
          s4 = commands_process (te_commands env) s3
      in (s4, Timers (if probing then now_t else last_probe tm)
                     (if predicting then now_t else last_predict tm)))"

text \<open>
  The daemon from its start to its shutdown, when the signal arrives after the iterations
  listed in \<open>ticks\<close>: the loop, then the shutdown event and \<open>dup_disable\<close>.
\<close>

definition main_run :: "config_file \<Rightarrow> tick_env list \<Rightarrow> world" where
  "main_run file ticks =
     snd (dup_disable
            (log_event ''shutdown''
               (fst (foldl (\<lambda>st env. main_iteration (main_config file) env st)
                       (main_startup file, Timers 0 0) ticks))))"

subsection \<open>The states the main loop reaches\<close>

text \<open>
  One rule for each operation the loop body of \<^verbatim>\<open>main\<close> performs on the globals, guarded
  as the \<^verbatim>\<open>switch\<close> on the state guards it, with any values for what the operation reads
  from outside, and one for the shutdown after the loop. The rules may fire in any order,
  so every state the daemon passes through after its start is \<open>reachable\<close>.
\<close>

inductive reachable :: "config_file \<Rightarrow> world \<Rightarrow> bool" for conf :: config_file where
  r_start: "reachable conf (main_startup conf)"
| r_chaos: "reachable conf s \<Longrightarrow> reachable conf (chaos_read chaos s)"
| r_poll: "reachable conf s \<Longrightarrow> reachable conf (update_uplink i (uplink_poll env) s)"
| r_predict: "reachable conf s \<Longrightarrow> reachable conf (prediction_tick s)"
| r_fire:
    "reachable conf s \<Longrightarrow> mode (g_status s) \<noteq> MODE_TRAINING \<Longrightarrow>
     state (g_status s) = STATE_NORMAL \<or> state (g_status s) = STATE_PREPARE \<Longrightarrow>
     t = tripwire_check (main_config conf) (Some (g_uplinks s (active_uplink (g_status s)))) \<Longrightarrow>
     t \<noteq> TRIGGER_NONE \<Longrightarrow>
     reachable conf (tripwire_fire t (Some (TRIGGER_NAMES t)) now_dup now s)"
| r_arbitrate:
    "reachable conf s \<Longrightarrow> mode (g_status s) \<noteq> MODE_TRAINING \<Longrightarrow>
     state (g_status s) = STATE_PROTECT \<Longrightarrow>
     reachable conf (slowpath_arbitrate (main_config conf) now verify now_sw s)"
| r_protect:
    "reachable conf s \<Longrightarrow> mode (g_status s) \<noteq> MODE_TRAINING \<Longrightarrow>
     state (g_status s) \<noteq> STATE_NORMAL \<Longrightarrow> state (g_status s) \<noteq> STATE_PREPARE \<Longrightarrow>
     reachable conf (protection_tick (main_config conf) now s)"
| r_command: "reachable conf s \<Longrightarrow> reachable conf (process_one_command cmd cmd_id env s)"
| r_shutdown: "reachable conf s \<Longrightarrow> reachable conf (snd (dup_disable (log_event ''shutdown'' s)))"

subsection \<open>Observations used in the properties\<close>

text \<open>The duplication state: the three status fields and the installed rule.\<close>

definition dup_state ::
  "world \<Rightarrow> bool \<times> int \<times> int \<times> (string \<times> string \<times> string) option" where
  "dup_state s =
     (dup_enabled (g_status s), dup_enabled_at_us (g_status s),
      dup_engaged_at_us (g_status s), nft_dup s)"

text \<open>The events an operation appended to the log.\<close>

definition new_events :: "world \<Rightarrow> world \<Rightarrow> string list" where
  "new_events s s' = drop (length (g_log s)) (g_log s')"

text \<open>
  The two waits of \<open>slowpath_arbitrate\<close>: duplication is enabled, not yet engaged and
  younger than the settle time; and the preroll time since protection started is not over.
\<close>

definition settle_wait :: "int \<Rightarrow> world \<Rightarrow> bool" where
  "settle_wait now s =
     (dup_enabled (g_status s) \<and> dup_engaged_at_us (g_status s) = 0
      \<and> c_div (now - dup_enabled_at_us (g_status s)) 1000 < DUP_SETTLE_MS)"

definition preroll_wait :: "config_t \<Rightarrow> int \<Rightarrow> world \<Rightarrow> bool" where
  "preroll_wait cfg now s =
     (c_div (now - protect_start_us (g_status s)) 1000 < preroll_ms cfg)"

text \<open>What \<open>slowpath_arbitrate\<close> does to the state once the settle time is over.\<close>

definition engage :: "int \<Rightarrow> world \<Rightarrow> world" where
  "engage now s =
     (if dup_enabled (g_status s) \<and> dup_engaged_at_us (g_status s) = 0
      then log_event ''dup_engaged''
             (s\<lparr>g_status := (g_status s)\<lparr>dup_engaged_at_us := now\<rparr>\<rparr>)
      else s)"

text \<open>An uplink that takes part in the scoring, and its score.\<close>

definition eligible :: "world \<Rightarrow> uplink_id_t \<Rightarrow> bool" where
  "eligible s i = (enabled (g_uplinks s i) \<and> available (g_uplinks s i))"

definition score :: "world \<Rightarrow> uplink_id_t \<Rightarrow> double" where
  "score s i = uplink_score (g_uplinks s i)"

text \<open>
  The states reached when no operator command arrives: the rules of \<open>reachable\<close> without
  \<open>r_command\<close>.
\<close>

inductive unattended :: "config_file \<Rightarrow> world \<Rightarrow> bool" for conf :: config_file where
  u_start: "unattended conf (main_startup conf)"
| u_chaos: "unattended conf s \<Longrightarrow> unattended conf (chaos_read chaos s)"
| u_poll: "unattended conf s \<Longrightarrow> unattended conf (update_uplink i (uplink_poll env) s)"
| u_predict: "unattended conf s \<Longrightarrow> unattended conf (prediction_tick s)"
| u_fire:
    "unattended conf s \<Longrightarrow> mode (g_status s) \<noteq> MODE_TRAINING \<Longrightarrow>
     state (g_status s) = STATE_NORMAL \<or> state (g_status s) = STATE_PREPARE \<Longrightarrow>
     t = tripwire_check (main_config conf) (Some (g_uplinks s (active_uplink (g_status s)))) \<Longrightarrow>
     t \<noteq> TRIGGER_NONE \<Longrightarrow>
     unattended conf (tripwire_fire t (Some (TRIGGER_NAMES t)) now_dup now s)"
| u_arbitrate:
    "unattended conf s \<Longrightarrow> mode (g_status s) \<noteq> MODE_TRAINING \<Longrightarrow>
     state (g_status s) = STATE_PROTECT \<Longrightarrow>
     unattended conf (slowpath_arbitrate (main_config conf) now verify now_sw s)"
| u_protect:
    "unattended conf s \<Longrightarrow> mode (g_status s) \<noteq> MODE_TRAINING \<Longrightarrow>
     state (g_status s) \<noteq> STATE_NORMAL \<Longrightarrow> state (g_status s) \<noteq> STATE_PREPARE \<Longrightarrow>
     unattended conf (protection_tick (main_config conf) now s)"
| u_shutdown:
    "unattended conf s \<Longrightarrow> unattended conf (snd (dup_disable (log_event ''shutdown'' s)))"

text \<open>The flag \<^verbatim>\<open>is_active\<close> marks the uplink named by \<^verbatim>\<open>active_uplink\<close> and no other.\<close>

definition active_marked :: "world \<Rightarrow> bool" where
  "active_marked s = list_all (\<lambda>i. is_active (g_uplinks s i) = (i = active_uplink (g_status s))) uplink_ids"

text \<open>How many uplinks carry the flag \<^verbatim>\<open>is_active\<close>.\<close>

definition active_count :: "world \<Rightarrow> nat" where
  "active_count s = length (filter (\<lambda>i. is_active (g_uplinks s i)) uplink_ids)"

text \<open>
  The samples in the ring, newest first: as many as were recorded, at most
  \<^verbatim>\<open>HISTORY_SIZE\<close>.
\<close>

definition newest_first :: "uplink_t \<Rightarrow> probe_t list" where
  "newest_first u =
     map (\<lambda>k. history u (nat ((history_idx u - 1 - int k) mod HISTORY_SIZE)))
       [0 ..< nat (min (history_idx u) HISTORY_SIZE)]"

text \<open>The mean of the samples' round-trip times, summed in the order of the list.\<close>

definition mean_rtt :: "probe_t list \<Rightarrow> double" where
  "mean_rtt ps =
     fdiv (foldl fadd (D_fin 0) (map pr_rtt_ms ps)) (double_of_int (int (length ps)))"

text \<open>
  The RTT rule of the tripwire in two readings. \<open>rtt_step_last3_successful\<close> follows the
  words of the specification: the mean over the last three successful samples.
  \<open>rtt_step_successful_of_last3\<close> takes the last three samples and averages the successful
  ones among them.
\<close>

definition rtt_step_last3_successful :: "config_t \<Rightarrow> uplink_t \<Rightarrow> bool" where
  "rtt_step_last3_successful cfg u =
     (let ps = take 3 (filter pr_success (newest_first u))
      in history_idx u \<ge> 5 \<and> ps \<noteq> []
         \<and> fge (fsub (mean_rtt ps) (rtt_baseline u)) (double_of_int (rtt_step_ms cfg)))"

definition rtt_step_successful_of_last3 :: "config_t \<Rightarrow> uplink_t \<Rightarrow> bool" where
  "rtt_step_successful_of_last3 cfg u =
     (let ps = filter pr_success (take 3 (newest_first u))
      in history_idx u \<ge> 5 \<and> ps \<noteq> []
         \<and> fge (fsub (mean_rtt ps) (rtt_baseline u)) (double_of_int (rtt_step_ms cfg)))"

text \<open>
  The tripwire as the specification lists it, first match wins, with the RTT rule as a
  parameter.
\<close>

definition tripwire_rules ::
  "(config_t \<Rightarrow> uplink_t \<Rightarrow> bool) \<Rightarrow> config_t \<Rightarrow> uplink_t option \<Rightarrow> trigger_t" where
  "tripwire_rules rtt_rule cfg active_ptr =
     (case active_ptr of
        None \<Rightarrow> TRIGGER_LINK_DOWN
      | Some u \<Rightarrow>
          if \<not> enabled u \<or> \<not> available u then TRIGGER_LINK_DOWN
          else if rtt_rule cfg u then TRIGGER_RTT_STEP
          else if consec_fail u \<ge> probe_miss_count cfg then TRIGGER_PROBE_MISS
          else if uplink_type u = UPLINK_TYPE_LTE \<and> flt (rsrp (cellular u)) (D_fin (- 120))
          then TRIGGER_RSRP_DROP
          else if uplink_type u = UPLINK_TYPE_STARLINK
                  \<and> (obstructed (starlink u)
                      \<or> (0 < obstruction_eta (starlink u) \<and> obstruction_eta (starlink u) < 5))
          then TRIGGER_STARLINK_OBSTR
          else TRIGGER_NONE)"

subsection \<open>Sample runs\<close>

text \<open>
  The default thresholds, and a configuration file that holds them and disables no uplink.
\<close>

definition default_config :: config_t where
  "default_config =
     \<lparr>rtt_step_ms = DEFAULT_RTT_STEP_MS, rtt_window_ms = DEFAULT_RTT_WINDOW_MS,
      probe_miss_count = DEFAULT_PROBE_MISS_COUNT,
      probe_miss_window_ms = DEFAULT_PROBE_MISS_WINDOW,
      rsrp_drop_db = D_fin (of_int DEFAULT_RSRP_DROP_DB),
      sinr_drop_db = D_fin (of_int DEFAULT_SINR_DROP_DB),
      preroll_ms = DEFAULT_PREROLL_MS, min_hold_sec = DEFAULT_MIN_HOLD_SEC,
      clean_exit_sec = DEFAULT_CLEAN_EXIT_SEC, gps_enabled = True, pcap_enabled = True,
      sample_rate_hz = 10\<rparr>"

definition default_file :: config_file where
  "default_file = Some (default_config, (\<lambda>_. False))"

text \<open>
  A probe at time \<open>t\<close> that came back after \<open>rtt\<close> milliseconds (\<open>-1\<close>: no reply); the
  values of \<open>rtt\<close> used below are doubles. Both random quotients are one half.
\<close>

definition probe_at :: "int \<Rightarrow> real \<Rightarrow> poll_env" where
  "probe_at t rtt =
     Poll_env t (D_fin rtt) (D_fin (1 / 2)) (D_fin (1 / 2)) Cell_skipped Sl_failed"

text \<open>After the start, the fibre uplink \<^verbatim>\<open>fa\<close> answered one probe in 10 ms.\<close>

definition fa_up_world :: world where
  "fa_up_world =
     update_uplink UPLINK_FIBER1 (uplink_poll (probe_at 900000 10)) (main_startup default_file)"

text \<open>
  Then the tripwire fired for the unavailable active uplink \<^verbatim>\<open>cell_a\<close>, which enabled
  duplication towards \<^verbatim>\<open>fa\<close>.
\<close>

definition protect_world :: world where
  "protect_world =
     tripwire_fire TRIGGER_LINK_DOWN (Some ''link_down'') 1000000 1000000 fa_up_world"

text \<open>
  The tripwire fired right after the start, when no uplink was available yet; \<^verbatim>\<open>fa\<close>
  answered a probe only afterwards.
\<close>

definition lone_world :: world where
  "lone_world =
     tripwire_fire TRIGGER_LINK_DOWN (Some ''link_down'') 1000000 1000000 (main_startup default_file)"

definition lone_fa_world :: world where
  "lone_fa_world = update_uplink UPLINK_FIBER1 (uplink_poll (probe_at 1500000 10)) lone_world"

text \<open>
  After the start both cellular uplinks answered a probe in 30 ms, and a switch made
  \<^verbatim>\<open>cell_b\<close> the active uplink.
\<close>

definition tie_world :: world where
  "tie_world =
     execute_switch UPLINK_CELL_B 0 960000
       (update_uplink UPLINK_CELL_B (uplink_poll (probe_at 950000 30))
          (update_uplink UPLINK_CELL_A (uplink_poll (probe_at 900000 30))
             (main_startup default_file)))"

text \<open>
  In the protection window of \<open>protect_world\<close> the operator forces the uplink back and
  forth; every switch is verified.
\<close>

definition force_env :: cmd_env where
  "force_env = Cmd_env 1010000 1010000 0 1010000 0"

definition forced3_world :: world where
  "forced3_world =
     process_one_command ''force:cell_b'' ''3.cmd'' force_env
       (process_one_command ''force:cell_a'' ''2.cmd'' force_env
          (process_one_command ''force:cell_b'' ''1.cmd'' force_env protect_world))"

definition forced4_world :: world where
  "forced4_world = process_one_command ''force:cell_a'' ''4.cmd'' force_env forced3_world"

text \<open>
  The fibre uplink \<^verbatim>\<open>fa\<close> after five probes: two answered in 30 ms, two lost, one
  answered in 200 ms.
\<close>

definition step_uplink :: uplink_t where
  "step_uplink =
     uplink_poll (probe_at 500000 200)
       (uplink_poll (probe_at 400000 (- 1))
          (uplink_poll (probe_at 300000 (- 1))
             (uplink_poll (probe_at 200000 30)
                (uplink_poll (probe_at 100000 30) (uplinks_table UPLINK_FIBER1)))))"

text \<open>
  The chaos file asks for a loss of \<open>-5\<close> on \<^verbatim>\<open>fa\<close>; it is read after the start, then
  \<^verbatim>\<open>fa\<close> answers its first probe.
\<close>

definition negative_chaos :: chaos_file where
  "negative_chaos i =
     (if i = UPLINK_FIBER1 then Some (None, None, Some (D_fin (- 5))) else None)"

definition negative_loss_world :: world where
  "negative_loss_world =
     update_uplink UPLINK_FIBER1 (uplink_poll (probe_at 900000 10))
       (chaos_read (Some negative_chaos) (main_startup default_file))"

section \<open>Properties\<close>

subsection \<open>Auxiliary facts\<close>

declare uplinks_table.simps [simp del]

subsubsection \<open>Evaluating double arithmetic\<close>

text \<open>
  The equations of the two scaling loops are applied only where a value is evaluated;
  \<open>fp_eval\<close> collects what that takes.
\<close>

declare scale_up.simps [simp del] scale_down.simps [simp del]

lemmas fp_eval =
  round_double_def round_half_even_def scale_up.simps scale_down.simps Let_def
  fsub_def fgt_def fge_def feq_def double_lit_def double_of_int_def

lemma round_double_0 [simp]: "round_double 0 = D_fin 0"
  by (simp add: round_double_def)

text \<open>The values of the sample runs are doubles: rounding leaves them as they are.\<close>

lemma round_double_samples:
  "round_double 1 = D_fin 1"
  "round_double (- 1) = D_fin (- 1)"
  "round_double 10 = D_fin 10"
  "round_double 30 = D_fin 30"
  "round_double 70 = D_fin 70"
  "round_double 85 = D_fin 85"
  "round_double 90 = D_fin 90"
  "round_double 105 = D_fin 105"
  "round_double 200 = D_fin 200"
  "round_double (- 5) = D_fin (- 5)"
  by (simp_all add: fp_eval)

lemma c_div_1000_ge_50: "(c_div x 1000 \<ge> 50) = (x \<ge> 50000)"
  by (cases "x \<ge> 0") (auto simp: c_div_def sgn_if)

lemma c_mod_nonneg: "0 \<le> a \<Longrightarrow> 0 < b \<Longrightarrow> c_mod a b = a mod b"
  by (simp add: c_mod_def sgn_if)

lemma settle_wait_us:
  "settle_wait now s =
     (dup_enabled (g_status s) \<and> dup_engaged_at_us (g_status s) = 0
      \<and> now - dup_enabled_at_us (g_status s) < 50000)"
  using c_div_1000_ge_50 [of "now - dup_enabled_at_us (g_status s)"]
  by (auto simp: settle_wait_def DUP_SETTLE_MS_def)

lemma uplink_cases:
  "P UPLINK_CELL_A \<Longrightarrow> P UPLINK_CELL_B \<Longrightarrow> P UPLINK_SL_A \<Longrightarrow> P UPLINK_SL_B \<Longrightarrow>
   P UPLINK_FIBER1 \<Longrightarrow> P UPLINK_FIBER2 \<Longrightarrow> P i"
  by (cases i) simp_all

lemma set_uplink_ids: "set uplink_ids = UNIV"
proof -
  have "i \<in> set uplink_ids" for i
    by (cases i) (simp_all add: uplink_ids_def)
  then show ?thesis by auto
qed

subsubsection \<open>The log\<close>

lemma log_event_fields [simp]:
  "g_uplinks (log_event ev s) = g_uplinks s"
  "g_status (log_event ev s) = g_status s"
  "nft_dup (log_event ev s) = nft_dup s"
  "g_log (log_event ev s) = g_log s @ [ev]"
  "g_last_cmd_result (log_event ev s) = g_last_cmd_result s"
  by (simp_all add: log_event_def)

lemma new_events_refl [simp]: "new_events s s = []"
  by (simp add: new_events_def)

lemma new_events_log_event:
  "g_log s' = g_log s @ es \<Longrightarrow> new_events s (log_event ev s') = es @ [ev]"
  by (simp add: new_events_def)

subsubsection \<open>Duplication\<close>

lemma find_backup_gw_vip [simp]: "find_backup_gw (VIP_DEVS i) = Some (VIP_GWS i)"
  by (cases i) (simp_all add: find_backup_gw_def uplink_ids_def)

lemma dup_enable_frame [simp]:
  "g_uplinks (snd (dup_enable src dst now s)) = g_uplinks s"
  "active_uplink (g_status (snd (dup_enable src dst now s))) = active_uplink (g_status s)"
  "switches_this_window (g_status (snd (dup_enable src dst now s)))
     = switches_this_window (g_status s)"
  "force_locked (g_status (snd (dup_enable src dst now s))) = force_locked (g_status s)"
  "mode (g_status (snd (dup_enable src dst now s))) = mode (g_status s)"
  "state (g_status (snd (dup_enable src dst now s))) = state (g_status s)"
  by (simp_all add: dup_enable_def split: option.splits)

lemma dup_enable_vip:
  "snd (dup_enable src (VIP_DEVS i) now s) =
     log_event ''dup_enable''
       (s\<lparr>nft_dup := Some (src, VIP_GWS i, VIP_DEVS i),
          g_status := (g_status s)\<lparr>dup_enabled := True, dup_enabled_at_us := now,
                                   dup_engaged_at_us := 0\<rparr>\<rparr>)"
  by (simp add: dup_enable_def)

lemma dup_disable_frame [simp]:
  "g_uplinks (snd (dup_disable s)) = g_uplinks s"
  "active_uplink (g_status (snd (dup_disable s))) = active_uplink (g_status s)"
  "switches_this_window (g_status (snd (dup_disable s))) = switches_this_window (g_status s)"
  "force_locked (g_status (snd (dup_disable s))) = force_locked (g_status s)"
  "mode (g_status (snd (dup_disable s))) = mode (g_status s)"
  "state (g_status (snd (dup_disable s))) = state (g_status s)"
  by (simp_all add: dup_disable_def)

subsubsection \<open>Switching\<close>

lemma select_best_uplink_cong:
  "g_uplinks s' = g_uplinks s \<Longrightarrow> force_locked (g_status s') = force_locked (g_status s) \<Longrightarrow>
   active_uplink (g_status s') = active_uplink (g_status s) \<Longrightarrow>
   select_best_uplink s' = select_best_uplink s"
  by (simp add: select_best_uplink_def)

lemma execute_switch_fail:
  "verify \<noteq> 0 \<Longrightarrow>
   execute_switch target verify now s = log_event ''switch_fail'' (log_event ''switch'' s)"
  by (simp add: execute_switch_def Let_def)

lemma execute_switch_ok:
  "g_status (execute_switch target 0 now s)
     = (g_status s)\<lparr>active_uplink := target,
                     switches_this_window := switches_this_window (g_status s) + 1,
                     switch_start_us := now\<rparr>"
  "g_uplinks (execute_switch target 0 now s) i
     = (if i = target then (g_uplinks s i)\<lparr>is_active := True\<rparr>
        else if i = active_uplink (g_status s) then (g_uplinks s i)\<lparr>is_active := False\<rparr>
        else g_uplinks s i)"
  "g_log (execute_switch target 0 now s) = g_log s @ [''switch'', ''switch_ok'']"
  "nft_dup (execute_switch target 0 now s) = nft_dup s"
  by (simp_all add: execute_switch_def Let_def)

lemma execute_switch_frame [simp]:
  "nft_dup (execute_switch target verify now s) = nft_dup s"
  "dup_enabled (g_status (execute_switch target verify now s)) = dup_enabled (g_status s)"
  "dup_enabled_at_us (g_status (execute_switch target verify now s))
     = dup_enabled_at_us (g_status s)"
  "dup_engaged_at_us (g_status (execute_switch target verify now s))
     = dup_engaged_at_us (g_status s)"
  "mode (g_status (execute_switch target verify now s)) = mode (g_status s)"
  "state (g_status (execute_switch target verify now s)) = state (g_status s)"
  "force_locked (g_status (execute_switch target verify now s)) = force_locked (g_status s)"
  "flap_suppressed (g_status (execute_switch target verify now s))
     = flap_suppressed (g_status s)"
  by (simp_all add: execute_switch_def Let_def)

lemma engage_frame [simp]:
  "g_uplinks (engage now s) = g_uplinks s"
  "nft_dup (engage now s) = nft_dup s"
  "active_uplink (g_status (engage now s)) = active_uplink (g_status s)"
  "switches_this_window (g_status (engage now s)) = switches_this_window (g_status s)"
  "switch_start_us (g_status (engage now s)) = switch_start_us (g_status s)"
  "force_locked (g_status (engage now s)) = force_locked (g_status s)"
  "dup_enabled (g_status (engage now s)) = dup_enabled (g_status s)"
  "dup_enabled_at_us (g_status (engage now s)) = dup_enabled_at_us (g_status s)"
  "mode (g_status (engage now s)) = mode (g_status s)"
  "flap_suppressed (g_status (engage now s)) = flap_suppressed (g_status s)"
  by (simp_all add: engage_def)

lemma engage_engaged:
  "dup_engaged_at_us (g_status (engage now s))
     = (if dup_enabled (g_status s) \<and> dup_engaged_at_us (g_status s) = 0 then now
        else dup_engaged_at_us (g_status s))"
  by (simp add: engage_def)

lemma engage_log:
  "g_log (engage now s)
     = g_log s @ (if dup_enabled (g_status s) \<and> dup_engaged_at_us (g_status s) = 0
                  then [''dup_engaged''] else [])"
  by (simp add: engage_def)

lemma select_best_uplink_engage [simp]:
  "select_best_uplink (engage now s) = select_best_uplink s"
  by (rule select_best_uplink_cong) simp_all

text \<open>\<open>slowpath_arbitrate\<close> by cases, with the waits named.\<close>

lemma arbitrate_cases:
  "slowpath_arbitrate cfg now verify now_sw s =
     (if settle_wait now s then s\<lparr>g_status := (g_status s)\<lparr>state := STATE_SWITCHING\<rparr>\<rparr>
      else if preroll_wait cfg now s
      then (engage now s)\<lparr>g_status := (g_status (engage now s))\<lparr>state := STATE_SWITCHING\<rparr>\<rparr>
      else if switches_this_window (g_status s) \<ge> 3
      then (engage now s)\<lparr>g_status := (g_status (engage now s))\<lparr>flap_suppressed := True\<rparr>\<rparr>
      else if select_best_uplink s \<noteq> active_uplink (g_status s)
      then (execute_switch (select_best_uplink s) verify now_sw (engage now s))
             \<lparr>g_status :=
                (g_status (execute_switch (select_best_uplink s) verify now_sw (engage now s)))
                  \<lparr>state := STATE_HOLDING\<rparr>\<rparr>
      else (engage now s)\<lparr>g_status := (g_status (engage now s))\<lparr>state := STATE_HOLDING\<rparr>\<rparr>)"
proof -
  have sel: "select_best_uplink
               (log_event ''dup_engaged'' (s\<lparr>g_status := (g_status s)\<lparr>dup_engaged_at_us := now\<rparr>\<rparr>))
             = select_best_uplink s"
    by (rule select_best_uplink_cong) simp_all
  show ?thesis
    by (simp add: slowpath_arbitrate_def settle_wait_def preroll_wait_def engage_def Let_def sel)
qed

lemma find_secondary_no_peer:
  assumes "\<forall>i. i \<noteq> act \<longrightarrow> \<not> (enabled (ups i) \<and> available (ups i))"
  shows "find_secondary ups act secondary = act"
  using assms
proof (induction ups act secondary rule: find_secondary.induct)
  case (1 ups act secondary)
  show ?case
  proof (cases "secondary = act")
    case True
    then show ?thesis by simp
  next
    case False
    with "1.prems" have "\<not> (enabled (ups secondary) \<and> available (ups secondary))"
      by blast
    with False "1.IH" "1.prems" show ?thesis by simp
  qed
qed

lemma find_secondary_peer:
  "find_secondary ups act secondary \<noteq> act \<Longrightarrow>
   enabled (ups (find_secondary ups act secondary))
   \<and> available (ups (find_secondary ups act secondary))"
proof (induction ups act secondary rule: find_secondary.induct)
  case (1 ups act secondary)
  then show ?case
    by (cases "secondary = act"; cases "enabled (ups secondary) \<and> available (ups secondary)")
       auto
qed

declare find_secondary.simps [simp del]

lemma tripwire_fire_frame [simp]:
  "g_uplinks (tripwire_fire reason detail now_dup now s) = g_uplinks s"
  "active_uplink (g_status (tripwire_fire reason detail now_dup now s))
     = active_uplink (g_status s)"
  "force_locked (g_status (tripwire_fire reason detail now_dup now s))
     = force_locked (g_status s)"
  "mode (g_status (tripwire_fire reason detail now_dup now s)) = mode (g_status s)"
  "state (g_status (tripwire_fire reason detail now_dup now s)) = STATE_PROTECT"
  "switches_this_window (g_status (tripwire_fire reason detail now_dup now s)) = 0"
  "last_clean_us (g_status (tripwire_fire reason detail now_dup now s)) = 0"
  "flap_suppressed (g_status (tripwire_fire reason detail now_dup now s)) = False"
  "protect_start_us (g_status (tripwire_fire reason detail now_dup now s)) = now"
  "last_trigger (g_status (tripwire_fire reason detail now_dup now s)) = reason"
  by (simp_all add: tripwire_fire_def Let_def)

lemma tripwire_fire_no_peer:
  assumes "\<forall>i. i \<noteq> active_uplink (g_status s)
             \<longrightarrow> \<not> (enabled (g_uplinks s i) \<and> available (g_uplinks s i))"
  shows "dup_state (tripwire_fire reason detail now_dup now s) = dup_state s"
    and "g_log (tripwire_fire reason detail now_dup now s) = g_log s @ [''tripwire_fire'']"
  using find_secondary_no_peer [OF assms]
  by (simp_all add: tripwire_fire_def Let_def dup_state_def)

subsection \<open>A tripwire that finds no peer\<close>

text \<open>
  Claim C10. If no uplink other than the active one is both enabled and available when
  the tripwire fires, the wrapping scan comes back to the active uplink and
  \<open>tripwire_fire\<close> does not call \<open>dup_enable\<close>: the duplication state
  (flag, timestamps, installed rule) is unchanged and the only event logged is
  \<open>tripwire_fire\<close>. The state still becomes PROTECT, with \<open>switches_this_window\<close>,
  \<open>last_clean_us\<close> and \<open>flap_suppressed\<close> reset and \<open>protect_start_us\<close> set. For any
  world \<open>s'\<close> in which duplication is not enabled, arbitration never waits for the settle
  time; once the preroll is over, with fewer than three switches in the window and a best
  uplink that differs from the active one, a verified switch commits to that uplink while
  the duplication state stays as it was: nothing is installed.
\<close>

theorem fire_without_peer:
  assumes "\<forall>i. i \<noteq> active_uplink (g_status s)
             \<longrightarrow> \<not> (enabled (g_uplinks s i) \<and> available (g_uplinks s i))"
  shows "find_secondary (g_uplinks s) (active_uplink (g_status s))
           (next_id (active_uplink (g_status s))) = active_uplink (g_status s)
       \<and> dup_state (tripwire_fire reason detail now_dup now s) = dup_state s
       \<and> new_events s (tripwire_fire reason detail now_dup now s) = [''tripwire_fire'']
       \<and> state (g_status (tripwire_fire reason detail now_dup now s)) = STATE_PROTECT
       \<and> switches_this_window (g_status (tripwire_fire reason detail now_dup now s)) = 0
       \<and> last_clean_us (g_status (tripwire_fire reason detail now_dup now s)) = 0
       \<and> \<not> flap_suppressed (g_status (tripwire_fire reason detail now_dup now s))
       \<and> protect_start_us (g_status (tripwire_fire reason detail now_dup now s)) = now
       \<and> (\<not> dup_enabled (g_status s') \<longrightarrow> \<not> settle_wait now' s')
       \<and> (\<not> dup_enabled (g_status s') \<and> \<not> preroll_wait cfg now' s'
            \<and> switches_this_window (g_status s') < 3
            \<and> select_best_uplink s' \<noteq> active_uplink (g_status s')
            \<longrightarrow> active_uplink (g_status (slowpath_arbitrate cfg now' 0 now_sw s'))
                  = select_best_uplink s'
                \<and> new_events s' (slowpath_arbitrate cfg now' 0 now_sw s')
                    = [''switch'', ''switch_ok'']
                \<and> dup_state (slowpath_arbitrate cfg now' 0 now_sw s') = dup_state s'
                \<and> \<not> dup_enabled (g_status (slowpath_arbitrate cfg now' 0 now_sw s')))"
proof -
  have fire: "dup_state (tripwire_fire reason detail now_dup now s) = dup_state s
       \<and> new_events s (tripwire_fire reason detail now_dup now s) = [''tripwire_fire'']"
    using tripwire_fire_no_peer [OF assms] by (simp add: new_events_def)
  have wait: "\<not> dup_enabled (g_status s') \<Longrightarrow> \<not> settle_wait now' s'"
    by (simp add: settle_wait_def)
  have eng: "\<not> dup_enabled (g_status s') \<Longrightarrow> engage now' s' = s'"
    by (simp add: engage_def)
  have sw: "\<not> dup_enabled (g_status s') \<Longrightarrow> \<not> preroll_wait cfg now' s' \<Longrightarrow>
            switches_this_window (g_status s') < 3 \<Longrightarrow>
            select_best_uplink s' \<noteq> active_uplink (g_status s') \<Longrightarrow>
            slowpath_arbitrate cfg now' 0 now_sw s'
              = (execute_switch (select_best_uplink s') 0 now_sw s')
                  \<lparr>g_status := (g_status (execute_switch (select_best_uplink s') 0 now_sw s'))
                      \<lparr>state := STATE_HOLDING\<rparr>\<rparr>"
    by (simp add: arbitrate_cases wait eng)
  show ?thesis
    using fire wait find_secondary_no_peer [OF assms]
    by (auto simp: sw execute_switch_ok new_events_def dup_state_def)
qed

subsection \<open>A switch whose verification fails\<close>

text \<open>
  Claim C3. When the route check fails (\<open>verify \<noteq> 0\<close>), \<open>execute_switch\<close> leaves the
  whole status (so \<open>active_uplink\<close>, \<open>switches_this_window\<close>, \<open>switch_start_us\<close>) and
  every uplink (so all \<open>is_active\<close> flags) unchanged and logs \<open>switch\<close>, \<open>switch_fail\<close>.
  An arbitration with such a check leaves the active uplink, the uplinks, the switch
  counter and \<open>switch_start_us\<close> unchanged whatever branch it takes; if it logged
  \<open>switch_fail\<close>, that is if it invoked the switch, it ends in state HOLDING; and it does
  invoke the switch when neither wait holds, fewer than three switches happened in the
  window and the best uplink differs from the active one.
\<close>

theorem switch_verification_failure:
  assumes "verify \<noteq> 0"
  shows "g_status (execute_switch target verify now_sw s) = g_status s
       \<and> g_uplinks (execute_switch target verify now_sw s) = g_uplinks s
       \<and> new_events s (execute_switch target verify now_sw s) = [''switch'', ''switch_fail'']
       \<and> active_uplink (g_status (slowpath_arbitrate cfg now verify now_sw s))
           = active_uplink (g_status s)
       \<and> g_uplinks (slowpath_arbitrate cfg now verify now_sw s) = g_uplinks s
       \<and> switches_this_window (g_status (slowpath_arbitrate cfg now verify now_sw s))
           = switches_this_window (g_status s)
       \<and> switch_start_us (g_status (slowpath_arbitrate cfg now verify now_sw s))
           = switch_start_us (g_status s)
       \<and> (''switch_fail'' \<in> set (new_events s (slowpath_arbitrate cfg now verify now_sw s))
            \<longrightarrow> state (g_status (slowpath_arbitrate cfg now verify now_sw s)) = STATE_HOLDING)
       \<and> (\<not> settle_wait now s \<and> \<not> preroll_wait cfg now s
            \<and> switches_this_window (g_status s) < 3
            \<and> select_best_uplink s \<noteq> active_uplink (g_status s)
            \<longrightarrow> ''switch_fail'' \<in> set (new_events s (slowpath_arbitrate cfg now verify now_sw s))
                \<and> state (g_status (slowpath_arbitrate cfg now verify now_sw s)) = STATE_HOLDING)"
  using assms
  by (auto simp: arbitrate_cases execute_switch_fail new_events_def engage_log)

subsubsection \<open>The order of the doubles\<close>

text \<open>
  \<^verbatim>\<open><\<close> on doubles is a strict order, total on the values other than NaN; NaN is below
  and above nothing.
\<close>

lemma flt_irrefl: "\<not> flt x x"
  by (cases x) simp_all

lemma flt_trans: "flt x y \<Longrightarrow> flt y z \<Longrightarrow> flt x z"
  by (cases x; cases y; cases z) simp_all

lemma flt_total: "x \<noteq> D_nan \<Longrightarrow> y \<noteq> D_nan \<Longrightarrow> flt x y \<or> x = y \<or> flt y x"
  by (cases x; cases y) auto

lemma flt_nan: "\<not> flt D_nan x" "\<not> flt x D_nan"
  by (cases x; simp)+

lemma feq_eq: "feq x y \<Longrightarrow> x = y"
  by (simp add: feq_def)

subsubsection \<open>The scoring loop\<close>

text \<open>
  The loop keeps the first uplink of the list whose score no eligible uplink exceeds, if
  that score exceeds the initial \<open>best_score\<close>.
\<close>

lemma select_step_cases:
  "select_step ups r x =
     (if enabled (ups x) \<and> available (ups x) \<and> flt (snd r) (uplink_score (ups x))
      then (x, uplink_score (ups x)) else r)"
  by (simp add: select_step_def fgt_def)

lemma select_fold_bound:
  "(snd (foldl (select_step ups) acc xs) = snd acc
      \<or> flt (snd acc) (snd (foldl (select_step ups) acc xs)))
   \<and> (\<forall>j \<in> set xs. enabled (ups j) \<and> available (ups j)
          \<longrightarrow> \<not> flt (snd (foldl (select_step ups) acc xs)) (uplink_score (ups j)))"
proof (induction xs rule: rev_induct)
  case Nil
  then show ?case by simp
next
  case (snoc x xs)
  define r where "r = foldl (select_step ups) acc xs"
  have step: "foldl (select_step ups) acc (xs @ [x]) = select_step ups r x"
    by (simp add: r_def)
  from snoc have ih: "snd r = snd acc \<or> flt (snd acc) (snd r)"
    "\<forall>j \<in> set xs. enabled (ups j) \<and> available (ups j)
        \<longrightarrow> \<not> flt (snd r) (uplink_score (ups j))"
    by (simp_all add: r_def)
  show ?case
  proof (cases "enabled (ups x) \<and> available (ups x) \<and> flt (snd r) (uplink_score (ups x))")
    case True
    then have res: "select_step ups r x = (x, uplink_score (ups x))"
      by (simp add: select_step_cases)
    have "flt (snd acc) (uplink_score (ups x))"
      using ih(1) True flt_trans by auto
    moreover have "\<forall>j \<in> set xs. enabled (ups j) \<and> available (ups j)
        \<longrightarrow> \<not> flt (uplink_score (ups x)) (uplink_score (ups j))"
      using ih(2) True flt_trans by blast
    ultimately show ?thesis
      unfolding step res by (simp add: flt_irrefl)
  next
    case False
    then have "select_step ups r x = r"
      by (auto simp: select_step_cases)
    with False ih show ?thesis
      unfolding step by auto
  qed
qed

lemma select_fold_result:
  "foldl (select_step ups) acc xs = acc
   \<or> (fst (foldl (select_step ups) acc xs) \<in> set xs
      \<and> enabled (ups (fst (foldl (select_step ups) acc xs)))
      \<and> available (ups (fst (foldl (select_step ups) acc xs)))
      \<and> snd (foldl (select_step ups) acc xs)
           = uplink_score (ups (fst (foldl (select_step ups) acc xs)))
      \<and> flt (snd acc) (snd (foldl (select_step ups) acc xs)))"
proof (induction xs rule: rev_induct)
  case Nil
  then show ?case by simp
next
  case (snoc x xs)
  define r where "r = foldl (select_step ups) acc xs"
  have step: "foldl (select_step ups) acc (xs @ [x]) = select_step ups r x"
    by (simp add: r_def)
  have mono: "snd r = snd acc \<or> flt (snd acc) (snd r)"
    using select_fold_bound [of ups acc xs] by (simp add: r_def)
  from snoc have ih: "r = acc
     \<or> (fst r \<in> set xs \<and> enabled (ups (fst r)) \<and> available (ups (fst r))
        \<and> snd r = uplink_score (ups (fst r)) \<and> flt (snd acc) (snd r))"
    by (simp add: r_def)
  show ?case
  proof (cases "enabled (ups x) \<and> available (ups x) \<and> flt (snd r) (uplink_score (ups x))")
    case True
    then have res: "select_step ups r x = (x, uplink_score (ups x))"
      by (simp add: select_step_cases)
    have "flt (snd acc) (uplink_score (ups x))"
      using mono True flt_trans by auto
    with True show ?thesis
      unfolding step res by simp
  next
    case False
    then have "select_step ups r x = r"
      by (auto simp: select_step_cases)
    with ih show ?thesis
      unfolding step by auto
  qed
qed

lemma select_fold_unchanged:
  "(\<forall>j \<in> set xs. enabled (ups j) \<and> available (ups j)
       \<longrightarrow> \<not> flt (snd acc) (uplink_score (ups j)))
   \<Longrightarrow> foldl (select_step ups) acc xs = acc"
  by (induction xs rule: rev_induct) (auto simp: select_step_cases)

lemma select_fold_changed:
  assumes "j \<in> set xs" "enabled (ups j)" "available (ups j)"
    and "flt (snd acc) (uplink_score (ups j))"
  shows "foldl (select_step ups) acc xs \<noteq> acc"
proof
  assume "foldl (select_step ups) acc xs = acc"
  with select_fold_bound [of ups acc xs] assms show False by force
qed

lemma select_fold_first:
  assumes "sorted_wrt (\<lambda>a b. id_index a < id_index b) xs"
    and "foldl (select_step ups) acc xs \<noteq> acc"
    and "j \<in> set xs" "enabled (ups j)" "available (ups j)"
    and "uplink_score (ups j) = snd (foldl (select_step ups) acc xs)"
  shows "id_index (fst (foldl (select_step ups) acc xs)) \<le> id_index j"
  using assms
proof (induction xs rule: rev_induct)
  case Nil
  then show ?case by simp
next
  case (snoc x xs)
  let ?r = "foldl (select_step ups) acc xs"
  have sorted: "sorted_wrt (\<lambda>a b. id_index a < id_index b) xs"
    and later: "\<forall>a \<in> set xs. id_index a < id_index x"
    using snoc.prems(1) by (auto simp: sorted_wrt_append)
  have bound: "\<forall>k \<in> set xs. enabled (ups k) \<and> available (ups k)
                 \<longrightarrow> \<not> flt (snd ?r) (uplink_score (ups k))"
    using select_fold_bound [of ups acc xs] by simp
  show ?case
  proof (cases "enabled (ups x) \<and> available (ups x) \<and> flt (snd ?r) (uplink_score (ups x))")
    case True
    then have res: "foldl (select_step ups) acc (xs @ [x]) = (x, uplink_score (ups x))"
      by (simp add: select_step_cases)
    have "j = x"
    proof (rule ccontr)
      assume "j \<noteq> x"
      with snoc.prems(3) have "j \<in> set xs" by simp
      with bound snoc.prems(4,5) have "\<not> flt (snd ?r) (uplink_score (ups j))" by blast
      with True snoc.prems(6) res show False by simp
    qed
    with res show ?thesis by simp
  next
    case False
    then have res: "foldl (select_step ups) acc (xs @ [x]) = ?r"
      by (auto simp: select_step_cases)
    with snoc.prems(2) have changed: "?r \<noteq> acc" by simp
    show ?thesis
    proof (cases "j = x")
      case True
      from select_fold_result [of ups acc xs] changed have "fst ?r \<in> set xs" by blast
      with later True res show ?thesis by (simp add: less_imp_le)
    next
      case False
      with snoc.prems(3) have "j \<in> set xs" by simp
      with snoc.IH [OF sorted changed] snoc.prems(4,5,6) res show ?thesis by simp
    qed
  qed
qed

lemma sorted_uplink_ids: "sorted_wrt (\<lambda>a b. id_index a < id_index b) uplink_ids"
  by (simp add: uplink_ids_def)

lemma select_best_none:
  assumes "\<not> force_locked (g_status s)"
    and "\<forall>i. eligible s i \<longrightarrow> \<not> fgt (score s i) (D_fin (- 9999))"
  shows "select_best_uplink s = active_uplink (g_status s)"
  using assms
    select_fold_unchanged [of uplink_ids "g_uplinks s" "(active_uplink (g_status s), D_fin (- 9999))"]
  by (simp add: select_best_uplink_def eligible_def score_def fgt_def)

lemma select_best_some:
  assumes "\<not> force_locked (g_status s)"
    and "eligible s i" "fgt (score s i) (D_fin (- 9999))"
  shows "eligible s (select_best_uplink s)"
    and "fgt (score s (select_best_uplink s)) (D_fin (- 9999))"
    and "\<forall>j. eligible s j \<longrightarrow> \<not> fgt (score s j) (score s (select_best_uplink s))"
    and "\<forall>j. eligible s j \<and> score s j = score s (select_best_uplink s)
           \<longrightarrow> id_index (select_best_uplink s) \<le> id_index j"
proof -
  let ?acc = "(active_uplink (g_status s), D_fin (- 9999))"
  let ?r = "foldl (select_step (g_uplinks s)) ?acc uplink_ids"
  have sel: "select_best_uplink s = fst ?r"
    using assms(1) by (simp add: select_best_uplink_def)
  have changed: "?r \<noteq> ?acc"
    using select_fold_changed [of i uplink_ids "g_uplinks s" ?acc] assms(2,3)
    by (simp add: set_uplink_ids eligible_def score_def fgt_def)
  with select_fold_result [of "g_uplinks s" ?acc uplink_ids]
  have res: "enabled (g_uplinks s (fst ?r))" "available (g_uplinks s (fst ?r))"
    "snd ?r = uplink_score (g_uplinks s (fst ?r))" "flt (D_fin (- 9999)) (snd ?r)"
    by auto
  show "eligible s (select_best_uplink s)"
    using res by (simp add: sel eligible_def)
  show "fgt (score s (select_best_uplink s)) (D_fin (- 9999))"
    using res(3,4) by (simp add: sel score_def fgt_def)
  show "\<forall>j. eligible s j \<longrightarrow> \<not> fgt (score s j) (score s (select_best_uplink s))"
    using select_fold_bound [of "g_uplinks s" ?acc uplink_ids] res(3)
    by (simp add: sel eligible_def score_def set_uplink_ids fgt_def)
  show "\<forall>j. eligible s j \<and> score s j = score s (select_best_uplink s)
          \<longrightarrow> id_index (select_best_uplink s) \<le> id_index j"
  proof (intro allI impI)
    fix j
    assume j: "eligible s j \<and> score s j = score s (select_best_uplink s)"
    then have "uplink_score (g_uplinks s j) = snd ?r"
      using res(3) by (simp add: sel score_def)
    with select_fold_first [OF sorted_uplink_ids changed, of j] j
    show "id_index (select_best_uplink s) \<le> id_index j"
      by (simp add: sel eligible_def set_uplink_ids)
  qed
qed

lemma select_best_only:
  assumes "\<not> force_locked (g_status s)"
    and "eligible s b" "fgt (score s b) (D_fin (- 9999))"
    and "\<forall>j. eligible s j \<longrightarrow> j = b"
  shows "select_best_uplink s = b"
  using select_best_some(1) [OF assms(1,2,3)] assms(4) by blast

subsubsection \<open>Polling\<close>

lemma loss_loop_unroll:
  "loss_loop (numeral k) u i acc =
     (if i < history_idx u
      then loss_loop (pred_numeral k) u (i + 1)
             (if pr_success (history u (nat (c_mod (history_idx u - 1 - i) HISTORY_SIZE)))
              then fst acc + 1 else fst acc,
              snd acc + 1)
      else acc)"
  by (simp add: numeral_eq_Suc)

lemma c_mod_0 [simp]: "c_mod 0 b = 0"
  by (simp add: c_mod_def)

lemma cellular_poll_fields [simp]:
  "enabled (cellular_poll r u) = enabled u"
  "available (cellular_poll r u) = available u"
  "is_active (cellular_poll r u) = is_active u"
  "loss_pct (cellular_poll r u) = loss_pct u"
  "rtt_ms (cellular_poll r u) = rtt_ms u"
  "rtt_baseline (cellular_poll r u) = rtt_baseline u"
  "risk_now (cellular_poll r u) = risk_now u"
  "uplink_type (cellular_poll r u) = uplink_type u"
  "force_failed (cellular_poll r u) = force_failed u"
  "consec_fail (cellular_poll r u) = consec_fail u"
  "history (cellular_poll r u) = history u"
  "history_idx (cellular_poll r u) = history_idx u"
  "starlink (cellular_poll r u) = starlink u"
  "chaos_loss (cellular_poll r u) = chaos_loss u"
  by (simp_all add: cellular_poll_def split: cell_result.splits)

lemma starlink_poll_fields [simp]:
  "enabled (starlink_poll r u) = enabled u"
  "available (starlink_poll r u) = available u"
  "is_active (starlink_poll r u) = is_active u"
  "loss_pct (starlink_poll r u) = loss_pct u"
  "rtt_ms (starlink_poll r u) = rtt_ms u"
  "rtt_baseline (starlink_poll r u) = rtt_baseline u"
  "risk_now (starlink_poll r u) = risk_now u"
  "uplink_type (starlink_poll r u) = uplink_type u"
  "force_failed (starlink_poll r u) = force_failed u"
  "consec_fail (starlink_poll r u) = consec_fail u"
  "history (starlink_poll r u) = history u"
  "history_idx (starlink_poll r u) = history_idx u"
  "cellular (starlink_poll r u) = cellular u"
  "chaos_loss (starlink_poll r u) = chaos_loss u"
  by (simp_all add: starlink_poll_def Let_def split: sl_result.splits)

lemma poll_kind_fields [simp]:
  "enabled (poll_kind env u) = enabled u"
  "available (poll_kind env u) = available u"
  "is_active (poll_kind env u) = is_active u"
  "loss_pct (poll_kind env u) = loss_pct u"
  "rtt_ms (poll_kind env u) = rtt_ms u"
  "rtt_baseline (poll_kind env u) = rtt_baseline u"
  "risk_now (poll_kind env u) = risk_now u"
  "uplink_type (poll_kind env u) = uplink_type u"
  "force_failed (poll_kind env u) = force_failed u"
  "consec_fail (poll_kind env u) = consec_fail u"
  "history (poll_kind env u) = history u"
  "history_idx (poll_kind env u) = history_idx u"
  "chaos_loss (poll_kind env u) = chaos_loss u"
  by (simp_all add: poll_kind_def)

lemma poll_kind_skipped:
  "pe_cell env = Cell_skipped \<Longrightarrow> cellular (poll_kind env u) = cellular u"
  "pe_sl env = Sl_failed \<Longrightarrow> online (starlink (poll_kind env u)) = online (starlink u)"
  "pe_sl env = Sl_failed \<Longrightarrow> obstructed (starlink (poll_kind env u)) = obstructed (starlink u)"
  "pe_sl env = Sl_failed \<Longrightarrow>
     obstruction_eta (starlink (poll_kind env u)) = obstruction_eta (starlink u)"
  by (simp_all add: poll_kind_def) (simp_all add: cellular_poll_def starlink_poll_def)

lemma poll_loss_fields [simp]:
  "enabled (poll_loss u) = enabled u"
  "available (poll_loss u) = available u"
  "is_active (poll_loss u) = is_active u"
  "rtt_ms (poll_loss u) = rtt_ms u"
  "rtt_baseline (poll_loss u) = rtt_baseline u"
  "risk_now (poll_loss u) = risk_now u"
  "uplink_type (poll_loss u) = uplink_type u"
  "force_failed (poll_loss u) = force_failed u"
  "consec_fail (poll_loss u) = consec_fail u"
  "history (poll_loss u) = history u"
  "history_idx (poll_loss u) = history_idx u"
  "cellular (poll_loss u) = cellular u"
  "starlink (poll_loss u) = starlink u"
  "chaos_loss (poll_loss u) = chaos_loss u"
  by (simp_all add: poll_loss_def Let_def)

lemma poll_metrics_fields [simp]:
  "enabled (poll_metrics env u) = enabled u"
  "is_active (poll_metrics env u) = is_active u"
  "risk_now (poll_metrics env u) = risk_now u"
  "uplink_type (poll_metrics env u) = uplink_type u"
  "force_failed (poll_metrics env u) = force_failed u"
  "history (poll_metrics env u) = history u"
  "history_idx (poll_metrics env u) = history_idx u"
  "chaos_loss (poll_metrics env u) = chaos_loss u"
  "cellular (poll_metrics env u) = cellular u"
  "starlink (poll_metrics env u) = starlink u"
  by (simp_all add: poll_metrics_def Let_def)

lemma poll_record_fields [simp]:
  "enabled (poll_record env u) = enabled u"
  "available (poll_record env u) = available u"
  "is_active (poll_record env u) = is_active u"
  "risk_now (poll_record env u) = risk_now u"
  "uplink_type (poll_record env u) = uplink_type u"
  "force_failed (poll_record env u) = force_failed u"
  "chaos_loss (poll_record env u) = chaos_loss u"
  "chaos_rtt (poll_record env u) = chaos_rtt u"
  "chaos_jitter (poll_record env u) = chaos_jitter u"
  "consec_fail (poll_record env u) = consec_fail u"
  "rtt_baseline (poll_record env u) = rtt_baseline u"
  "rtt_ms (poll_record env u) = rtt_ms u"
  "loss_pct (poll_record env u) = loss_pct u"
  "history_idx (poll_record env u) = history_idx u + 1"
  "cellular (poll_record env u) = cellular u"
  "starlink (poll_record env u) = starlink u"
  by (simp_all add: poll_record_def Let_def)

lemma poll_record_history:
  "history (poll_record env u) =
     (history u)
       (nat (c_mod (history_idx u) HISTORY_SIZE) :=
          \<lparr>pr_rtt_ms = fadd (fadd (pe_rtt env) (chaos_rtt u))
                          (chaos_jitter_term u (pe_rand1 env)),
           pr_success = fgt (pe_rtt env) (D_fin 0),
           pr_timestamp_us = pe_start env\<rparr>)"
  by (simp add: poll_record_def Let_def)

lemma uplink_poll_fields [simp]:
  "enabled (uplink_poll env u) = enabled u"
  "is_active (uplink_poll env u) = is_active u"
  "risk_now (uplink_poll env u) = risk_now u"
  "uplink_type (uplink_poll env u) = uplink_type u"
  "force_failed (uplink_poll env u) = force_failed u"
  "chaos_loss (uplink_poll env u) = chaos_loss u"
  by (simp_all add: uplink_poll_def)

lemma uplink_poll_history:
  "enabled u \<Longrightarrow> history_idx (uplink_poll env u) = history_idx u + 1"
  "enabled u \<Longrightarrow> history (uplink_poll env u) =
     (history u)
       (nat (c_mod (history_idx u) HISTORY_SIZE) :=
          \<lparr>pr_rtt_ms = fadd (fadd (pe_rtt env) (chaos_rtt u))
                          (chaos_jitter_term u (pe_rand1 env)),
           pr_success = fgt (pe_rtt env) (D_fin 0),
           pr_timestamp_us = pe_start env\<rparr>)"
  by (simp_all add: uplink_poll_def poll_record_history)

lemma uplink_poll_success:
  assumes "enabled u" "fgt (pe_rtt env) (D_fin 0)"
  shows "available (uplink_poll env u) = (\<not> force_failed u \<or> available u)"
    and "rtt_ms (uplink_poll env u)
           = fadd (pe_rtt env) (fadd (chaos_rtt u) (chaos_jitter_term u (pe_rand2 env)))"
    and "consec_fail (uplink_poll env u) = 0"
    and "rtt_baseline (uplink_poll env u)
           = (if feq (rtt_baseline u) (D_fin 0) then pe_rtt env
              else fadd (fmul (rtt_baseline u) (double_lit 0.95))
                     (fmul (pe_rtt env) (double_lit 0.05)))"
  using assms
  by (auto simp: uplink_poll_def poll_metrics_def chaos_jitter_term_def Let_def)

lemma uplink_poll_failure:
  assumes "enabled u" "\<not> fgt (pe_rtt env) (D_fin 0)"
  shows "available (uplink_poll env u) = (\<not> consec_fail u + 1 > 5 \<and> available u)"
    and "rtt_ms (uplink_poll env u) = rtt_ms u"
    and "consec_fail (uplink_poll env u) = consec_fail u + 1"
    and "rtt_baseline (uplink_poll env u) = rtt_baseline u"
  using assms
  by (auto simp: uplink_poll_def poll_metrics_def Let_def)

lemma uplink_poll_loss:
  "enabled u \<Longrightarrow>
   loss_pct (uplink_poll env u) = loss_pct (poll_loss (poll_metrics env (poll_record env u)))"
  by (simp add: uplink_poll_def)

subsubsection \<open>The start\<close>

lemma table_fields [simp]:
  "chaos_loss (uplinks_table i) = D_fin 0"
  "chaos_rtt (uplinks_table i) = D_fin 0"
  "chaos_jitter (uplinks_table i) = D_fin 0"
  "enabled (uplinks_table i)"
  "\<not> available (uplinks_table i)"
  "\<not> force_failed (uplinks_table i)"
  "risk_now (uplinks_table i) = D_fin 0"
  "loss_pct (uplinks_table i) = D_fin 0"
  "rtt_baseline (uplinks_table i) = D_fin 0"
  "consec_fail (uplinks_table i) = 0"
  "history_idx (uplinks_table i) = 0"
  "rsrp (cellular (uplinks_table i)) = D_fin 0"
  "\<not> online (starlink (uplinks_table i))"
  "\<not> obstructed (starlink (uplinks_table i))"
  "is_active (uplinks_table i) = (i = UPLINK_CELL_A)"
  by (cases i; simp add: uplinks_table.simps uplink0_def)+

lemma table_type [simp]:
  "uplink_type (uplinks_table UPLINK_CELL_A) = UPLINK_TYPE_LTE"
  "uplink_type (uplinks_table UPLINK_CELL_B) = UPLINK_TYPE_LTE"
  "uplink_type (uplinks_table UPLINK_SL_A) = UPLINK_TYPE_STARLINK"
  "uplink_type (uplinks_table UPLINK_SL_B) = UPLINK_TYPE_STARLINK"
  "uplink_type (uplinks_table UPLINK_FIBER1) = UPLINK_TYPE_FIBER"
  "uplink_type (uplinks_table UPLINK_FIBER2) = UPLINK_TYPE_FIBER"
  by (simp_all add: uplinks_table.simps)

lemma startup_uplinks [simp]: "g_uplinks (main_startup default_file) = uplinks_table"
  by (simp add: main_startup_def uplinks_init_def dup_init_def Let_def default_file_def)

lemma startup_status:
  "g_status (main_startup default_file)
     = status0\<lparr>mode := MODE_TRIPWIRE, recommendation := ''NORMAL''\<rparr>"
  by (simp add: main_startup_def uplinks_init_def dup_init_def Let_def world0_def status0_def
        default_file_def)

lemma startup_fields [simp]:
  "active_uplink (g_status (main_startup default_file)) = UPLINK_CELL_A"
  "\<not> force_locked (g_status (main_startup default_file))"
  "\<not> dup_enabled (g_status (main_startup default_file))"
  "dup_enabled_at_us (g_status (main_startup default_file)) = 0"
  "dup_engaged_at_us (g_status (main_startup default_file)) = 0"
  "switches_this_window (g_status (main_startup default_file)) = 0"
  "switch_start_us (g_status (main_startup default_file)) = 0"
  "mode (g_status (main_startup default_file)) = MODE_TRIPWIRE"
  "state (g_status (main_startup default_file)) = STATE_NORMAL"
  "\<not> flap_suppressed (g_status (main_startup default_file))"
  "nft_dup (main_startup default_file) = None"
  by (simp_all add: startup_status status0_def)
     (simp add: main_startup_def uplinks_init_def dup_init_def Let_def world0_def
        default_file_def)

text \<open>
  With no jitter injected, a random quotient of one half makes the jitter term vanish.
\<close>

lemma chaos_jitter_term_half:
  "chaos_jitter u = D_fin j \<Longrightarrow> chaos_jitter_term u (D_fin (1 / 2)) = D_fin 0"
  by (simp add: chaos_jitter_term_def fsub_def)

text \<open>
  The first probe of an uplink after the start, answered after \<open>rtt\<close> milliseconds, where
  \<open>rtt\<close> is a double.
\<close>

lemma first_probe:
  assumes "0 < rtt" "round_double rtt = D_fin rtt"
  shows "available (uplink_poll (probe_at t rtt) (uplinks_table i))"
    and "rtt_ms (uplink_poll (probe_at t rtt) (uplinks_table i)) = D_fin rtt"
    and "loss_pct (uplink_poll (probe_at t rtt) (uplinks_table i)) = D_fin 0"
    and "rsrp (cellular (uplink_poll (probe_at t rtt) (uplinks_table i))) = D_fin 0"
    and "\<not> online (starlink (uplink_poll (probe_at t rtt) (uplinks_table i)))"
proof -
  let ?env = "probe_at t rtt"
  let ?u = "uplinks_table i"
  have env: "pe_rtt ?env = D_fin rtt" "pe_cell ?env = Cell_skipped" "pe_sl ?env = Sl_failed"
    "pe_rand1 ?env = D_fin (1 / 2)" "pe_rand2 ?env = D_fin (1 / 2)"
    by (simp_all add: probe_at_def)
  have pos: "fgt (pe_rtt ?env) (D_fin 0)"
    using assms(1) by (simp add: env fgt_def)
  have jit: "chaos_jitter_term ?u (D_fin (1 / 2)) = D_fin 0"
    by (rule chaos_jitter_term_half [of _ 0]) simp
  show "available (uplink_poll ?env ?u)"
    using uplink_poll_success(1) [of ?u ?env] pos by simp
  show "rtt_ms (uplink_poll ?env ?u) = D_fin rtt"
    using uplink_poll_success(2) [of ?u ?env] pos assms(2) by (simp add: env jit)
  have "pr_success (history (poll_record ?env ?u) 0)"
    using pos by (simp add: poll_record_history)
  then show "loss_pct (uplink_poll ?env ?u) = D_fin 0"
    by (simp add: uplink_poll_loss poll_loss_def Let_def loss_loop_unroll double_of_int_def
          round_double_samples fgt_def)
  show "rsrp (cellular (uplink_poll ?env ?u)) = D_fin 0"
    by (simp add: uplink_poll_def poll_kind_skipped env)
  show "\<not> online (starlink (uplink_poll ?env ?u))"
    by (simp add: uplink_poll_def poll_kind_skipped env)
qed

lemma first_probe_score:
  assumes "0 < rtt" "round_double rtt = D_fin rtt"
    and "round_double (100 - rtt) = D_fin (100 - rtt)"
    and "round_double (115 - rtt) = D_fin (115 - rtt)"
  shows "uplink_score (uplink_poll (probe_at t rtt) (uplinks_table i))
           = D_fin (100 - rtt
                    + (if uplink_type (uplinks_table i) = UPLINK_TYPE_LTE then 15 else 0))"
proof -
  have "100 - rtt + 15 = 115 - rtt"
    by simp
  with first_probe [OF assms(1,2), of t i] assms(3,4) show ?thesis
    by (simp add: uplink_score_def Let_def fsub_def fgt_def)
qed

subsubsection \<open>The sample runs\<close>

lemma select_step_eligible:
  "select_step (g_uplinks s) acc i =
     (if \<not> eligible s i then acc
      else if fgt (score s i) (snd acc) then (i, score s i) else acc)"
  by (auto simp: select_step_def eligible_def score_def)

lemma update_uplink_fields [simp]:
  "g_status (update_uplink i f s) = g_status s"
  "nft_dup (update_uplink i f s) = nft_dup s"
  "g_log (update_uplink i f s) = g_log s"
  "g_uplinks (update_uplink i f s) = (g_uplinks s)(i := f (g_uplinks s i))"
  by (simp_all add: update_uplink_def)

lemma fa_up_eligible: "eligible fa_up_world i = (i = UPLINK_FIBER1)"
  using first_probe(1) [of 10 900000 UPLINK_FIBER1]
  by (simp add: eligible_def fa_up_world_def round_double_samples)

lemma fa_up_score: "score fa_up_world UPLINK_FIBER1 = D_fin 90"
  using first_probe_score [of 10 900000 UPLINK_FIBER1]
  by (simp add: score_def fa_up_world_def round_double_samples)

lemma fa_up_status [simp]: "g_status fa_up_world = g_status (main_startup default_file)"
  by (simp add: fa_up_world_def)

lemma fa_up_secondary:
  "find_secondary (g_uplinks fa_up_world) UPLINK_CELL_A UPLINK_CELL_B = UPLINK_FIBER1"
  using fa_up_eligible
  by (simp add: find_secondary.simps eligible_def)

lemma protect_world_eq:
  "protect_world =
     log_event ''tripwire_fire''
       (log_event ''dup_enable''
          (fa_up_world
             \<lparr>nft_dup := Some (''vip_cell_a'', ''10.201.10.2'', ''vip_fa''),
              g_status := (g_status fa_up_world)
                \<lparr>dup_enabled := True, dup_enabled_at_us := 1000000, dup_engaged_at_us := 0,
                 state := STATE_PROTECT, last_trigger := TRIGGER_LINK_DOWN,
                 trigger_detail := ''link_down'', protect_start_us := 1000000,
                 switches_this_window := 0, last_clean_us := 0,
                 flap_suppressed := False\<rparr>\<rparr>))"
  using dup_enable_vip [of "''vip_cell_a''" UPLINK_FIBER1 1000000 fa_up_world]
  by (simp add: protect_world_def tripwire_fire_def Let_def fa_up_secondary log_event_def)

lemma protect_world_fields [simp]:
  "g_uplinks protect_world = g_uplinks fa_up_world"
  "active_uplink (g_status protect_world) = UPLINK_CELL_A"
  "\<not> force_locked (g_status protect_world)"
  "dup_enabled (g_status protect_world)"
  "dup_enabled_at_us (g_status protect_world) = 1000000"
  "dup_engaged_at_us (g_status protect_world) = 0"
  "protect_start_us (g_status protect_world) = 1000000"
  "switches_this_window (g_status protect_world) = 0"
  "switch_start_us (g_status protect_world) = 0"
  "state (g_status protect_world) = STATE_PROTECT"
  by (simp_all add: protect_world_eq)

lemma protect_world_best: "select_best_uplink protect_world = UPLINK_FIBER1"
proof -
  have "select_best_uplink protect_world = select_best_uplink fa_up_world"
    by (rule select_best_uplink_cong) simp_all
  also have "\<dots> = UPLINK_FIBER1"
    by (rule select_best_only [where b = UPLINK_FIBER1])
       (simp_all add: fa_up_eligible fa_up_score fgt_def)
  finally show ?thesis .
qed

lemma protect_world_waits:
  "\<not> settle_wait 1600000 protect_world"
  "\<not> preroll_wait default_config 1600000 protect_world"
  by (simp_all add: settle_wait_us preroll_wait_def default_config_def c_div_def
        DEFAULT_PREROLL_MS_def)

theorem switch_verification_failure_witness:
  "state (g_status (slowpath_arbitrate default_config 1600000 1 1600000 protect_world))
     = STATE_HOLDING
   \<and> active_uplink (g_status (slowpath_arbitrate default_config 1600000 1 1600000 protect_world))
       = UPLINK_CELL_A
   \<and> switches_this_window
       (g_status (slowpath_arbitrate default_config 1600000 1 1600000 protect_world)) = 0
   \<and> ''switch_fail''
       \<in> set (new_events protect_world
                (slowpath_arbitrate default_config 1600000 1 1600000 protect_world))"
  using switch_verification_failure
          [of 1 UPLINK_FIBER1 1600000 protect_world default_config 1600000]
  by (simp add: protect_world_waits protect_world_best)

lemma startup_no_peer:
  "\<forall>i. i \<noteq> active_uplink (g_status (main_startup default_file))
       \<longrightarrow> \<not> (enabled (g_uplinks (main_startup default_file) i)
              \<and> available (g_uplinks (main_startup default_file) i))"
  by simp

lemma lone_world_fields [simp]:
  "g_uplinks lone_world = uplinks_table"
  "active_uplink (g_status lone_world) = UPLINK_CELL_A"
  "\<not> force_locked (g_status lone_world)"
  "protect_start_us (g_status lone_world) = 1000000"
  "switches_this_window (g_status lone_world) = 0"
  by (simp_all add: lone_world_def)

lemma lone_world_dup: "dup_state lone_world = dup_state (main_startup default_file)"
  unfolding lone_world_def by (rule tripwire_fire_no_peer(1) [OF startup_no_peer])

lemma lone_fa_fields [simp]:
  "g_status lone_fa_world = g_status lone_world"
  "nft_dup lone_fa_world = nft_dup lone_world"
  by (simp_all add: lone_fa_world_def)

lemma lone_fa_eligible: "eligible lone_fa_world i = (i = UPLINK_FIBER1)"
  using first_probe(1) [of 10 1500000 UPLINK_FIBER1]
  by (simp add: eligible_def lone_fa_world_def round_double_samples)

lemma lone_fa_score: "score lone_fa_world UPLINK_FIBER1 = D_fin 90"
  using first_probe_score [of 10 1500000 UPLINK_FIBER1]
  by (simp add: score_def lone_fa_world_def round_double_samples)

lemma lone_fa_best: "select_best_uplink lone_fa_world = UPLINK_FIBER1"
  by (rule select_best_only [where b = UPLINK_FIBER1])
     (simp_all add: lone_fa_eligible lone_fa_score fgt_def)

lemma lone_fa_dup:
  "\<not> dup_enabled (g_status lone_fa_world)"
  "dup_state lone_fa_world = (False, 0, 0, None)"
  using lone_world_dup by (simp_all add: dup_state_def)

lemma lone_fa_preroll: "\<not> preroll_wait default_config 1600000 lone_fa_world"
  by (simp add: preroll_wait_def default_config_def c_div_def DEFAULT_PREROLL_MS_def)

theorem fire_without_peer_witness:
  "dup_state lone_world = (False, 0, 0, None)
   \<and> state (g_status lone_world) = STATE_PROTECT
   \<and> switches_this_window (g_status lone_world) = 0
   \<and> active_uplink (g_status (slowpath_arbitrate default_config 1600000 0 1600000 lone_fa_world))
       = UPLINK_FIBER1
   \<and> new_events lone_fa_world
        (slowpath_arbitrate default_config 1600000 0 1600000 lone_fa_world)
       = [''switch'', ''switch_ok'']
   \<and> dup_state (slowpath_arbitrate default_config 1600000 0 1600000 lone_fa_world)
       = (False, 0, 0, None)"
  using fire_without_peer [OF startup_no_peer,
          of TRIGGER_LINK_DOWN "Some ''link_down''" 1000000 1000000
             lone_fa_world 1600000 default_config 1600000]
  by (simp add: lone_fa_dup lone_fa_preroll lone_fa_best lone_world_def [symmetric]
        dup_state_def)

subsection \<open>Best-uplink selection\<close>

lemma fmul_commute: "fmul x y = fmul y x"
  by (cases x; cases y) (auto simp: mult.commute)

text \<open>
  Claim C7, as the code has it. The score of an uplink is
  \<open>100 - rtt_ms - 50 * risk_now - 10 * loss_pct\<close>, plus 20 for a Starlink uplink that is
  online and not obstructed, plus 15 for an LTE uplink with \<open>rsrp > -90\<close>, computed in
  double arithmetic from left to right, each step rounded. With \<open>force_locked\<close> set,
  \<open>select_best_uplink\<close> returns the active uplink. Otherwise, if the score of some enabled
  and available uplink is greater than -9999, it returns an enabled and available uplink
  whose score is greater than -9999 and is exceeded by the score of no enabled and
  available uplink, and among those with an equal score the one with the lowest id (the
  loop runs in id order and replaces its candidate only on a strictly greater score); the
  active uplink has no precedence in a tie, and a score that is NaN is greater than
  nothing. If the score of no enabled and available uplink is greater than -9999, it
  returns the active uplink.
\<close>

theorem select_best_uplink_rule:
  "uplink_score u
     = (let base = fsub (fsub (fsub (D_fin 100) (rtt_ms u)) (fmul (D_fin 50) (risk_now u)))
                     (fmul (D_fin 10) (loss_pct u));
            with_starlink =
              (if uplink_type u = UPLINK_TYPE_STARLINK \<and> online (starlink u)
                  \<and> \<not> obstructed (starlink u)
               then fadd base (D_fin 20) else base)
        in if uplink_type u = UPLINK_TYPE_LTE \<and> fgt (rsrp (cellular u)) (D_fin (- 90))
           then fadd with_starlink (D_fin 15) else with_starlink)
   \<and> (force_locked (g_status s) \<longrightarrow> select_best_uplink s = active_uplink (g_status s))
   \<and> (\<not> force_locked (g_status s) \<and> (\<exists>i. eligible s i \<and> fgt (score s i) (D_fin (- 9999))) \<longrightarrow>
        eligible s (select_best_uplink s)
        \<and> fgt (score s (select_best_uplink s)) (D_fin (- 9999))
        \<and> (\<forall>j. eligible s j \<longrightarrow> \<not> fgt (score s j) (score s (select_best_uplink s)))
        \<and> (\<forall>j. eligible s j \<and> feq (score s j) (score s (select_best_uplink s))
               \<longrightarrow> id_index (select_best_uplink s) \<le> id_index j))
   \<and> (\<not> force_locked (g_status s)
        \<and> (\<forall>i. eligible s i \<longrightarrow> \<not> fgt (score s i) (D_fin (- 9999))) \<longrightarrow>
        select_best_uplink s = active_uplink (g_status s))"
proof (intro conjI impI)
  show "uplink_score u
     = (let base = fsub (fsub (fsub (D_fin 100) (rtt_ms u)) (fmul (D_fin 50) (risk_now u)))
                     (fmul (D_fin 10) (loss_pct u));
            with_starlink =
              (if uplink_type u = UPLINK_TYPE_STARLINK \<and> online (starlink u)
                  \<and> \<not> obstructed (starlink u)
               then fadd base (D_fin 20) else base)
        in if uplink_type u = UPLINK_TYPE_LTE \<and> fgt (rsrp (cellular u)) (D_fin (- 90))
           then fadd with_starlink (D_fin 15) else with_starlink)"
    by (simp add: uplink_score_def Let_def fmul_commute [of "D_fin 50"]
          fmul_commute [of "D_fin 10"])
next
  assume "force_locked (g_status s)"
  then show "select_best_uplink s = active_uplink (g_status s)"
    by (simp add: select_best_uplink_def)
next
  assume a: "\<not> force_locked (g_status s) \<and> (\<exists>i. eligible s i \<and> fgt (score s i) (D_fin (- 9999)))"
  then obtain i where i: "eligible s i" "fgt (score s i) (D_fin (- 9999))" by blast
  from a have nl: "\<not> force_locked (g_status s)" by simp
  show "eligible s (select_best_uplink s)"
    by (rule select_best_some(1) [OF nl i])
  show "fgt (score s (select_best_uplink s)) (D_fin (- 9999))"
    by (rule select_best_some(2) [OF nl i])
  show "\<forall>j. eligible s j \<longrightarrow> \<not> fgt (score s j) (score s (select_best_uplink s))"
    by (rule select_best_some(3) [OF nl i])
  show "\<forall>j. eligible s j \<and> feq (score s j) (score s (select_best_uplink s))
               \<longrightarrow> id_index (select_best_uplink s) \<le> id_index j"
    using select_best_some(4) [OF nl i] feq_eq by blast
next
  assume "\<not> force_locked (g_status s)
            \<and> (\<forall>i. eligible s i \<longrightarrow> \<not> fgt (score s i) (D_fin (- 9999)))"
  then show "select_best_uplink s = active_uplink (g_status s)"
    using select_best_none [of s] by blast
qed

text \<open>
  Scores that differ as real numbers can be equal as doubles: \<open>100 - 50.2\<close> and
  \<open>100 - 0.2 - 5 * 10\<close> both give the double nearest to 49.8.
\<close>

lemma rounded_scores_equal:
  "uplink_score ((uplinks_table UPLINK_FIBER1)\<lparr>rtt_ms := double_lit 50.2\<rparr>)
     = D_fin (3504363460047667 / 70368744177664)"
  "uplink_score ((uplinks_table UPLINK_FIBER2)\<lparr>rtt_ms := double_lit 0.2, loss_pct := D_fin 5\<rparr>)
     = D_fin (3504363460047667 / 70368744177664)"
  by (simp_all add: uplink_score_def fp_eval)

lemma tie_world_uplinks:
  "g_uplinks tie_world i =
     (if i = UPLINK_CELL_B
      then (uplink_poll (probe_at 950000 30) (uplinks_table UPLINK_CELL_B))\<lparr>is_active := True\<rparr>
      else if i = UPLINK_CELL_A
      then (uplink_poll (probe_at 900000 30) (uplinks_table UPLINK_CELL_A))\<lparr>is_active := False\<rparr>
      else uplinks_table i)"
  by (simp add: tie_world_def execute_switch_ok)

lemma tie_world_status [simp]:
  "active_uplink (g_status tie_world) = UPLINK_CELL_B"
  "\<not> force_locked (g_status tie_world)"
  by (simp_all add: tie_world_def execute_switch_ok)

lemma tie_world_eligible: "eligible tie_world i = (i = UPLINK_CELL_A \<or> i = UPLINK_CELL_B)"
  using first_probe(1) [of 30 900000 UPLINK_CELL_A] first_probe(1) [of 30 950000 UPLINK_CELL_B]
  by (simp add: eligible_def tie_world_uplinks round_double_samples)

lemma tie_world_score:
  "score tie_world UPLINK_CELL_A = D_fin 85"
  "score tie_world UPLINK_CELL_B = D_fin 85"
  using first_probe_score [of 30 900000 UPLINK_CELL_A]
    first_probe_score [of 30 950000 UPLINK_CELL_B]
  by (simp_all add: score_def tie_world_uplinks uplink_score_def round_double_samples)

lemma tie_world_best: "select_best_uplink tie_world = UPLINK_CELL_A"
  by (simp add: select_best_uplink_def uplink_ids_def select_step_eligible
        tie_world_eligible tie_world_score fgt_def)

theorem select_best_uplink_tie_counterexample:
  "\<not> force_locked (g_status tie_world)
   \<and> active_uplink (g_status tie_world) = UPLINK_CELL_B
   \<and> eligible tie_world UPLINK_CELL_A \<and> score tie_world UPLINK_CELL_A = D_fin 85
   \<and> eligible tie_world UPLINK_CELL_B \<and> score tie_world UPLINK_CELL_B = D_fin 85
   \<and> \<not> eligible tie_world UPLINK_SL_A \<and> \<not> eligible tie_world UPLINK_SL_B
   \<and> \<not> eligible tie_world UPLINK_FIBER1 \<and> \<not> eligible tie_world UPLINK_FIBER2
   \<and> select_best_uplink tie_world \<noteq> active_uplink (g_status tie_world)"
  by (simp add: tie_world_eligible tie_world_score tie_world_best)

theorem select_best_uplink_rule_witness:
  "eligible tie_world UPLINK_CELL_A \<and> score tie_world UPLINK_CELL_A = D_fin 85
   \<and> eligible tie_world (select_best_uplink tie_world)
   \<and> \<not> fgt (score tie_world UPLINK_CELL_B) (score tie_world (select_best_uplink tie_world))
   \<and> id_index (select_best_uplink tie_world) \<le> id_index UPLINK_CELL_B
   \<and> select_best_uplink (main_startup default_file) = UPLINK_CELL_A
   \<and> select_best_uplink (tie_world\<lparr>g_status := (g_status tie_world)\<lparr>force_locked := True\<rparr>\<rparr>)
       = UPLINK_CELL_B"
proof -
  have ex: "\<exists>i. eligible tie_world i \<and> fgt (score tie_world i) (D_fin (- 9999))"
    by (rule exI [of _ UPLINK_CELL_A]) (simp add: tie_world_eligible tie_world_score fgt_def)
  have none: "\<forall>i. eligible (main_startup default_file) i
                \<longrightarrow> \<not> fgt (score (main_startup default_file) i) (D_fin (- 9999))"
    by (simp add: eligible_def)
  note rule = select_best_uplink_rule [of uplink0 tie_world]
  have best: "eligible tie_world (select_best_uplink tie_world)"
    and top: "\<forall>j. eligible tie_world j
                \<longrightarrow> \<not> fgt (score tie_world j) (score tie_world (select_best_uplink tie_world))"
    and first: "\<forall>j. eligible tie_world j
                  \<and> feq (score tie_world j) (score tie_world (select_best_uplink tie_world))
                \<longrightarrow> id_index (select_best_uplink tie_world) \<le> id_index j"
    using rule ex by simp_all
  have tie: "score tie_world (select_best_uplink tie_world) = D_fin 85"
    using best by (auto simp: tie_world_eligible tie_world_score)
  have "id_index (select_best_uplink tie_world) \<le> id_index UPLINK_CELL_B"
    using first [rule_format, of UPLINK_CELL_B]
    by (simp add: tie tie_world_eligible tie_world_score feq_def)
  moreover have "\<not> fgt (score tie_world UPLINK_CELL_B)
                     (score tie_world (select_best_uplink tie_world))"
    using top by (simp add: tie_world_eligible)
  moreover have "select_best_uplink (main_startup default_file) = UPLINK_CELL_A"
    using select_best_uplink_rule [of uplink0 "main_startup default_file"] none by simp
  moreover have "select_best_uplink
                   (tie_world\<lparr>g_status := (g_status tie_world)\<lparr>force_locked := True\<rparr>\<rparr>)
                   = UPLINK_CELL_B"
    using select_best_uplink_rule
            [of uplink0 "tie_world\<lparr>g_status := (g_status tie_world)\<lparr>force_locked := True\<rparr>\<rparr>"]
    by simp
  ultimately show ?thesis
    using best by (simp add: tie_world_eligible tie_world_score)
qed

subsection \<open>The settle gate of arbitration\<close>

text \<open>
  Claim C1. Let duplication be enabled when \<open>slowpath_arbitrate\<close> runs.
  While it is not yet engaged (\<open>dup_engaged_at_us = 0\<close>) and less than 50 ms
  (50000 microseconds) have passed since \<open>dup_enabled_at_us\<close>, arbitration does nothing but
  set the state to SWITCHING: no switch is executed. Once 50 ms have passed it sets
  \<open>dup_engaged_at_us\<close> to the current time. And whenever arbitration ends with
  \<open>dup_engaged_at_us\<close> still zero, it has done nothing but set the state to SWITCHING; so a
  tick that changes the active uplink or the switch counter ends with \<open>dup_engaged_at_us\<close>
  non-zero. The clock reading is taken to be non-zero (it is the time since 1970).
\<close>

theorem settle_gate_before_switch:
  assumes "dup_enabled (g_status s)"
  shows "(dup_engaged_at_us (g_status s) = 0 \<and> now - dup_enabled_at_us (g_status s) < 50000
            \<longrightarrow> slowpath_arbitrate cfg now verify now_sw s
                  = s\<lparr>g_status := (g_status s)\<lparr>state := STATE_SWITCHING\<rparr>\<rparr>)
       \<and> (dup_engaged_at_us (g_status s) = 0 \<and> now - dup_enabled_at_us (g_status s) \<ge> 50000
            \<longrightarrow> dup_engaged_at_us (g_status (slowpath_arbitrate cfg now verify now_sw s)) = now)
       \<and> (now \<noteq> 0
            \<and> dup_engaged_at_us (g_status (slowpath_arbitrate cfg now verify now_sw s)) = 0
            \<longrightarrow> slowpath_arbitrate cfg now verify now_sw s
                  = s\<lparr>g_status := (g_status s)\<lparr>state := STATE_SWITCHING\<rparr>\<rparr>)
       \<and> (now \<noteq> 0
            \<and> (active_uplink (g_status (slowpath_arbitrate cfg now verify now_sw s))
                  \<noteq> active_uplink (g_status s)
               \<or> switches_this_window (g_status (slowpath_arbitrate cfg now verify now_sw s))
                  \<noteq> switches_this_window (g_status s))
            \<longrightarrow> dup_engaged_at_us (g_status (slowpath_arbitrate cfg now verify now_sw s)) \<noteq> 0)"
proof (cases "settle_wait now s")
  case True
  then have "slowpath_arbitrate cfg now verify now_sw s
               = s\<lparr>g_status := (g_status s)\<lparr>state := STATE_SWITCHING\<rparr>\<rparr>"
    by (simp add: arbitrate_cases)
  with True show ?thesis
    by (simp add: settle_wait_us)
next
  case False
  then have "dup_engaged_at_us (g_status (slowpath_arbitrate cfg now verify now_sw s))
               = (if dup_engaged_at_us (g_status s) = 0 then now
                  else dup_engaged_at_us (g_status s))"
    using assms by (simp add: arbitrate_cases engage_engaged)
  with False assms show ?thesis
    by (auto simp: settle_wait_us)
qed

theorem settle_gate_before_switch_witness:
  "dup_enabled (g_status protect_world)
   \<and> slowpath_arbitrate default_config 1020000 0 1020000 protect_world
       = protect_world\<lparr>g_status := (g_status protect_world)\<lparr>state := STATE_SWITCHING\<rparr>\<rparr>
   \<and> dup_engaged_at_us
       (g_status (slowpath_arbitrate default_config 1060000 0 1060000 protect_world))
       = 1060000
   \<and> active_uplink (g_status (slowpath_arbitrate default_config 1600000 0 1600000 protect_world))
       = UPLINK_FIBER1
   \<and> dup_engaged_at_us
       (g_status (slowpath_arbitrate default_config 1600000 0 1600000 protect_world))
       \<noteq> 0"
proof -
  have a: "dup_enabled (g_status protect_world)"
    by simp
  note early = settle_gate_before_switch [OF a, of 1020000 default_config 0 1020000]
  note settled = settle_gate_before_switch [OF a, of 1060000 default_config 0 1060000]
  note late = settle_gate_before_switch [OF a, of 1600000 default_config 0 1600000]
  have e1: "slowpath_arbitrate default_config 1020000 0 1020000 protect_world
       = protect_world\<lparr>g_status := (g_status protect_world)\<lparr>state := STATE_SWITCHING\<rparr>\<rparr>"
    using early [THEN conjunct1] by simp
  have e2: "dup_engaged_at_us
       (g_status (slowpath_arbitrate default_config 1060000 0 1060000 protect_world))
       = 1060000"
    using settled [THEN conjunct2, THEN conjunct1] by simp
  have sw: "active_uplink
              (g_status (slowpath_arbitrate default_config 1600000 0 1600000 protect_world))
            = UPLINK_FIBER1"
    by (simp add: arbitrate_cases protect_world_waits protect_world_best execute_switch_ok)
  have e3: "dup_engaged_at_us
       (g_status (slowpath_arbitrate default_config 1600000 0 1600000 protect_world))
       \<noteq> 0"
    using late [THEN conjunct2, THEN conjunct2, THEN conjunct2] sw by simp
  show ?thesis
    using a e1 e2 sw e3 by blast
qed

subsection \<open>Enabling and disabling duplication\<close>

text \<open>
  Claim C9, as the code has it. For every pair of device arguments, \<open>dup_enable\<close> followed
  by \<open>dup_disable\<close> leaves \<open>dup_enabled\<close> false and no rule installed. If the destination
  is one of the \<^verbatim>\<open>VIP_DEVS\<close>, \<open>dup_engaged_at_us\<close> is then zero (cleared by the enable)
  and \<open>dup_enabled_at_us\<close> keeps the time of the enable: \<open>dup_disable\<close> clears neither
  timestamp. If the destination is unknown, \<open>dup_enable\<close> fails and both timestamps keep
  their earlier values. Two \<open>dup_enable\<close> calls in a row with the same arguments give the
  duplication state of the second call alone, that is the state of a single call with
  \<open>dup_enabled_at_us\<close> at the later time.
\<close>

theorem dup_enable_disable_roundtrip:
  "\<not> dup_enabled (g_status (snd (dup_disable (snd (dup_enable src dst now s)))))
   \<and> nft_dup (snd (dup_disable (snd (dup_enable src dst now s)))) = None
   \<and> (find_backup_gw dst \<noteq> None \<longrightarrow>
        dup_engaged_at_us (g_status (snd (dup_disable (snd (dup_enable src dst now s))))) = 0
        \<and> dup_enabled_at_us (g_status (snd (dup_disable (snd (dup_enable src dst now s)))))
            = now)
   \<and> (find_backup_gw dst = None \<longrightarrow>
        dup_engaged_at_us (g_status (snd (dup_disable (snd (dup_enable src dst now s)))))
          = dup_engaged_at_us (g_status s)
        \<and> dup_enabled_at_us (g_status (snd (dup_disable (snd (dup_enable src dst now s)))))
            = dup_enabled_at_us (g_status s))
   \<and> dup_state (snd (dup_enable src dst t2 (snd (dup_enable src dst t1 s))))
       = dup_state (snd (dup_enable src dst t2 s))"
  by (auto simp: dup_state_def dup_disable_def dup_enable_def log_event_def
        split: option.splits)

theorem dup_enable_disable_roundtrip_witness:
  "find_backup_gw ''vip_fa'' \<noteq> None
   \<and> find_backup_gw ''veth_cell_b'' = None
   \<and> dup_enabled_at_us (g_status (snd (dup_disable
        (snd (dup_enable ''vip_cell_a'' ''vip_fa'' 1000000 (main_startup default_file)))))) = 1000000
   \<and> dup_enabled_at_us (g_status (snd (dup_disable
        (snd (dup_enable ''br-lan'' ''veth_cell_b'' 2000000 protect_world))))) = 1000000"
  using dup_enable_disable_roundtrip
          [of "''vip_cell_a''" "''vip_fa''" 1000000 "main_startup default_file"]
    dup_enable_disable_roundtrip [of "''br-lan''" "''veth_cell_b''" 2000000 protect_world]
  by (simp add: find_backup_gw_def uplink_ids_def)

theorem dup_disable_keeps_timestamp_counterexample:
  "\<not> (\<not> dup_enabled (g_status (snd (dup_disable
          (snd (dup_enable ''vip_cell_a'' ''vip_fa'' 1000000 (main_startup default_file))))))
      \<and> dup_enabled_at_us (g_status (snd (dup_disable
          (snd (dup_enable ''vip_cell_a'' ''vip_fa'' 1000000 (main_startup default_file)))))) = 0
      \<and> dup_engaged_at_us (g_status (snd (dup_disable
          (snd (dup_enable ''vip_cell_a'' ''vip_fa'' 1000000 (main_startup default_file)))))) = 0)"
  by (simp add: dup_disable_def dup_enable_def find_backup_gw_def uplink_ids_def
        log_event_def)

subsection \<open>Exactly one active uplink\<close>

lemma active_marked_iff:
  "active_marked s = (\<forall>i. is_active (g_uplinks s i) = (i = active_uplink (g_status s)))"
  by (simp add: active_marked_def list_all_iff set_uplink_ids)

lemma active_marked_count:
  assumes "active_marked s"
  shows "active_count s = 1"
proof -
  have "is_active (g_uplinks s i) = (i = active_uplink (g_status s))" for i
    using assms by (simp add: active_marked_iff)
  then show ?thesis
    by (cases "active_uplink (g_status s)") (simp_all add: active_count_def uplink_ids_def)
qed

lemma active_marked_cong:
  "(\<And>i. is_active (g_uplinks s' i) = is_active (g_uplinks s i)) \<Longrightarrow>
   active_uplink (g_status s') = active_uplink (g_status s) \<Longrightarrow>
   active_marked s' = active_marked s"
  by (simp add: active_marked_iff)

lemma active_marked_switch:
  "active_marked s \<Longrightarrow> active_marked (execute_switch target verify now s)"
proof (cases "verify = 0")
  case True
  assume "active_marked s"
  then show ?thesis
    using True by (simp add: active_marked_iff execute_switch_ok)
next
  case False
  assume "active_marked s"
  then show ?thesis
    using False by (simp add: active_marked_iff execute_switch_fail)
qed

lemma main_startup_uplinks:
  "g_uplinks (main_startup conf) i =
     (case conf of
        None \<Rightarrow> uplinks_table i
      | Some (parsed, disabled) \<Rightarrow>
          if disabled i then (uplinks_table i)\<lparr>enabled := False\<rparr> else uplinks_table i)"
  by (simp add: main_startup_def uplinks_init_def dup_init_def Let_def
        split: option.splits prod.splits)

lemma main_startup_status:
  "g_status (main_startup conf)
     = status0\<lparr>mode := MODE_TRIPWIRE, recommendation := ''NORMAL''\<rparr>"
  by (simp add: main_startup_def uplinks_init_def dup_init_def Let_def world0_def status0_def
        split: option.splits prod.splits)

lemma active_marked_startup: "active_marked (main_startup conf)"
  by (simp add: active_marked_iff main_startup_uplinks main_startup_status status0_def
        split: option.splits prod.splits)

lemma chaos_apply_is_active [simp]: "is_active (chaos_apply f i u) = is_active u"
  by (simp add: chaos_apply_def Let_def split: option.splits prod.splits)

lemma chaos_read_frame [simp]:
  "g_status (chaos_read chaos s) = g_status s"
  "is_active (g_uplinks (chaos_read chaos s) i) = is_active (g_uplinks s i)"
  "nft_dup (chaos_read chaos s) = nft_dup s"
  by (simp_all add: chaos_read_def split: option.splits)

lemma predict_fold_frame:
  "g_status (fst (foldl predict_step acc xs)) = g_status (fst acc)
   \<and> nft_dup (fst (foldl predict_step acc xs)) = nft_dup (fst acc)
   \<and> is_active (g_uplinks (fst (foldl predict_step acc xs)) i)
       = is_active (g_uplinks (fst acc) i)"
proof (induction xs arbitrary: acc)
  case Nil
  then show ?case by simp
next
  case (Cons x xs)
  have "g_status (fst (predict_step acc x)) = g_status (fst acc)
        \<and> nft_dup (fst (predict_step acc x)) = nft_dup (fst acc)
        \<and> is_active (g_uplinks (fst (predict_step acc x)) i) = is_active (g_uplinks (fst acc) i)"
    by (simp add: predict_step_def Let_def)
  with Cons.IH [of "predict_step acc x"] show ?case by simp
qed

lemma prediction_tick_frame [simp]:
  "active_uplink (g_status (prediction_tick s)) = active_uplink (g_status s)"
  "switches_this_window (g_status (prediction_tick s)) = switches_this_window (g_status s)"
  "dup_enabled (g_status (prediction_tick s)) = dup_enabled (g_status s)"
  "mode (g_status (prediction_tick s)) = mode (g_status s)"
  "state (g_status (prediction_tick s)) = state (g_status s)"
  "is_active (g_uplinks (prediction_tick s) i) = is_active (g_uplinks s i)"
  using predict_fold_frame [of "(s, D_fin 0)" uplink_ids i]
  by (simp_all add: prediction_tick_def Let_def)

lemma protection_tick_frame [simp]:
  "g_uplinks (protection_tick cfg now s) = g_uplinks s"
  "active_uplink (g_status (protection_tick cfg now s)) = active_uplink (g_status s)"
  "switches_this_window (g_status (protection_tick cfg now s))
     = switches_this_window (g_status s)"
  "mode (g_status (protection_tick cfg now s)) = mode (g_status s)"
  by (simp_all add: protection_tick_def Let_def)

lemma arbitrate_frame [simp]:
  "mode (g_status (slowpath_arbitrate cfg now verify now_sw s)) = mode (g_status s)"
  "force_locked (g_status (slowpath_arbitrate cfg now verify now_sw s))
     = force_locked (g_status s)"
  "dup_enabled (g_status (slowpath_arbitrate cfg now verify now_sw s))
     = dup_enabled (g_status s)"
  "nft_dup (slowpath_arbitrate cfg now verify now_sw s) = nft_dup s"
  by (simp_all add: arbitrate_cases)

lemma active_marked_engage [simp]: "active_marked (engage now s) = active_marked s"
  by (rule active_marked_cong) simp_all

lemma active_marked_arbitrate:
  assumes "active_marked s"
  shows "active_marked (slowpath_arbitrate cfg now verify now_sw s)"
proof -
  have sw: "active_marked (execute_switch (select_best_uplink s) verify now_sw (engage now s))"
    using assms by (simp add: active_marked_switch)
  have upd: "active_marked (w\<lparr>g_status := (g_status w)\<lparr>state := st\<rparr>\<rparr>) = active_marked w"
    "active_marked (w\<lparr>g_status := (g_status w)\<lparr>flap_suppressed := b\<rparr>\<rparr>) = active_marked w"
    for w st b
    by (simp_all add: active_marked_iff)
  show ?thesis
    using assms sw by (simp add: arbitrate_cases upd)
qed

lemma set_result_frame [simp]:
  "g_uplinks (set_result r s) = g_uplinks s"
  "g_status (set_result r s) = g_status s"
  "nft_dup (set_result r s) = nft_dup s"
  "g_log (set_result r s) = g_log s"
  by (simp_all add: set_result_def)

lemma active_marked_wrappers [simp]:
  "active_marked (set_result r s) = active_marked s"
  "active_marked (log_event ev s) = active_marked s"
  "active_marked (s\<lparr>g_last_cmd_id := c\<rparr>) = active_marked s"
  by (simp_all add: active_marked_iff)

lemma active_marked_cmd_mode:
  "active_marked s \<Longrightarrow> active_marked (cmd_mode m env s)"
  by (simp add: cmd_mode_def Let_def active_marked_iff)

lemma active_marked_cmd_force:
  assumes "active_marked s"
  shows "active_marked (cmd_force uplink env s)"
proof (cases "uplink = ''auto''")
  case True
  let ?s1 = "s\<lparr>g_status := (g_status s)\<lparr>force_locked := False, switches_this_window := 0,
                                         state := STATE_NORMAL\<rparr>\<rparr>"
  have "active_marked ?s1"
    using assms by (simp add: active_marked_iff)
  then have "active_marked (execute_switch b (ce_verify env) (ce_now_sw env) ?s1)" for b
    by (rule active_marked_switch)
  with \<open>active_marked ?s1\<close> True show ?thesis
    by (simp add: cmd_force_def Let_def)
next
  case False
  show ?thesis
  proof (cases "uplink_by_name uplink")
    case None
    with False assms show ?thesis by (simp add: cmd_force_def)
  next
    case (Some i)
    let ?s1 = "update_uplink i (\<lambda>u. u\<lparr>force_failed := False, available := True\<rparr>) s"
    have "active_marked ?s1"
      using assms by (simp add: active_marked_iff)
    then have "active_marked (execute_switch i (ce_verify env) (ce_now_sw env) ?s1)"
      by (rule active_marked_switch)
    then have "active_marked
                 ((execute_switch i (ce_verify env) (ce_now_sw env) ?s1)
                    \<lparr>g_status := (g_status (execute_switch i (ce_verify env) (ce_now_sw env) ?s1))
                        \<lparr>force_locked := True\<rparr>\<rparr>)"
      by (simp add: active_marked_iff)
    with False Some show ?thesis
      by (simp add: cmd_force_def Let_def)
  qed
qed

lemma active_marked_cmd_uplink:
  assumes "active_marked s" and "\<And>u. is_active (f u) = is_active u"
  shows "active_marked (cmd_uplink uplink ev f s)"
  using assms
  by (cases "uplink_by_name uplink") (simp_all add: cmd_uplink_def active_marked_iff)

lemma active_marked_tripwire_fire [simp]:
  "active_marked (tripwire_fire reason detail now_dup now s) = active_marked s"
  by (rule active_marked_cong) simp_all

lemma active_marked_c8000:
  "active_marked s \<Longrightarrow> active_marked (snd (c8000_switch controller ret s))"
  by (simp add: c8000_switch_def Let_def active_marked_iff)

lemma active_marked_if:
  "active_marked a \<Longrightarrow> active_marked b \<Longrightarrow> active_marked (if c then a else b)"
  by simp

lemma active_marked_command:
  assumes "active_marked s"
  shows "active_marked (process_one_command cmd cmd_id env s)"
proof -
  let ?s0 = "s\<lparr>g_last_cmd_id := take 63 cmd_id\<rparr>"
  have s0: "active_marked ?s0"
    using assms by simp
  show ?thesis
    unfolding process_one_command_def Let_def active_marked_wrappers(2)
    by (intro active_marked_if)
       (simp_all add: assms active_marked_cmd_mode active_marked_cmd_force
          active_marked_cmd_uplink active_marked_c8000)
qed

lemma reachable_active_marked: "reachable conf s \<Longrightarrow> active_marked s"
proof (induction rule: reachable.induct)
  case r_start
  show ?case by (rule active_marked_startup)
next
  case (r_chaos s chaos)
  then show ?case by (simp add: active_marked_iff)
next
  case (r_poll s i env)
  then show ?case by (simp add: active_marked_iff)
next
  case (r_predict s)
  then show ?case by (simp add: active_marked_iff)
next
  case (r_fire s t now_dup now)
  then show ?case by simp
next
  case (r_arbitrate s now verify now_sw)
  then show ?case by (simp add: active_marked_arbitrate)
next
  case (r_protect s now)
  then show ?case by (simp add: active_marked_iff)
next
  case (r_command s cmd cmd_id env)
  then show ?case by (simp add: active_marked_command)
next
  case (r_shutdown s)
  then show ?case by (simp add: active_marked_iff)
qed

text \<open>
  Claim C2. In every state the daemon reaches after its start, exactly one uplink has
  \<open>is_active\<close> set, and it is the one \<open>active_uplink\<close> names. The start marks only
  \<^verbatim>\<open>cell_a\<close>. A verified \<open>execute_switch\<close> clears the flag of the old uplink and sets that
  of the target in one step, touching no other flag; one whose verification fails leaves
  every uplink unchanged. (Every other operation, the force command included, changes
  the flags only through \<open>execute_switch\<close>.)
\<close>

theorem exactly_one_active:
  assumes "reachable conf s"
  shows "active_count s = 1
       \<and> is_active (g_uplinks s (active_uplink (g_status s)))
       \<and> (\<forall>i. is_active (g_uplinks s i) \<longrightarrow> i = active_uplink (g_status s))
       \<and> (\<forall>i. is_active (g_uplinks (main_startup conf) i) = (i = UPLINK_CELL_A))
       \<and> (\<forall>i. is_active (g_uplinks (execute_switch target 0 now w) i)
                = (if i = target then True
                   else if i = active_uplink (g_status w) then False
                   else is_active (g_uplinks w i)))
       \<and> (verify \<noteq> 0 \<longrightarrow> g_uplinks (execute_switch target verify now w) = g_uplinks w)"
proof -
  have m: "active_marked s"
    using assms by (rule reachable_active_marked)
  have start: "active_marked (main_startup conf)"
    by (rule active_marked_startup)
  have "active_uplink (g_status (main_startup conf)) = UPLINK_CELL_A"
    by (simp add: main_startup_status status0_def)
  with start have init: "\<forall>i. is_active (g_uplinks (main_startup conf) i) = (i = UPLINK_CELL_A)"
    by (simp add: active_marked_iff)
  from m have "\<forall>i. is_active (g_uplinks s i) = (i = active_uplink (g_status s))"
    by (simp add: active_marked_iff)
  with active_marked_count [OF m] init show ?thesis
    by (simp add: execute_switch_ok execute_switch_fail)
qed

subsubsection \<open>The force command\<close>

lemma uplink_by_name_names [simp]: "uplink_by_name (UPLINK_NAMES i) = Some i"
  by (cases i) (simp_all add: uplink_by_name_def uplink_ids_def)

lemma force_named:
  assumes "cmd = ''force:'' @ UPLINK_NAMES i"
  shows "process_one_command cmd cmd_id env s =
     log_event ''cmd_result''
       (set_result ''exec''
          ((execute_switch i (ce_verify env) (ce_now_sw env)
              (update_uplink i (\<lambda>u. u\<lparr>force_failed := False, available := True\<rparr>)
                 (s\<lparr>g_last_cmd_id := take 63 cmd_id\<rparr>)))
           \<lparr>g_status :=
              (g_status (execute_switch i (ce_verify env) (ce_now_sw env)
                 (update_uplink i (\<lambda>u. u\<lparr>force_failed := False, available := True\<rparr>)
                    (s\<lparr>g_last_cmd_id := take 63 cmd_id\<rparr>))))
                \<lparr>force_locked := True\<rparr>\<rparr>))"
proof -
  have "UPLINK_NAMES i \<noteq> ''auto''"
    by (cases i) simp_all
  then show ?thesis
    unfolding assms by (simp add: process_one_command_def cmd_force_def Let_def)
qed

lemma force_named_status:
  assumes "cmd = ''force:'' @ UPLINK_NAMES i" "ce_verify env = 0"
  shows "g_status (process_one_command cmd cmd_id env s)
           = (g_status s)\<lparr>active_uplink := i,
                           switches_this_window := switches_this_window (g_status s) + 1,
                           switch_start_us := ce_now_sw env,
                           force_locked := True\<rparr>"
  unfolding force_named [OF assms(1)] using assms(2) by (simp add: execute_switch_ok)

lemma force_named_marks:
  assumes "cmd = ''force:'' @ UPLINK_NAMES i" "ce_verify env = 0"
  shows "is_active (g_uplinks (process_one_command cmd cmd_id env s) j)
           = (if j = i then True
              else if j = active_uplink (g_status s) then False
              else is_active (g_uplinks s j))"
  unfolding force_named [OF assms(1)] using assms(2) by (simp add: execute_switch_ok)

lemma forced_status:
  "g_status forced3_world
     = (g_status protect_world)\<lparr>active_uplink := UPLINK_CELL_B, switches_this_window := 3,
                                 switch_start_us := 1010000, force_locked := True\<rparr>"
  "g_status forced4_world
     = (g_status protect_world)\<lparr>active_uplink := UPLINK_CELL_A, switches_this_window := 4,
                                 switch_start_us := 1010000, force_locked := True\<rparr>"
proof -
  have v: "ce_verify force_env = 0" and t: "ce_now_sw force_env = 1010000"
    by (simp_all add: force_env_def)
  have a: "''force:cell_a'' = ''force:'' @ UPLINK_NAMES UPLINK_CELL_A"
    and b: "''force:cell_b'' = ''force:'' @ UPLINK_NAMES UPLINK_CELL_B"
    by simp_all
  note fa = force_named_status [OF a v] and fb = force_named_status [OF b v]
  show f3: "g_status forced3_world
     = (g_status protect_world)\<lparr>active_uplink := UPLINK_CELL_B, switches_this_window := 3,
                                 switch_start_us := 1010000, force_locked := True\<rparr>"
    unfolding forced3_world_def fa fb by (simp add: t)
  show "g_status forced4_world
     = (g_status protect_world)\<lparr>active_uplink := UPLINK_CELL_A, switches_this_window := 4,
                                 switch_start_us := 1010000, force_locked := True\<rparr>"
    unfolding forced4_world_def fa f3 by (simp add: t)
qed

lemma main_config_default [simp]: "main_config default_file = default_config"
  by (simp add: main_config_def config_load_def default_file_def)

lemma reachable_samples:
  "reachable default_file fa_up_world"
  "reachable default_file protect_world"
  "reachable default_file forced3_world"
  "reachable default_file forced4_world"
proof -
  show fa: "reachable default_file fa_up_world"
    unfolding fa_up_world_def by (intro r_poll r_start)
  have down: "tripwire_check (main_config default_file)
                (Some (g_uplinks fa_up_world (active_uplink (g_status fa_up_world))))
              = TRIGGER_LINK_DOWN"
    by (simp add: tripwire_check_def fa_up_world_def)
  show pr: "reachable default_file protect_world"
    using r_fire [OF fa, of TRIGGER_LINK_DOWN 1000000 1000000] down
    by (simp add: protect_world_def)
  show f3: "reachable default_file forced3_world"
    unfolding forced3_world_def by (intro r_command pr)
  show "reachable default_file forced4_world"
    unfolding forced4_world_def by (intro r_command f3)
qed

theorem exactly_one_active_witness:
  "reachable default_file forced3_world
   \<and> active_count forced3_world = 1
   \<and> active_uplink (g_status forced3_world) = UPLINK_CELL_B
   \<and> is_active (g_uplinks forced3_world UPLINK_CELL_B)
   \<and> \<not> is_active (g_uplinks forced3_world UPLINK_CELL_A)
   \<and> g_uplinks (execute_switch UPLINK_FIBER1 1 1700000 forced3_world) = g_uplinks forced3_world"
  using exactly_one_active [OF reachable_samples(3), of UPLINK_FIBER1 1700000 forced3_world 1]
  by (auto simp: reachable_samples forced_status)

subsection \<open>Flap suppression\<close>

lemma arbitrate_counter:
  "switches_this_window (g_status (slowpath_arbitrate cfg now verify now_sw s))
     = (if \<not> settle_wait now s \<and> \<not> preroll_wait cfg now s
           \<and> switches_this_window (g_status s) < 3
           \<and> select_best_uplink s \<noteq> active_uplink (g_status s) \<and> verify = 0
        then switches_this_window (g_status s) + 1
        else switches_this_window (g_status s))"
  by (cases "verify = 0") (simp_all add: arbitrate_cases execute_switch_ok execute_switch_fail)

lemma arbitrate_suppressed:
  assumes "switches_this_window (g_status s) \<ge> 3"
  shows "active_uplink (g_status (slowpath_arbitrate cfg now verify now_sw s))
           = active_uplink (g_status s)"
    and "g_uplinks (slowpath_arbitrate cfg now verify now_sw s) = g_uplinks s"
    and "''switch'' \<notin> set (new_events s (slowpath_arbitrate cfg now verify now_sw s))"
    and "\<not> settle_wait now s \<Longrightarrow> \<not> preroll_wait cfg now s \<Longrightarrow>
         flap_suppressed (g_status (slowpath_arbitrate cfg now verify now_sw s))"
  using assms by (simp_all add: arbitrate_cases new_events_def engage_log)

lemma unattended_counter:
  "unattended conf s \<Longrightarrow>
   0 \<le> switches_this_window (g_status s) \<and> switches_this_window (g_status s) \<le> 3"
proof (induction rule: unattended.induct)
  case u_start
  show ?case by (simp add: main_startup_status status0_def)
next
  case (u_arbitrate s now verify now_sw)
  then show ?case by (simp add: arbitrate_counter)
qed simp_all

lemma unattended_reachable: "unattended conf s \<Longrightarrow> reachable conf s"
  by (induction rule: unattended.induct) (auto intro: reachable.intros)

text \<open>
  Claim C4, as the code has it. \<open>tripwire_fire\<close> zeroes \<open>switches_this_window\<close>. An
  arbitration never lowers the counter and raises it by at most one, and only from a
  value below 3, so it never takes it above 3. When it runs with the counter at 3 or more
  it executes no switch (active uplink, uplinks and counter unchanged, no \<open>switch\<close> event),
  and it sets \<open>flap_suppressed\<close> if neither the settle wait nor the preroll wait holds;
  during either wait it returns before the flap check. Polling, the chaos reader, the
  prediction tick and the protection tick leave the counter unchanged. So in every state
  reached without operator commands the counter lies between 0 and 3. (The command
  \<^verbatim>\<open>force:<name>\<close> calls \<open>execute_switch\<close> without this cap.)
\<close>

theorem flap_suppression:
  "switches_this_window (g_status (tripwire_fire reason detail now_dup now0 s)) = 0
   \<and> switches_this_window (g_status s)
       \<le> switches_this_window (g_status (slowpath_arbitrate cfg now verify now_sw s))
   \<and> switches_this_window (g_status (slowpath_arbitrate cfg now verify now_sw s))
       \<le> switches_this_window (g_status s) + 1
   \<and> (switches_this_window (g_status s) \<le> 3 \<longrightarrow>
        switches_this_window (g_status (slowpath_arbitrate cfg now verify now_sw s)) \<le> 3)
   \<and> (switches_this_window (g_status s) \<ge> 3 \<longrightarrow>
        active_uplink (g_status (slowpath_arbitrate cfg now verify now_sw s))
          = active_uplink (g_status s)
        \<and> g_uplinks (slowpath_arbitrate cfg now verify now_sw s) = g_uplinks s
        \<and> switches_this_window (g_status (slowpath_arbitrate cfg now verify now_sw s))
            = switches_this_window (g_status s)
        \<and> ''switch'' \<notin> set (new_events s (slowpath_arbitrate cfg now verify now_sw s)))
   \<and> (switches_this_window (g_status s) \<ge> 3 \<and> \<not> settle_wait now s
        \<and> \<not> preroll_wait cfg now s \<longrightarrow>
        flap_suppressed (g_status (slowpath_arbitrate cfg now verify now_sw s)))
   \<and> switches_this_window (g_status (update_uplink i (uplink_poll env) s))
       = switches_this_window (g_status s)
   \<and> switches_this_window (g_status (chaos_read chaos s)) = switches_this_window (g_status s)
   \<and> switches_this_window (g_status (prediction_tick s)) = switches_this_window (g_status s)
   \<and> switches_this_window (g_status (protection_tick cfg now s))
       = switches_this_window (g_status s)
   \<and> (unattended conf w \<longrightarrow>
        0 \<le> switches_this_window (g_status w) \<and> switches_this_window (g_status w) \<le> 3)"
  using unattended_counter [of conf w]
    arbitrate_suppressed [where s = s and cfg = cfg and now = now and verify = verify
                            and now_sw = now_sw]
  by (simp add: arbitrate_counter)

lemma forced3_waits:
  "settle_wait 1020000 forced3_world"
  "\<not> settle_wait 1600000 forced3_world"
  "\<not> preroll_wait default_config 1600000 forced3_world"
  by (simp_all add: settle_wait_us preroll_wait_def forced_status default_config_def c_div_def
        DEFAULT_PREROLL_MS_def)

theorem flap_suppression_counterexample:
  "reachable default_file forced3_world
   \<and> state (g_status forced3_world) = STATE_PROTECT
   \<and> switches_this_window (g_status forced3_world) = 3
   \<and> \<not> flap_suppressed (g_status (slowpath_arbitrate default_config 1020000 0 1020000
                                      forced3_world))
   \<and> reachable default_file forced4_world
   \<and> state (g_status forced4_world) = STATE_PROTECT
   \<and> switches_this_window (g_status forced4_world) = 4"
  by (simp add: reachable_samples forced_status arbitrate_cases forced3_waits
        protect_world_eq)

lemma unattended_protect_world: "unattended default_file protect_world"
proof -
  have fa: "unattended default_file fa_up_world"
    unfolding fa_up_world_def by (intro u_poll u_start)
  have down: "tripwire_check (main_config default_file)
                (Some (g_uplinks fa_up_world (active_uplink (g_status fa_up_world))))
              = TRIGGER_LINK_DOWN"
    by (simp add: tripwire_check_def fa_up_world_def)
  show ?thesis
    using u_fire [OF fa, of TRIGGER_LINK_DOWN 1000000 1000000] down
    by (simp add: protect_world_def)
qed

theorem flap_suppression_witness:
  "switches_this_window (g_status forced3_world) = 3
   \<and> flap_suppressed (g_status (slowpath_arbitrate default_config 1600000 0 1600000
                                   forced3_world))
   \<and> active_uplink (g_status (slowpath_arbitrate default_config 1600000 0 1600000
                                 forced3_world)) = UPLINK_CELL_B
   \<and> switches_this_window (g_status (slowpath_arbitrate default_config 1600000 0 1600000
                                        forced3_world)) = 3
   \<and> unattended default_file protect_world
   \<and> switches_this_window (g_status protect_world) = 0
   \<and> switches_this_window (g_status (slowpath_arbitrate default_config 1600000 0 1600000
                                        protect_world)) = 1"
  using flap_suppression [of TRIGGER_MANUAL None 0 0 forced3_world default_config 1600000 0
          1600000 UPLINK_CELL_A "probe_at 0 1" None default_file protect_world]
    flap_suppression [of TRIGGER_MANUAL None 0 0 protect_world default_config 1600000 0
          1600000 UPLINK_CELL_A "probe_at 0 1" None default_file protect_world]
  by (simp add: forced_status forced3_waits unattended_protect_world arbitrate_counter
        protect_world_waits protect_world_best)

subsection \<open>The tripwire\<close>

lemma take3_newest_first:
  assumes "history_idx u \<ge> 5"
  shows "take 3 (newest_first u)
           = [history u (nat (c_mod (history_idx u - 1 - 0) HISTORY_SIZE)),
              history u (nat (c_mod (history_idx u - 1 - 1) HISTORY_SIZE)),
              history u (nat (c_mod (history_idx u - 1 - 2) HISTORY_SIZE))]"
proof -
  have n: "3 \<le> nat (min (history_idx u) HISTORY_SIZE)"
    using assms by (simp add: HISTORY_SIZE_def)
  have "take 3 [0 ..< nat (min (history_idx u) HISTORY_SIZE)] = [0, 1, 2]"
  proof -
    have "take 3 [0 ..< nat (min (history_idx u) HISTORY_SIZE)] = [0 ..< 3]"
      using n by (simp add: take_upt)
    also have "\<dots> = [0, 1, 2]"
      by (simp add: upt_rec)
    finally show ?thesis .
  qed
  then have "take 3 (newest_first u)
               = map (\<lambda>k. history u (nat ((history_idx u - 1 - int k) mod HISTORY_SIZE)))
                   [0, 1, 2]"
    by (simp add: newest_first_def take_map)
  moreover have "c_mod (history_idx u - 1) HISTORY_SIZE = (history_idx u - 1) mod HISTORY_SIZE"
    "c_mod (history_idx u - 2) HISTORY_SIZE = (history_idx u - 2) mod HISTORY_SIZE"
    "c_mod (history_idx u - 3) HISTORY_SIZE = (history_idx u - 3) mod HISTORY_SIZE"
    using assms by (simp_all add: c_mod_nonneg HISTORY_SIZE_def)
  ultimately show ?thesis by simp
qed

lemma recent_samples_filter:
  "recent_samples u
     = (foldl fadd (D_fin 0) (map pr_rtt_ms (filter pr_success
          [history u (nat (c_mod (history_idx u - 1 - 0) HISTORY_SIZE)),
           history u (nat (c_mod (history_idx u - 1 - 1) HISTORY_SIZE)),
           history u (nat (c_mod (history_idx u - 1 - 2) HISTORY_SIZE))])),
        int (length (filter pr_success
          [history u (nat (c_mod (history_idx u - 1 - 0) HISTORY_SIZE)),
           history u (nat (c_mod (history_idx u - 1 - 1) HISTORY_SIZE)),
           history u (nat (c_mod (history_idx u - 1 - 2) HISTORY_SIZE))])))"
  by (simp add: recent_samples_def recent_step_def Let_def)

lemma rtt_rule_of_code:
  "(history_idx u \<ge> 5 \<and> snd (recent_samples u) > 0
    \<and> fge (fsub (fdiv (fst (recent_samples u)) (double_of_int (snd (recent_samples u))))
                (rtt_baseline u))
          (double_of_int (rtt_step_ms cfg)))
   = rtt_step_successful_of_last3 cfg u"
proof (cases "history_idx u \<ge> 5")
  case True
  show ?thesis
    unfolding rtt_step_successful_of_last3_def Let_def take3_newest_first [OF True]
      recent_samples_filter mean_rtt_def
    using True by auto
next
  case False
  then show ?thesis
    by (simp add: rtt_step_successful_of_last3_def Let_def)
qed

text \<open>
  Claim C6, as the code has it. \<open>tripwire_check\<close> is the first-match list of the
  specification, with rule 2 reading: the history holds at least 5 samples, at least one
  of the last 3 samples was successful, and the mean RTT of the successful ones among
  those last 3 samples exceeds \<open>rtt_baseline\<close> by at least \<open>rtt_step_ms\<close>. (Not: the mean
  over the last 3 successful samples, which may lie further back.) The mean and the
  difference are the ones double arithmetic gives: the samples are summed from the newest
  to the oldest, starting from 0, the sum is divided by their number, the baseline is
  subtracted, and each of these operations is rounded.
\<close>

theorem tripwire_check_rules:
  "tripwire_check cfg active_ptr = tripwire_rules rtt_step_successful_of_last3 cfg active_ptr"
proof (cases active_ptr)
  case None
  then show ?thesis
    by (simp add: tripwire_check_def tripwire_rules_def)
next
  case (Some u)
  show ?thesis
    unfolding Some tripwire_check_def tripwire_rules_def option.case
      rtt_rule_of_code [of u cfg]
    by simp
qed

lemma uplink_poll_chaos [simp]:
  "chaos_rtt (uplink_poll env u) = chaos_rtt u"
  "chaos_jitter (uplink_poll env u) = chaos_jitter u"
proof -
  have k: "chaos_rtt (poll_kind env v) = chaos_rtt v"
    "chaos_jitter (poll_kind env v) = chaos_jitter v" for v
    by (simp_all add: poll_kind_def cellular_poll_def starlink_poll_def Let_def
          split: cell_result.splits sl_result.splits)
  have l: "chaos_rtt (poll_loss v) = chaos_rtt v"
    "chaos_jitter (poll_loss v) = chaos_jitter v" for v
    by (simp_all add: poll_loss_def Let_def)
  have m: "chaos_rtt (poll_metrics env v) = chaos_rtt v"
    "chaos_jitter (poll_metrics env v) = chaos_jitter v" for v
    by (simp_all add: poll_metrics_def Let_def)
  show "chaos_rtt (uplink_poll env u) = chaos_rtt u"
    "chaos_jitter (uplink_poll env u) = chaos_jitter u"
    by (simp_all add: uplink_poll_def k l m)
qed

lemma probe_at_fields [simp]:
  "pe_rtt (probe_at t rtt) = D_fin rtt"
  "pe_start (probe_at t rtt) = t"
  "pe_rand1 (probe_at t rtt) = D_fin (1 / 2)"
  "pe_rand2 (probe_at t rtt) = D_fin (1 / 2)"
  "pe_cell (probe_at t rtt) = Cell_skipped"
  "pe_sl (probe_at t rtt) = Sl_failed"
  by (simp_all add: probe_at_def)

text \<open>
  A probe of an enabled uplink whose chaos values are zero, answered after \<open>rtt\<close>
  milliseconds, where \<open>rtt\<close> is a double.
\<close>

lemma plain_probe:
  assumes "enabled u" "chaos_rtt u = D_fin 0" "chaos_jitter u = D_fin 0"
    and "0 \<le> history_idx u" "history_idx u < 100" "round_double rtt = D_fin rtt"
  shows "history_idx (uplink_poll (probe_at t rtt) u) = history_idx u + 1"
    and "history (uplink_poll (probe_at t rtt) u)
           = (history u)(nat (history_idx u)
                := \<lparr>pr_rtt_ms = D_fin rtt, pr_success = (0 < rtt), pr_timestamp_us = t\<rparr>)"
    and "enabled (uplink_poll (probe_at t rtt) u)"
    and "chaos_rtt (uplink_poll (probe_at t rtt) u) = D_fin 0"
    and "chaos_jitter (uplink_poll (probe_at t rtt) u) = D_fin 0"
  using assms chaos_jitter_term_half [of u 0]
  by (simp_all add: uplink_poll_history c_mod_nonneg HISTORY_SIZE_def fgt_def)

text \<open>The baseline after a second answer of 30 ms, and after an answer of 200 ms.\<close>

lemma baseline_samples:
  "fadd (fmul (D_fin 30) (double_lit 0.95)) (fmul (D_fin 30) (double_lit 0.05)) = D_fin 30"
  "fadd (fmul (D_fin 30) (double_lit 0.95)) (fmul (D_fin 200) (double_lit 0.05))
     = D_fin (77 / 2)"
  by (simp_all add: fp_eval)

lemma step_uplink_fields:
  "enabled step_uplink"
  "available step_uplink"
  "uplink_type step_uplink = UPLINK_TYPE_FIBER"
  "history_idx step_uplink = 5"
  "consec_fail step_uplink = 0"
  "rtt_baseline step_uplink = D_fin (77 / 2)"
  "history step_uplink 4
     = \<lparr>pr_rtt_ms = D_fin 200, pr_success = True, pr_timestamp_us = 500000\<rparr>"
  "history step_uplink 3
     = \<lparr>pr_rtt_ms = D_fin (- 1), pr_success = False, pr_timestamp_us = 400000\<rparr>"
  "history step_uplink 2
     = \<lparr>pr_rtt_ms = D_fin (- 1), pr_success = False, pr_timestamp_us = 300000\<rparr>"
  "history step_uplink (Suc 0)
     = \<lparr>pr_rtt_ms = D_fin 30, pr_success = True, pr_timestamp_us = 200000\<rparr>"
  "history step_uplink 0
     = \<lparr>pr_rtt_ms = D_fin 30, pr_success = True, pr_timestamp_us = 100000\<rparr>"
proof -
  define u0 where "u0 = uplinks_table UPLINK_FIBER1"
  define u1 where "u1 = uplink_poll (probe_at 100000 30) u0"
  define u2 where "u2 = uplink_poll (probe_at 200000 30) u1"
  define u3 where "u3 = uplink_poll (probe_at 300000 (- 1)) u2"
  define u4 where "u4 = uplink_poll (probe_at 400000 (- 1)) u3"
  have su: "step_uplink = uplink_poll (probe_at 500000 200) u4"
    by (simp add: step_uplink_def u4_def u3_def u2_def u1_def u0_def)
  note rs = round_double_samples
  have e0: "enabled u0" "chaos_rtt u0 = D_fin 0" "chaos_jitter u0 = D_fin 0"
    "history_idx u0 = 0"
    by (simp_all add: u0_def)
  note p1 = plain_probe [of u0 30 100000, folded u1_def]
  have h1: "history_idx u1 = 1" "enabled u1" "chaos_rtt u1 = D_fin 0"
    "chaos_jitter u1 = D_fin 0"
    "history u1 = (history u0)
       (0 := \<lparr>pr_rtt_ms = D_fin 30, pr_success = True, pr_timestamp_us = 100000\<rparr>)"
    using p1 e0 by (simp_all add: rs)
  note p2 = plain_probe [of u1 30 200000, folded u2_def]
  have h2: "history_idx u2 = 2" "enabled u2" "chaos_rtt u2 = D_fin 0"
    "chaos_jitter u2 = D_fin 0"
    "history u2 = (history u1)
       (Suc 0 := \<lparr>pr_rtt_ms = D_fin 30, pr_success = True, pr_timestamp_us = 200000\<rparr>)"
    using p2 h1 by (simp_all add: rs)
  note p3 = plain_probe [of u2 "- 1" 300000, folded u3_def]
  have h3: "history_idx u3 = 3" "enabled u3" "chaos_rtt u3 = D_fin 0"
    "chaos_jitter u3 = D_fin 0"
    "history u3 = (history u2)
       (2 := \<lparr>pr_rtt_ms = D_fin (- 1), pr_success = False, pr_timestamp_us = 300000\<rparr>)"
    using p3 h2 by (simp_all add: rs)
  note p4 = plain_probe [of u3 "- 1" 400000, folded u4_def]
  have h4: "history_idx u4 = 4" "enabled u4" "chaos_rtt u4 = D_fin 0"
    "chaos_jitter u4 = D_fin 0"
    "history u4 = (history u3)
       (3 := \<lparr>pr_rtt_ms = D_fin (- 1), pr_success = False, pr_timestamp_us = 400000\<rparr>)"
    using p4 h3 by (simp_all add: rs)
  note p5 = plain_probe [of u4 200 500000, folded su]
  have h5: "history_idx step_uplink = 5" "enabled step_uplink"
    "history step_uplink = (history u4)
       (4 := \<lparr>pr_rtt_ms = D_fin 200, pr_success = True, pr_timestamp_us = 500000\<rparr>)"
    using p5 h4 by (simp_all add: rs)
  have b1: "rtt_baseline u1 = D_fin 30"
    using uplink_poll_success(4) [of u0 "probe_at 100000 30"] e0
    by (simp add: u1_def u0_def fgt_def feq_def)
  have b2: "rtt_baseline u2 = D_fin 30"
    using uplink_poll_success(4) [of u1 "probe_at 200000 30"] h1 b1
    by (simp add: u2_def fp_eval)
  have b3: "rtt_baseline u3 = D_fin 30"
    using uplink_poll_failure(4) [of u2 "probe_at 300000 (- 1)"] h2 b2
    by (simp add: u3_def fgt_def)
  have b4: "rtt_baseline u4 = D_fin 30"
    using uplink_poll_failure(4) [of u3 "probe_at 400000 (- 1)"] h3 b3
    by (simp add: u4_def fgt_def)
  show "rtt_baseline step_uplink = D_fin (77 / 2)"
    using uplink_poll_success(4) [of u4 "probe_at 500000 200"] h4 b4
    by (simp add: su fp_eval)
  show "consec_fail step_uplink = 0"
    using uplink_poll_success(3) [of u4 "probe_at 500000 200"] h4
    by (simp add: su fgt_def)
  have "\<not> force_failed u4"
    by (simp add: u4_def u3_def u2_def u1_def u0_def)
  then show "available step_uplink"
    using uplink_poll_success(1) [of u4 "probe_at 500000 200"] h4
    by (simp add: su fgt_def)
  show "uplink_type step_uplink = UPLINK_TYPE_FIBER"
    by (simp add: su u4_def u3_def u2_def u1_def u0_def)
  show "enabled step_uplink" "history_idx step_uplink = 5"
    by (fact h5)+
  show "history step_uplink 4
          = \<lparr>pr_rtt_ms = D_fin 200, pr_success = True, pr_timestamp_us = 500000\<rparr>"
    "history step_uplink 3
       = \<lparr>pr_rtt_ms = D_fin (- 1), pr_success = False, pr_timestamp_us = 400000\<rparr>"
    "history step_uplink 2
       = \<lparr>pr_rtt_ms = D_fin (- 1), pr_success = False, pr_timestamp_us = 300000\<rparr>"
    "history step_uplink (Suc 0)
       = \<lparr>pr_rtt_ms = D_fin 30, pr_success = True, pr_timestamp_us = 200000\<rparr>"
    "history step_uplink 0
       = \<lparr>pr_rtt_ms = D_fin 30, pr_success = True, pr_timestamp_us = 100000\<rparr>"
    by (simp_all add: h5 h4 h3 h2 h1)
qed

lemma step_uplink_newest:
  "newest_first step_uplink
     = [history step_uplink 4, history step_uplink 3, history step_uplink 2,
        history step_uplink (Suc 0), history step_uplink 0]"
proof -
  have "[0 ..< nat (min (history_idx step_uplink) HISTORY_SIZE)] = [0, 1, 2, 3, 4]"
    by (simp add: step_uplink_fields HISTORY_SIZE_def upt_rec)
  then show ?thesis
    by (simp add: newest_first_def step_uplink_fields HISTORY_SIZE_def)
qed

lemma default_config_fields [simp]:
  "rtt_step_ms default_config = 80"
  "probe_miss_count default_config = 2"
  "preroll_ms default_config = 500"
  "min_hold_sec default_config = 3"
  "clean_exit_sec default_config = 2"
  "sample_rate_hz default_config = 10"
  by (simp_all add: default_config_def DEFAULT_RTT_STEP_MS_def DEFAULT_PROBE_MISS_COUNT_def
        DEFAULT_PREROLL_MS_def DEFAULT_MIN_HOLD_SEC_def DEFAULT_CLEAN_EXIT_SEC_def)

text \<open>
  The newest sample alone: \<open>200 / 1 - 38.5 = 161.5\<close>. The last three successful samples:
  \<open>(200 + 30 + 30) / 3 - 38.5\<close>, about 48.17.
\<close>

lemma step_uplink_means:
  "fsub (fdiv (fadd (D_fin 0) (D_fin 200)) (double_of_int 1)) (D_fin (77 / 2))
     = D_fin (323 / 2)"
  "fsub (fdiv (fadd (fadd (fadd (D_fin 0) (D_fin 200)) (D_fin 30)) (D_fin 30))
           (double_of_int 3)) (D_fin (77 / 2))
     = D_fin (3389427844557483 / 70368744177664)"
  "double_of_int 80 = D_fin 80"
  by (simp_all add: fp_eval)

text \<open>
  Rounding decides at the threshold. After answers of 20, 20, none, 106 and 111.3 ms the
  baseline is the double 28.650000000000002, and the mean of the two newest answers minus
  the baseline is rounded to 80: the rule fires. After answers of 40.5, 40.5, none, 108.5
  and 149.9 ms the baseline is the double nearest to 49.2, and the difference is the double
  below 80, where real numbers give 80: the rule does not fire.
\<close>

lemma rounded_step_at_threshold:
  "fadd (fmul (fadd (fmul (D_fin 20) (double_lit 0.95)) (fmul (D_fin 106) (double_lit 0.05)))
           (double_lit 0.95))
     (fmul (double_lit 111.3) (double_lit 0.05))
     = D_fin (8064258082760295 / 281474976710656)"
  "fsub (fdiv (fadd (fadd (D_fin 0) (double_lit 111.3)) (D_fin 106)) (double_of_int 2))
     (D_fin (8064258082760295 / 281474976710656))
     = D_fin 80"
  "fadd (fmul (fadd (fmul (D_fin (81 / 2)) (double_lit 0.95))
                 (fmul (D_fin (217 / 2)) (double_lit 0.05)))
           (double_lit 0.95))
     (fmul (double_lit 149.9) (double_lit 0.05))
     = D_fin (3462142213541069 / 70368744177664)"
  "fsub (fdiv (fadd (fadd (D_fin 0) (double_lit 149.9)) (D_fin (217 / 2))) (double_of_int 2))
     (D_fin (3462142213541069 / 70368744177664))
     = D_fin (5629499534213119 / 70368744177664)"
  by (simp_all add: fp_eval)

lemma step_uplink_rules:
  "rtt_step_successful_of_last3 default_config step_uplink"
  "\<not> rtt_step_last3_successful default_config step_uplink"
  by (simp_all add: rtt_step_successful_of_last3_def rtt_step_last3_successful_def Let_def
        step_uplink_newest step_uplink_fields mean_rtt_def fp_eval)

theorem tripwire_last3_counterexample:
  "map pr_success (newest_first step_uplink) = [True, False, False, True, True]
   \<and> map pr_rtt_ms (filter pr_success (newest_first step_uplink))
       = [D_fin 200, D_fin 30, D_fin 30]
   \<and> rtt_baseline step_uplink = D_fin (77 / 2)
   \<and> tripwire_check default_config (Some step_uplink) = TRIGGER_RTT_STEP
   \<and> tripwire_rules rtt_step_last3_successful default_config (Some step_uplink)
       = TRIGGER_NONE"
proof -
  have code: "tripwire_check default_config (Some step_uplink) = TRIGGER_RTT_STEP"
    using step_uplink_rules(1)
    unfolding tripwire_check_def option.case rtt_rule_of_code [of step_uplink default_config]
    by (simp add: step_uplink_fields)
  have spec: "tripwire_rules rtt_step_last3_successful default_config (Some step_uplink)
                = TRIGGER_NONE"
    by (simp add: tripwire_rules_def step_uplink_rules step_uplink_fields)
  show ?thesis
    using code spec by (simp add: step_uplink_newest step_uplink_fields)
qed

lemma rtt_step_short_history:
  "history_idx u < 5 \<Longrightarrow> \<not> rtt_step_successful_of_last3 cfg u"
  by (simp add: rtt_step_successful_of_last3_def Let_def)

theorem tripwire_check_rules_witness:
  "tripwire_check default_config (Some step_uplink) = TRIGGER_RTT_STEP
   \<and> tripwire_check default_config None = TRIGGER_LINK_DOWN
   \<and> tripwire_check default_config (Some (uplinks_table UPLINK_CELL_A)) = TRIGGER_LINK_DOWN
   \<and> tripwire_check default_config
         (Some (step_uplink\<lparr>history_idx := 4, consec_fail := 2\<rparr>)) = TRIGGER_PROBE_MISS
   \<and> tripwire_check default_config
         (Some (step_uplink\<lparr>history_idx := 4, uplink_type := UPLINK_TYPE_LTE,
                  cellular := (cellular step_uplink)\<lparr>rsrp := D_fin (- 121)\<rparr>\<rparr>)) = TRIGGER_RSRP_DROP
   \<and> tripwire_check default_config
         (Some (step_uplink\<lparr>history_idx := 4, uplink_type := UPLINK_TYPE_STARLINK,
                  starlink := (starlink step_uplink)\<lparr>obstructed := False,
                                                       obstruction_eta := 3\<rparr>\<rparr>))
       = TRIGGER_STARLINK_OBSTR
   \<and> tripwire_check default_config (Some (step_uplink\<lparr>history_idx := 4\<rparr>)) = TRIGGER_NONE"
  using tripwire_check_rules [of default_config "Some step_uplink"]
    tripwire_check_rules [of default_config None]
    tripwire_check_rules [of default_config "Some (uplinks_table UPLINK_CELL_A)"]
    tripwire_check_rules
      [of default_config "Some (step_uplink\<lparr>history_idx := 4, consec_fail := 2\<rparr>)"]
    tripwire_check_rules
      [of default_config
          "Some (step_uplink\<lparr>history_idx := 4, uplink_type := UPLINK_TYPE_LTE,
                   cellular := (cellular step_uplink)\<lparr>rsrp := D_fin (- 121)\<rparr>\<rparr>)"]
    tripwire_check_rules
      [of default_config
          "Some (step_uplink\<lparr>history_idx := 4, uplink_type := UPLINK_TYPE_STARLINK,
                   starlink := (starlink step_uplink)\<lparr>obstructed := False,
                                                        obstruction_eta := 3\<rparr>\<rparr>)"]
    tripwire_check_rules [of default_config "Some (step_uplink\<lparr>history_idx := 4\<rparr>)"]
  by (simp add: tripwire_rules_def step_uplink_rules step_uplink_fields
        rtt_step_short_history)

subsection \<open>The loss percentage\<close>

lemma loss_loop_counts:
  "0 \<le> fst acc \<Longrightarrow> fst acc \<le> snd acc \<Longrightarrow>
   0 \<le> fst (loss_loop n u i acc) \<and> fst (loss_loop n u i acc) \<le> snd (loss_loop n u i acc)"
  by (induction n u i acc rule: loss_loop.induct) simp_all

text \<open>Rounding keeps the sign: a value that is not negative rounds to one that is not.\<close>

lemma scale_down_nonneg: "0 \<le> m \<Longrightarrow> 0 \<le> fst (scale_down m e)"
proof (induction m e rule: scale_down.induct)
  case (1 m e)
  then show ?case
    by (subst scale_down.simps) simp
qed

lemma scale_up_nonneg: "0 \<le> m \<Longrightarrow> 0 \<le> fst (scale_up m e)"
proof (induction m e rule: scale_up.induct)
  case (1 m e)
  then show ?case
    by (subst scale_up.simps) simp
qed

lemma round_half_even_nonneg: "0 \<le> x \<Longrightarrow> 0 \<le> round_half_even x"
  by (simp add: round_half_even_def Let_def)

lemma round_double_nonneg: "0 \<le> x \<Longrightarrow> fge (round_double x) (D_fin 0)"
proof (cases "x = 0")
  case True
  then show ?thesis
    by (simp add: fge_def feq_def)
next
  case False
  assume "0 \<le> x"
  with False have pos: "0 < x" by simp
  define me where "me = scale_up (fst (scale_down \<bar>x\<bar> 0)) (snd (scale_down \<bar>x\<bar> 0))"
  define n where "n = round_half_even (fst me)"
  define y :: real where
    "y = (if 0 \<le> snd me then of_int n * 2 ^ nat (snd me) else of_int n / 2 ^ nat (- snd me))"
  have "0 \<le> fst me"
    unfolding me_def by (intro scale_up_nonneg scale_down_nonneg) simp
  then have "0 \<le> n"
    unfolding n_def by (rule round_half_even_nonneg)
  then have "0 \<le> y"
    by (simp add: y_def)
  moreover have "round_double x = (if 2 ^ 1024 \<le> y then D_pinf else D_fin y)"
    using pos by (simp add: round_double_def Let_def me_def n_def y_def)
  ultimately show ?thesis
    by (auto simp: fge_def feq_def)
qed

lemma nonneg_cases:
  "fge x (D_fin 0) = (x = D_pinf \<or> (\<exists>a. x = D_fin a \<and> 0 \<le> a))"
  by (cases x) (auto simp: fge_def feq_def)

lemma nonneg_inf [simp]: "fge D_pinf (D_fin 0)"
  by (simp add: fge_def)

lemma fadd_nonneg: "fge x (D_fin 0) \<Longrightarrow> fge y (D_fin 0) \<Longrightarrow> fge (fadd x y) (D_fin 0)"
  using round_double_nonneg by (auto simp: nonneg_cases [of x] nonneg_cases [of y])

lemma loss_loop_total: "snd (loss_loop n u i acc) \<le> snd acc + int n"
  by (induction n u i acc rule: loss_loop.induct) auto

text \<open>The counts of the loss loop are converted without rounding.\<close>

lemma double_of_int_small:
  assumes "0 \<le> n" "n \<le> 20"
  shows "double_of_int n = D_fin (of_int n)"
proof -
  have "n \<in> {0, 1, 2, 3, 4, 5, 6, 7, 8, 9, 10, 11, 12, 13, 14, 15, 16, 17, 18, 19, 20}"
    using assms by simp presburger
  then show ?thesis
    by (elim insertE emptyE) (simp_all add: fp_eval)
qed

lemma loss_quotient_nonneg:
  assumes "0 \<le> k" "k \<le> 20" "0 < n" "n \<le> 20"
  shows "fge (fdiv (fmul (D_fin 100) (double_of_int k)) (double_of_int n)) (D_fin 0)"
proof -
  have "fge (round_double (100 * of_int k)) (D_fin 0)"
    using assms(1) by (intro round_double_nonneg) simp
  then show ?thesis
    using assms round_double_nonneg
    by (auto simp: double_of_int_small nonneg_cases [of "round_double (100 * of_int k)"])
qed

text \<open>
  The clamp of \<open>uplink_poll\<close> bounds the loss percentage from above only: a computed loss
  is never greater than 100. From below it is bounded when the injected loss is not
  negative.
\<close>

lemma poll_loss_bounds:
  "\<not> fgt (loss_pct u) (D_fin 100) \<Longrightarrow> \<not> fgt (loss_pct (poll_loss u)) (D_fin 100)"
  "fge (loss_pct u) (D_fin 0) \<Longrightarrow> fge (chaos_loss u) (D_fin 0) \<Longrightarrow>
   fge (loss_pct (poll_loss u)) (D_fin 0)"
proof -
  define r where "r = loss_loop 20 u 0 (0, 0)"
  have c: "0 \<le> fst r" "fst r \<le> snd r" "snd r \<le> 20"
    using loss_loop_counts [of "(0, 0)" 20 u 0] loss_loop_total [of 20 u 0 "(0, 0)"]
    by (simp_all add: r_def)
  show "\<not> fgt (loss_pct u) (D_fin 100) \<Longrightarrow> \<not> fgt (loss_pct (poll_loss u)) (D_fin 100)"
    by (simp add: poll_loss_def Let_def fgt_def)
  assume a: "fge (loss_pct u) (D_fin 0)" "fge (chaos_loss u) (D_fin 0)"
  have "fge (fadd (fdiv (fmul (D_fin 100) (double_of_int (snd r - fst r)))
                     (double_of_int (snd r))) (chaos_loss u)) (D_fin 0)"
    if "0 < snd r"
    using c that a(2) by (intro fadd_nonneg loss_quotient_nonneg) simp_all
  moreover have "fge (D_fin 100) (D_fin 0)"
    by (simp add: fge_def)
  ultimately show "fge (loss_pct (poll_loss u)) (D_fin 0)"
    using a(1) by (simp add: poll_loss_def Let_def r_def [symmetric])
qed

lemma uplink_poll_loss_bounds:
  "\<not> fgt (loss_pct u) (D_fin 100) \<Longrightarrow> \<not> fgt (loss_pct (uplink_poll env u)) (D_fin 100)"
  "fge (loss_pct u) (D_fin 0) \<Longrightarrow> fge (chaos_loss u) (D_fin 0) \<Longrightarrow>
   fge (loss_pct (uplink_poll env u)) (D_fin 0)"
proof -
  have m: "loss_pct (poll_metrics env v) = loss_pct v" for v
    by (simp add: poll_metrics_def Let_def)
  show "\<not> fgt (loss_pct u) (D_fin 100) \<Longrightarrow> \<not> fgt (loss_pct (uplink_poll env u)) (D_fin 100)"
    using poll_loss_bounds(1) [of "poll_metrics env (poll_record env u)"]
    by (simp add: uplink_poll_def m)
  show "fge (loss_pct u) (D_fin 0) \<Longrightarrow> fge (chaos_loss u) (D_fin 0) \<Longrightarrow>
        fge (loss_pct (uplink_poll env u)) (D_fin 0)"
    using poll_loss_bounds(2) [of "poll_metrics env (poll_record env u)"]
    by (simp add: uplink_poll_def m)
qed

lemma negative_chaos_uplink:
  "g_uplinks (chaos_read (Some negative_chaos) (main_startup default_file)) UPLINK_FIBER1
     = (uplinks_table UPLINK_FIBER1)
         \<lparr>chaos_rtt := D_fin 0, chaos_jitter := D_fin 0, chaos_loss := D_fin (- 5)\<rparr>"
  by (simp add: chaos_read_def chaos_apply_def negative_chaos_def Let_def)

text \<open>
  Claim C8 at a failing input. The chaos file asks for a loss of \<open>-5\<close> on \<^verbatim>\<open>fa\<close>;
  \<open>chaos_read\<close> stores it, and the next poll of \<^verbatim>\<open>fa\<close>, whose only probe so far was
  answered, computes \<open>100 * 0 / 1 + (-5)\<close> and leaves \<open>loss_pct = -5\<close>: the code clamps at
  100 only.
\<close>

theorem negative_chaos_loss:
  "chaos_loss (g_uplinks (chaos_read (Some negative_chaos) (main_startup default_file))
                 UPLINK_FIBER1) = D_fin (- 5)
   \<and> loss_pct (g_uplinks negative_loss_world UPLINK_FIBER1) = D_fin (- 5)"
proof -
  let ?u = "(uplinks_table UPLINK_FIBER1)
              \<lparr>chaos_rtt := D_fin 0, chaos_jitter := D_fin 0, chaos_loss := D_fin (- 5)\<rparr>"
  let ?env = "probe_at 900000 10"
  have "pr_success (history (poll_record ?env ?u) 0)"
    by (simp add: poll_record_history fgt_def)
  then have "loss_pct (uplink_poll ?env ?u) = D_fin (- 5)"
    by (simp add: uplink_poll_loss poll_loss_def Let_def loss_loop_unroll double_of_int_def
          round_double_samples fgt_def)
  then show ?thesis
    by (simp add: negative_loss_world_def negative_chaos_uplink)
qed

subsection \<open>A configuration file that cannot be opened\<close>

text \<open>
  Claim C5 at a failing input. When the configuration file cannot be opened,
  \<open>config_load\<close> returns \<open>-1\<close> and leaves the zero-initialised configuration as it is;
  \<^verbatim>\<open>main\<close> does not look at the return value, goes on, and divides by the sample rate 0:
  it does not exit with a status of its own. With a configuration file, a shutdown signal
  ends \<^verbatim>\<open>main\<close> with status 0.
\<close>

theorem missing_config_not_fatal:
  "fst (config_load None config0) = - 1
   \<and> main_config None = config0
   \<and> main_outcome None stops = Undefined_division_by_zero
   \<and> main_outcome default_file True = Exit 0"
  by (simp add: config_load_def main_config_def main_outcome_def config0_def default_file_def)

subsection \<open>The main loop stays within the reachable states\<close>

lemma arbitrate_state:
  "state (g_status s) = STATE_PROTECT \<Longrightarrow>
   state (g_status (slowpath_arbitrate cfg now verify now_sw s)) \<noteq> STATE_NORMAL
   \<and> state (g_status (slowpath_arbitrate cfg now verify now_sw s)) \<noteq> STATE_PREPARE"
  by (simp add: arbitrate_cases engage_def)

lemma reachable_probe_round:
  assumes "reachable conf s"
  shows "reachable conf (probe_round env s)"
proof -
  have "reachable conf w \<Longrightarrow>
        reachable conf (foldl (\<lambda>w i. update_uplink i (uplink_poll (te_polls env i)) w) w xs)"
    for w xs
    by (induction xs arbitrary: w) (simp_all add: r_poll)
  then show ?thesis
    using assms by (simp add: probe_round_def r_chaos)
qed

lemma reachable_state_machine:
  assumes "reachable conf s"
  shows "reachable conf (state_machine (main_config conf) env s)"
proof (cases "mode (g_status s) = MODE_TRAINING")
  case True
  with assms show ?thesis by (simp add: state_machine_def)
next
  case False
  let ?t = "tripwire_check (main_config conf) (Some (g_uplinks s (active_uplink (g_status s))))"
  show ?thesis
  proof (cases "state (g_status s)")
    case STATE_NORMAL
    with assms False r_fire [OF assms False, of ?t "te_now_dup env" "te_now_fire env"]
    show ?thesis by (simp add: state_machine_def Let_def)
  next
    case STATE_PREPARE
    with assms False r_fire [OF assms False, of ?t "te_now_dup env" "te_now_fire env"]
    show ?thesis by (simp add: state_machine_def Let_def)
  next
    case STATE_PROTECT
    let ?a = "slowpath_arbitrate (main_config conf) (te_now_arbitrate env) (te_verify env)
                (te_now_sw env) s"
    have a: "reachable conf ?a"
      using assms False STATE_PROTECT by (rule r_arbitrate)
    have "reachable conf (protection_tick (main_config conf) (te_now_protect env) ?a)"
      using a arbitrate_state [OF STATE_PROTECT] False by (intro r_protect) simp_all
    with False STATE_PROTECT show ?thesis by (simp add: state_machine_def)
  next
    case STATE_SWITCHING
    with assms False show ?thesis by (simp add: state_machine_def r_protect)
  next
    case STATE_HOLDING
    with assms False show ?thesis by (simp add: state_machine_def r_protect)
  qed
qed

lemma reachable_commands_process:
  "reachable conf s \<Longrightarrow> reachable conf (commands_process cmds s)"
  unfolding commands_process_def
  by (induction cmds arbitrary: s) (simp_all add: r_command)

lemma reachable_main_iteration:
  assumes "reachable conf (fst st)"
  shows "reachable conf (fst (main_iteration (main_config conf) env st))"
  using assms
  by (simp add: main_iteration_def Let_def reachable_probe_round r_predict
        reachable_state_machine reachable_commands_process)

lemma reachable_main_run: "reachable conf (main_run conf ticks)"
proof -
  have "reachable conf (fst st) \<Longrightarrow>
        reachable conf (fst (foldl (\<lambda>st env. main_iteration (main_config conf) env st) st ticks))"
    for st
    by (induction ticks arbitrary: st) (simp_all add: reachable_main_iteration)
  from this [of "(main_startup conf, Timers 0 0)"] show ?thesis
    by (simp add: main_run_def r_start r_shutdown)
qed

end
